(* ===== verification/Prelude.thy ===== *)
theory Prelude
  imports Main "HOL-Library.Word" "HOL-Library.Signed_Division" "HOL-Library.Monad_Syntax"
begin

unbundle bit_operations_syntax

text \<open>
  Shared vocabulary of the development: the fixed-width integer types of
  \<^verbatim>\<open>core/include/core/types.h\<close>, the lemma collections the component theories fill, a few
  facts on lists, options and words that more than one component needs, and the locale of
  step functions that keep an invariant.
\<close>

section \<open>Integer types\<close>

type_synonym u8 = "8 word"
type_synonym u16 = "16 word"
type_synonym u32 = "32 word"
type_synonym u64 = "64 word"

section \<open>Lemma collections\<close>

named_theorems frame_simps \<open>which parts of the context an operation leaves alone\<close>
named_theorems op_defs \<open>definitions of the interpreter's instruction handlers\<close>
named_theorems msg_fits \<open>lengths of formatted messages\<close>
named_theorems enum_simps \<open>tables of enumerator values\<close>

section \<open>Options\<close>

lemma bind_eq_SomeE:
  assumes "Option.bind x f = Some y"
  obtains z where "x = Some z" "f z = Some y"
  using assms by (cases x) auto

section \<open>Lists\<close>

lemma takeWhile_id:
  assumes "\<And>x. x \<in> set xs \<Longrightarrow> P x"
  shows "takeWhile P xs = xs"
  using assms by (simp add: takeWhile_eq_all_conv)

lemma takeWhile_append_stop:
  assumes "\<And>x. x \<in> set xs \<Longrightarrow> P x" "\<not> P y"
  shows "takeWhile P (xs @ y # ys) = xs"
  using assms by (induction xs) auto

section \<open>Words\<close>

lemma and_mask_take_bit:
  "w AND mask n = take_bit n w" for w :: "'a::len word"
  by (simp add: take_bit_eq_mask)

lemma mask_numerals:
  "(0x1 :: 'a::len word) = mask 1"
  "(0x3 :: 'a::len word) = mask 2"
  "(0xF :: 'a::len word) = mask 4"
  "(0x1F :: 'a::len word) = mask 5"
  "(0x3F :: 'a::len word) = mask 6"
  "(0xFF :: 'a::len word) = mask 8"
  "(0xFFF :: 'a::len word) = mask 12"
  "(0xFFFF :: 'a::len word) = mask 16"
  "(0xFFFFF :: 'a::len word) = mask 20"
  "(0x3FFFFFF :: 'a::len word) = mask 26"
  "(0x1FFFFFFF :: 'a::len word) = mask 29"
  "(0xFFFFFFFF :: 'a::len word) = mask 32"
  by (simp_all add: mask_eq_exp_minus_1)

lemma unat_take_bit: "unat (take_bit n w) = take_bit n (unat w)"
  for w :: "'a::len word"
  by (rule unsigned_take_bit_eq)

lemma unat_and_mask_less:
  "unat (w AND mask n) < 2 ^ n" for w :: "'a::len word"
  by (simp add: and_mask_take_bit unat_take_bit)

lemma nat_less_32_cases:
  assumes "n < (32::nat)"
    and "P 0" "P 1" "P 2" "P 3" "P 4" "P 5" "P 6" "P 7"
    and "P 8" "P 9" "P 10" "P 11" "P 12" "P 13" "P 14" "P 15"
    and "P 16" "P 17" "P 18" "P 19" "P 20" "P 21" "P 22" "P 23"
    and "P 24" "P 25" "P 26" "P 27" "P 28" "P 29" "P 30" "P 31"
  shows "P n"
proof -
  from assms(1) have "n \<in> {0, 1, 2, 3, 4, 5, 6, 7, 8, 9, 10, 11, 12, 13, 14, 15,
      16, 17, 18, 19, 20, 21, 22, 23, 24, 25, 26, 27, 28, 29, 30, 31}"
    by (simp only: insert_iff empty_iff) presburger
  then show ?thesis using assms(2-) by blast
qed

text \<open>A 32-bit equation by its 32 bits: the last resort for masks and shifts.\<close>

lemma u32_bit_eqI:
  fixes a b :: u32
  assumes "\<And>n. n < 32 \<Longrightarrow> bit a n = bit b n"
  shows "a = b"
  using assms by (intro bit_word_eqI) simp

section \<open>Steps that keep an invariant\<close>

text \<open>
  The contract between a machine and whoever drives it: every step that returns keeps the
  invariant, and from the invariant together with a guard the step does return. Runs of a
  bounded number of steps inherit both.
\<close>

primrec run_steps :: "('s \<Rightarrow> 's option) \<Rightarrow> nat \<Rightarrow> 's \<Rightarrow> 's option" where
  "run_steps f 0 s = Some s"
| "run_steps f (Suc n) s = Option.bind (f s) (run_steps f n)"

lemma run_steps_add:
  "run_steps f (m + n) s = Option.bind (run_steps f m s) (run_steps f n)"
  by (induction m arbitrary: s) (simp_all split: Option.bind_split)

locale invariant_step =
  fixes step :: "'s \<Rightarrow> 's option" and inv :: "'s \<Rightarrow> bool"
  assumes step_inv: "inv s \<Longrightarrow> step s = Some t \<Longrightarrow> inv t"
begin

lemma run_inv: "inv s \<Longrightarrow> run_steps step n s = Some t \<Longrightarrow> inv t"
  by (induction n arbitrary: s) (auto elim!: bind_eq_SomeE dest: step_inv)

end

locale guarded_step = invariant_step +
  fixes safe :: "'s \<Rightarrow> bool"
  assumes step_progress: "inv s \<Longrightarrow> safe s \<Longrightarrow> \<exists>t. step s = Some t"
begin

lemma run_progress:
  assumes "inv s"
    and "\<And>k t. k < n \<Longrightarrow> run_steps step k s = Some t \<Longrightarrow> safe t"
  shows "\<exists>t. run_steps step n s = Some t"
  using assms
proof (induction n)
  case 0
  then show ?case by simp
next
  case (Suc n)
  then have "\<exists>t. run_steps step n s = Some t" by (meson less_SucI)
  then obtain t where t: "run_steps step n s = Some t" ..
  moreover from t Suc.prems have "inv t" "safe t" by (auto dest: run_inv)
  ultimately show ?case
    using step_progress [of t] run_steps_add [of step n 1 s] by (auto simp: Option.bind_eq_Some_conv)
qed

end

text \<open>
  A step that agrees with a specification through an abstraction wherever the specification
  has a successor: runs agree as well, and with progress every run of the specification is the
  image of a run of the step.
\<close>

locale simulation = invariant_step +
  fixes spec :: "'m \<Rightarrow> 'm option" and abs_of :: "'s \<Rightarrow> 'm"
  assumes step_sim: "inv s \<Longrightarrow> spec (abs_of s) = Some m \<Longrightarrow> step s = Some t \<Longrightarrow> m = abs_of t"
begin

lemma run_sim:
  "inv s \<Longrightarrow> run_steps spec n (abs_of s) = Some m \<Longrightarrow> run_steps step n s = Some t \<Longrightarrow> m = abs_of t"
proof (induction n arbitrary: s)
  case (Suc n)
  then obtain u v where "step s = Some u" "run_steps step n u = Some t"
    "spec (abs_of s) = Some v" "run_steps spec n v = Some m"
    by (auto elim!: bind_eq_SomeE)
  with Suc show ?case using step_sim [of s v u] step_inv [of s u] by simp
qed simp

end

locale total_simulation = simulation +
  assumes step_returns: "inv s \<Longrightarrow> spec (abs_of s) = Some m \<Longrightarrow> \<exists>t. step s = Some t"

text \<open>
  The relational form, for specifications whose state says less or more than a function of the
  implementation's: every step of the specification is answered by a step that keeps the
  relation. A total simulation is the instance in which the relation is the abstraction.
\<close>

locale forward_simulation =
  fixes step :: "'s \<Rightarrow> 's option" and spec :: "'m \<Rightarrow> 'm option" and rel :: "'s \<Rightarrow> 'm \<Rightarrow> bool"
  assumes step_answers: "rel s m \<Longrightarrow> spec m = Some m' \<Longrightarrow> \<exists>t. step s = Some t \<and> rel t m'"
begin

lemma run_answers:
  "rel s m \<Longrightarrow> run_steps spec n m = Some m' \<Longrightarrow> \<exists>t. run_steps step n s = Some t \<and> rel t m'"
proof (induction n arbitrary: s m)
  case (Suc n)
  then obtain k where k: "spec m = Some k" "run_steps spec n k = Some m'"
    by (auto elim!: bind_eq_SomeE)
  obtain u where "step s = Some u" "rel u k" using step_answers [OF Suc.prems(1) k(1)] by blast
  then show ?case using Suc.IH [of u k] k(2) by simp
qed simp

end

sublocale total_simulation \<subseteq> forward_simulation step spec "\<lambda>s m. inv s \<and> abs_of s = m"
proof
  fix s m m'
  assume "inv s \<and> abs_of s = m" "spec m = Some m'"
  then obtain t where "step s = Some t" using step_returns by blast
  with \<open>inv s \<and> abs_of s = m\<close> \<open>spec m = Some m'\<close>
  show "\<exists>t. step s = Some t \<and> inv t \<and> abs_of t = m'" using step_sim step_inv by blast
qed

context total_simulation begin

lemma run_total:
  "inv s \<Longrightarrow> run_steps spec n (abs_of s) = Some m \<Longrightarrow>
    \<exists>t. run_steps step n s = Some t \<and> abs_of t = m"
  using run_answers [of s "abs_of s" n m] by blast

end

end
