(* ===== verification/C_Format.thy ===== *)
theory C_Format
  imports Prelude
begin

text \<open>
  What the sources use of \<^verbatim>\<open><stdio.h>\<close> and of C character arrays. A C string is the part of
  an array before its first NUL; \<^verbatim>\<open>%s\<close> prints that part. The integer conversions used are
  \<^verbatim>\<open>%0nX\<close>, \<^verbatim>\<open>%u\<close> and \<^verbatim>\<open>%d\<close> of values that are never negative. A write outside an array
  is undefined behaviour in C and is \<^term>\<open>None\<close> here and everywhere in the development.
\<close>

section \<open>Strings in arrays\<close>

definition NUL :: char where
  "NUL = CHR 0x00"

definition c_str :: "char list \<Rightarrow> string" where
  "c_str xs = takeWhile (\<lambda>c. c \<noteq> NUL) xs"

definition c_string_of :: "char list \<Rightarrow> string option" where
  "c_string_of xs = (if NUL \<in> set xs then Some (c_str xs) else None)"

definition array_write :: "'a list \<Rightarrow> nat \<Rightarrow> 'a list \<Rightarrow> 'a list option" where
  "array_write xs i vs =
     (if i + length vs \<le> length xs
      then Some (take i xs @ vs @ drop (i + length vs) xs) else None)"

lemma array_write_length: "array_write xs i vs = Some ys \<Longrightarrow> length ys = length xs"
  by (auto simp: array_write_def split: if_splits)

lemma array_write_one:
  assumes "i < length xs"
  shows "array_write xs i [v] = Some (xs[i := v])"
  using assms by (simp add: array_write_def upd_conv_take_nth_drop)

lemma c_str_id [simp]: "NUL \<notin> set xs \<Longrightarrow> c_str xs = xs"
  unfolding c_str_def by (rule takeWhile_id) auto

lemma c_str_append_NUL: "NUL \<notin> set xs \<Longrightarrow> c_str (xs @ NUL # ys) = xs"
  unfolding c_str_def by (rule takeWhile_append_stop) auto

lemma length_c_str_le: "length (c_str xs) \<le> length xs"
  by (simp add: c_str_def length_takeWhile_le)

section \<open>Integer conversions\<close>

definition hex_digit :: "nat \<Rightarrow> char" where
  "hex_digit d = ''0123456789ABCDEF'' ! d"

fun base_digits :: "nat \<Rightarrow> nat \<Rightarrow> nat list" where
  "base_digits b n =
     (if b \<le> 1 \<or> n < b then [n] else base_digits b (n div b) @ [n mod b])"

declare base_digits.simps [simp del]

lemma base_digits_nonempty [simp]: "base_digits b n \<noteq> []"
  by (subst base_digits.simps) simp

lemma base_digits_small: "n < b \<Longrightarrow> base_digits b n = [n]"
  by (subst base_digits.simps) simp

lemma length_base_digits:
  assumes "2 \<le> b" "n < b ^ k" "0 < k"
  shows "length (base_digits b n) \<le> k"
  using assms
proof (induction b n arbitrary: k rule: base_digits.induct)
  case (1 b n)
  show ?case
  proof (cases "n < b")
    case True
    with "1.prems" show ?thesis by (simp add: base_digits_small)
  next
    case False
    with "1.prems" obtain j where j: "k = Suc j" "0 < j"
      by (cases k; cases "k - 1") auto
    with "1.prems" have "n div b < b ^ j"
      by (simp add: less_mult_imp_div_less mult.commute)
    with False "1.prems" j have "length (base_digits b (n div b)) \<le> j"
      by (intro "1.IH") auto
    with False "1.prems" j show ?thesis by (subst base_digits.simps) simp
  qed
qed

definition fmt_0X :: "nat \<Rightarrow> nat \<Rightarrow> string" where
  "fmt_0X w v =
     (let ds = map hex_digit (base_digits 16 v)
      in replicate (w - length ds) (CHR ''0'') @ ds)"

definition fmt_u :: "nat \<Rightarrow> string" where
  "fmt_u v = map hex_digit (base_digits 10 v)"

lemma length_fmt_0X:
  assumes "v < 16 ^ w" "0 < w"
  shows "length (fmt_0X w v) = w"
  using length_base_digits [of 16 v w] assms by (simp add: fmt_0X_def Let_def)

lemma length_fmt_X8 [msg_fits, simp]: "length (fmt_0X 8 (unat (w :: u32))) = 8"
  using unsigned_less [of w, where ?'a = nat] by (intro length_fmt_0X) simp_all

lemma length_fmt_X4 [msg_fits, simp]: "length (fmt_0X 4 (unat (w :: u16))) = 4"
  using unsigned_less [of w, where ?'a = nat] by (intro length_fmt_0X) simp_all

lemma length_fmt_X2 [msg_fits, simp]: "length (fmt_0X 2 (unat (w :: u8))) = 2"
  using unsigned_less [of w, where ?'a = nat] by (intro length_fmt_0X) simp_all

lemma length_fmt_u_32: "v < 32 \<Longrightarrow> length (fmt_u v) \<le> 2"
  using length_base_digits [of 10 v 2] by (simp add: fmt_u_def)

text \<open>No conversion ever produces a NUL, so a formatted message is one C string.\<close>

lemma base_digits_less:
  assumes "2 \<le> b" "d \<in> set (base_digits b n)"
  shows "d < b"
  using assms
proof (induction b n rule: base_digits.induct)
  case (1 b n)
  show ?case
  proof (cases "n < b")
    case True
    with "1.prems" show ?thesis by (simp add: base_digits_small)
  next
    case False
    have "d \<in> set (base_digits b (n div b)) \<or> d = n mod b"
      using "1.prems" False by (subst (asm) base_digits.simps) auto
    then show ?thesis using "1.IH" "1.prems" False by auto
  qed
qed

lemma hex_digit_not_NUL: "d < 16 \<Longrightarrow> hex_digit d \<noteq> NUL"
  by (auto simp: hex_digit_def NUL_def less_Suc_eq numeral_eq_Suc)

lemma NUL_not_in_fmt [simp]: "NUL \<notin> set (fmt_0X w v)" "NUL \<notin> set (fmt_u v)"
proof -
  show "NUL \<notin> set (fmt_0X w v)"
    using base_digits_less [of 16 _ v] hex_digit_not_NUL
    by (auto simp: fmt_0X_def Let_def) (auto simp: NUL_def)
  show "NUL \<notin> set (fmt_u v)"
  proof
    assume "NUL \<in> set (fmt_u v)"
    then obtain d where "d \<in> set (base_digits 10 v)" "hex_digit d = NUL"
      by (auto simp: fmt_u_def)
    moreover from this have "d < 16" using base_digits_less [of 10 d v] by simp
    ultimately show False using hex_digit_not_NUL by blast
  qed
qed

end
