(* ===== verification/C_Memory.thy ===== *)
theory C_Memory
  imports Prelude
begin

text \<open>
  Byte buffers as the sources use them: a pointer to an object of known size, read and
  written with \<^verbatim>\<open>memcpy\<close> or by index. An access that leaves the object is undefined
  behaviour, \<^term>\<open>None\<close>. Integers are stored little-endian, as on the hosts the emulator is
  built for (the sources copy machine integers byte for byte without swapping).
\<close>

section \<open>Buffers\<close>

record buffer =
  buf_size :: nat
  buf_byte :: "nat \<Rightarrow> u8"

definition memcpy_from :: "buffer \<Rightarrow> nat \<Rightarrow> nat \<Rightarrow> u8 list option" where
  "memcpy_from b off n =
     (if off + n \<le> buf_size b then Some (map (\<lambda>i. buf_byte b (off + i)) [0..<n]) else None)"

definition memcpy_to :: "buffer \<Rightarrow> nat \<Rightarrow> u8 list \<Rightarrow> buffer option" where
  "memcpy_to b off bs =
     (if off + length bs \<le> buf_size b
      then Some (b\<lparr>buf_byte := (\<lambda>i. if off \<le> i \<and> i < off + length bs
                                    then bs ! (i - off) else buf_byte b i)\<rparr>)
      else None)"

section \<open>Little-endian integers\<close>

primrec le_word :: "u8 list \<Rightarrow> 'a::len word" where
  "le_word [] = 0"
| "le_word (b # bs) = (ucast b OR push_bit 8 (le_word bs))"

definition le_bytes :: "nat \<Rightarrow> 'a::len word \<Rightarrow> u8 list" where
  "le_bytes n w = map (\<lambda>i. ucast (drop_bit (8 * i) w)) [0..<n]"

lemma length_le_bytes [simp]: "length (le_bytes n w) = n"
  by (simp add: le_bytes_def)

lemma nth_le_bytes [simp]: "i < n \<Longrightarrow> le_bytes n w ! i = ucast (drop_bit (8 * i) w)"
  by (simp add: le_bytes_def)

lemma le_bytes_4: "le_bytes 4 w =
   [ucast w, ucast (drop_bit 8 w), ucast (drop_bit 16 w), ucast (drop_bit 24 w)]"
  by (simp add: le_bytes_def upt_rec)

lemma bit_le_word:
  "bit (le_word bs :: 'a::len word) n \<longleftrightarrow>
     n < LENGTH('a) \<and> n div 8 < length bs \<and> bit (bs ! (n div 8)) (n mod 8)"
proof (induction bs arbitrary: n)
  case Nil
  then show ?case by simp
next
  case (Cons b bs)
  show ?case
  proof (cases "n < 8")
    case True
    then show ?thesis by (auto simp: bit_or_iff bit_push_bit_iff bit_simps)
  next
    case False
    then have n: "n div 8 = Suc ((n - 8) div 8)" "n mod 8 = (n - 8) mod 8"
      by (simp_all add: le_div_geq le_mod_geq)
    from False have "\<not> bit b n" by (auto dest: bit_imp_le_length)
    with False n show ?thesis
      by (auto simp: bit_or_iff bit_push_bit_iff bit_simps Cons.IH)
  qed
qed

lemma le_word_le_bytes:
  "le_word (le_bytes n w) = take_bit (8 * n) w" for w :: "'a::len word"
proof (rule bit_word_eqI)
  fix k
  assume "k < LENGTH('a)"
  then show "bit (le_word (le_bytes n w) :: 'a word) k = bit (take_bit (8 * n) w) k"
    by (auto simp: bit_le_word bit_simps)
qed

lemma le_word_le_bytes_u32 [simp]: "le_word (le_bytes 4 w) = (w :: u32)"
  by (simp add: le_word_le_bytes take_bit_word_eq_self)

lemma le_word_le_bytes_u16 [simp]: "le_word (le_bytes 2 w) = (w :: u16)"
  by (simp add: le_word_le_bytes take_bit_word_eq_self)

section \<open>The byte-store interface\<close>

text \<open>
  What a client of a byte-addressed store relies on. \<open>extent\<close> is the number of bytes the
  store has; accesses inside it succeed and nothing else does.
\<close>

locale byte_store =
  fixes rd :: "'m \<Rightarrow> nat \<Rightarrow> nat \<Rightarrow> u8 list option"
    and wr :: "'m \<Rightarrow> nat \<Rightarrow> u8 list \<Rightarrow> 'm option"
    and extent :: "'m \<Rightarrow> nat"
  assumes rd_defined: "(\<exists>bs. rd m off n = Some bs) \<longleftrightarrow> off + n \<le> extent m"
    and rd_length: "rd m off n = Some bs \<Longrightarrow> length bs = n"
    and wr_defined: "(\<exists>m'. wr m off bs = Some m') \<longleftrightarrow> off + length bs \<le> extent m"
    and wr_extent: "wr m off bs = Some m' \<Longrightarrow> extent m' = extent m"
    and rd_nth: "rd m off n = Some bs \<Longrightarrow> i < n \<Longrightarrow> rd m (off + i) (Suc 0) = Some [bs ! i]"
    and wr_rd_byte: "wr m off bs = Some m' \<Longrightarrow> k < extent m \<Longrightarrow>
      rd m' k (Suc 0) = (if off \<le> k \<and> k < off + length bs then Some [bs ! (k - off)] else rd m k (Suc 0))"
begin

lemma rd_None_iff: "rd m off n = None \<longleftrightarrow> extent m < off + n"
  using rd_defined [of m off n] by (cases "rd m off n") auto

lemma wr_None_iff: "wr m off bs = None \<longleftrightarrow> extent m < off + length bs"
  using wr_defined [of m off bs] by (cases "wr m off bs") auto

lemma rd_eqI:
  assumes r: "rd m off n = Some bs" and len: "length cs = n"
    and byte: "\<And>i. i < n \<Longrightarrow> rd m (off + i) (Suc 0) = Some [cs ! i]"
  shows "bs = cs"
proof (rule nth_equalityI)
  show "length bs = length cs" using rd_length [OF r] len by simp
next
  fix i
  assume "i < length bs"
  then have "i < n" using rd_length [OF r] by simp
  then show "bs ! i = cs ! i" using rd_nth [OF r] byte by fastforce
qed

lemma rd_wr_same:
  assumes w: "wr m off bs = Some m'"
  shows "rd m' off (length bs) = Some bs"
proof -
  have ext: "off + length bs \<le> extent m" using wr_defined w by blast
  then obtain cs where cs: "rd m' off (length bs) = Some cs"
    using rd_defined wr_extent [OF w] by metis
  have "cs = bs"
    using ext by (intro rd_eqI [OF cs]) (auto simp: wr_rd_byte [OF w])
  with cs show ?thesis by simp
qed

lemma rd_wr_disjoint:
  assumes w: "wr m off bs = Some m'" and dis: "k + n \<le> off \<or> off + length bs \<le> k"
  shows "rd m' k n = rd m k n"
proof (cases "rd m k n")
  case None
  then have "rd m' k n = None" using wr_extent [OF w] by (simp only: rd_None_iff)
  with None show ?thesis by simp
next
  case (Some cs)
  then have ext: "k + n \<le> extent m" using rd_defined by blast
  then obtain ds where ds: "rd m' k n = Some ds"
    using rd_defined wr_extent [OF w] by metis
  have "rd m' (k + i) (Suc 0) = Some [cs ! i]" if "i < n" for i
    using that dis ext rd_nth [OF Some that] by (auto simp: wr_rd_byte [OF w])
  then have "ds = cs" by (intro rd_eqI [OF ds]) (simp_all add: rd_length [OF Some])
  with ds Some show ?thesis by simp
qed

end

interpretation buf: byte_store memcpy_from memcpy_to buf_size
proof
  fix m :: buffer and off n i k :: nat and bs m'
  show "(\<exists>bs. memcpy_from m off n = Some bs) \<longleftrightarrow> off + n \<le> buf_size m"
    by (simp add: memcpy_from_def)
  show "memcpy_from m off n = Some bs \<Longrightarrow> length bs = n"
    by (auto simp: memcpy_from_def split: if_splits)
  show "(\<exists>m'. memcpy_to m off bs = Some m') \<longleftrightarrow> off + length bs \<le> buf_size m"
    by (simp add: memcpy_to_def)
  show "memcpy_to m off bs = Some m' \<Longrightarrow> buf_size m' = buf_size m"
    by (auto simp: memcpy_to_def split: if_splits)
  show "memcpy_from m off n = Some bs \<Longrightarrow> i < n \<Longrightarrow>
      memcpy_from m (off + i) (Suc 0) = Some [bs ! i]"
    by (auto simp: memcpy_from_def split: if_splits)
  show "memcpy_to m off bs = Some m' \<Longrightarrow> k < buf_size m \<Longrightarrow>
      memcpy_from m' k (Suc 0) = (if off \<le> k \<and> k < off + length bs
        then Some [bs ! (k - off)] else memcpy_from m k (Suc 0))"
    by (auto simp: memcpy_to_def memcpy_from_def split: if_splits)
qed

lemma memcpy_to_size [frame_simps]: "memcpy_to b off bs = Some b' \<Longrightarrow> buf_size b' = buf_size b"
  by (rule buf.wr_extent)

end
