(* ===== verification/Cpu_Defs.thy ===== *)
theory Cpu_Defs
  imports Prelude
begin

text \<open>
  The definitions of \<^verbatim>\<open>core/include/core/cpu-defs.h\<close>, \<^verbatim>\<open>core/cpu-defs.h\<close> and
  \<^verbatim>\<open>core/util.h\<close>: register numbers, opcode and exception enumerations, instruction field
  extraction, sign extension and address computation. A C enumeration is a datatype with its
  constructors' values given by a function; a \<^verbatim>\<open>switch\<close> over an integer is a case
  distinction over the enumerator that has this value, if any (\<open>enum_of\<close>).
\<close>

section \<open>Enumerations\<close>

definition enum_of :: "('e \<Rightarrow> u32) \<Rightarrow> 'e list \<Rightarrow> u32 \<Rightarrow> 'e option" where
  "enum_of v es n = List.find (\<lambda>e. v e = n) es"

locale enum_values =
  fixes v :: "'e \<Rightarrow> u32" and es :: "'e list"
  assumes complete: "e \<in> set es" and injective: "v a = v b \<Longrightarrow> a = b"
begin

lemma enum_of_value: "enum_of v es (v e) = Some e"
proof -
  have "enum_of v es (v e) \<noteq> None"
    using complete [of e] by (auto simp: enum_of_def find_None_iff)
  then obtain a where a: "enum_of v es (v e) = Some a" by auto
  then have "v a = v e" by (auto simp: enum_of_def find_Some_iff)
  with a show ?thesis by (simp add: injective)
qed

lemma enum_of_Some_iff: "enum_of v es n = Some e \<longleftrightarrow> n = v e"
  by (auto simp: enum_of_value) (auto simp: enum_of_def find_Some_iff)

lemma enum_of_None_iff: "enum_of v es n = None \<longleftrightarrow> n \<notin> range v"
  using complete by (auto simp: enum_of_def find_None_iff)

end

subsection \<open>General purpose and system coprocessor registers\<close>

datatype psycho_cpu_gpr =
    CPU_GPR_ZERO | CPU_GPR_AT | CPU_GPR_V0 | CPU_GPR_V1 | CPU_GPR_A0 | CPU_GPR_A1
     | CPU_GPR_A2 | CPU_GPR_A3 | CPU_GPR_T0 | CPU_GPR_T1 | CPU_GPR_T2 | CPU_GPR_T3
     | CPU_GPR_T4 | CPU_GPR_T5 | CPU_GPR_T6 | CPU_GPR_T7 | CPU_GPR_S0 | CPU_GPR_S1
     | CPU_GPR_S2 | CPU_GPR_S3 | CPU_GPR_S4 | CPU_GPR_S5 | CPU_GPR_S6 | CPU_GPR_S7
     | CPU_GPR_T8 | CPU_GPR_T9 | CPU_GPR_K0 | CPU_GPR_K1 | CPU_GPR_GP | CPU_GPR_SP
     | CPU_GPR_FP | CPU_GPR_RA

primrec gpr_index :: "psycho_cpu_gpr \<Rightarrow> nat" where
  "gpr_index CPU_GPR_ZERO = 0"
| "gpr_index CPU_GPR_AT = 1"
| "gpr_index CPU_GPR_V0 = 2"
| "gpr_index CPU_GPR_V1 = 3"
| "gpr_index CPU_GPR_A0 = 4"
| "gpr_index CPU_GPR_A1 = 5"
| "gpr_index CPU_GPR_A2 = 6"
| "gpr_index CPU_GPR_A3 = 7"
| "gpr_index CPU_GPR_T0 = 8"
| "gpr_index CPU_GPR_T1 = 9"
| "gpr_index CPU_GPR_T2 = 10"
| "gpr_index CPU_GPR_T3 = 11"
| "gpr_index CPU_GPR_T4 = 12"
| "gpr_index CPU_GPR_T5 = 13"
| "gpr_index CPU_GPR_T6 = 14"
| "gpr_index CPU_GPR_T7 = 15"
| "gpr_index CPU_GPR_S0 = 16"
| "gpr_index CPU_GPR_S1 = 17"
| "gpr_index CPU_GPR_S2 = 18"
| "gpr_index CPU_GPR_S3 = 19"
| "gpr_index CPU_GPR_S4 = 20"
| "gpr_index CPU_GPR_S5 = 21"
| "gpr_index CPU_GPR_S6 = 22"
| "gpr_index CPU_GPR_S7 = 23"
| "gpr_index CPU_GPR_T8 = 24"
| "gpr_index CPU_GPR_T9 = 25"
| "gpr_index CPU_GPR_K0 = 26"
| "gpr_index CPU_GPR_K1 = 27"
| "gpr_index CPU_GPR_GP = 28"
| "gpr_index CPU_GPR_SP = 29"
| "gpr_index CPU_GPR_FP = 30"
| "gpr_index CPU_GPR_RA = 31"

definition CPU_GPR_NUM :: nat where
  "CPU_GPR_NUM = 32"

datatype psycho_cpu_cop0_regs =
    CPU_COP0_BPC | CPU_COP0_BDA | CPU_COP0_TAR | CPU_COP0_DCIC | CPU_COP0_BADA
     | CPU_COP0_BDAM | CPU_COP0_BPCM | CPU_COP0_SR | CPU_COP0_CAUSE | CPU_COP0_EPC
     | CPU_COP0_PRID

primrec cop0_index :: "psycho_cpu_cop0_regs \<Rightarrow> nat" where
  "cop0_index CPU_COP0_BPC = 3"
| "cop0_index CPU_COP0_BDA = 5"
| "cop0_index CPU_COP0_TAR = 6"
| "cop0_index CPU_COP0_DCIC = 7"
| "cop0_index CPU_COP0_BADA = 8"
| "cop0_index CPU_COP0_BDAM = 9"
| "cop0_index CPU_COP0_BPCM = 11"
| "cop0_index CPU_COP0_SR = 12"
| "cop0_index CPU_COP0_CAUSE = 13"
| "cop0_index CPU_COP0_EPC = 14"
| "cop0_index CPU_COP0_PRID = 15"

definition CPU_COP0_NUM :: nat where
  "CPU_COP0_NUM = 32"

definition RESET_PC :: u32 where
  "RESET_PC = 0xBFC00000"

lemma gpr_index_less [simp]: "gpr_index r < 32"
  by (cases r) simp_all

lemma cop0_index_less [simp]: "cop0_index r < 32"
  by (cases r) simp_all

subsection \<open>Opcodes\<close>

datatype instr_group_op =
    INSTR_GROUP_SPECIAL | INSTR_GROUP_BCOND | INSTR_GROUP_COP0 | INSTR_J | INSTR_JAL
     | INSTR_BEQ | INSTR_BNE | INSTR_BLEZ | INSTR_BGTZ | INSTR_ADDI | INSTR_ADDIU
     | INSTR_SLTI | INSTR_SLTIU | INSTR_ANDI | INSTR_ORI | INSTR_XORI | INSTR_LUI | INSTR_LB
     | INSTR_LH | INSTR_LWL | INSTR_LW | INSTR_LBU | INSTR_LHU | INSTR_LWR | INSTR_SB
     | INSTR_SH | INSTR_SWL | INSTR_SW | INSTR_SWR

primrec op_value :: "instr_group_op \<Rightarrow> u32" where
  "op_value INSTR_GROUP_SPECIAL = 0x00"
| "op_value INSTR_GROUP_BCOND = 0x01"
| "op_value INSTR_GROUP_COP0 = 0x10"
| "op_value INSTR_J = 0x02"
| "op_value INSTR_JAL = 0x03"
| "op_value INSTR_BEQ = 0x04"
| "op_value INSTR_BNE = 0x05"
| "op_value INSTR_BLEZ = 0x06"
| "op_value INSTR_BGTZ = 0x07"
| "op_value INSTR_ADDI = 0x08"
| "op_value INSTR_ADDIU = 0x09"
| "op_value INSTR_SLTI = 0x0A"
| "op_value INSTR_SLTIU = 0x0B"
| "op_value INSTR_ANDI = 0x0C"
| "op_value INSTR_ORI = 0x0D"
| "op_value INSTR_XORI = 0x0E"
| "op_value INSTR_LUI = 0x0F"
| "op_value INSTR_LB = 0x20"
| "op_value INSTR_LH = 0x21"
| "op_value INSTR_LWL = 0x22"
| "op_value INSTR_LW = 0x23"
| "op_value INSTR_LBU = 0x24"
| "op_value INSTR_LHU = 0x25"
| "op_value INSTR_LWR = 0x26"
| "op_value INSTR_SB = 0x28"
| "op_value INSTR_SH = 0x29"
| "op_value INSTR_SWL = 0x2A"
| "op_value INSTR_SW = 0x2B"
| "op_value INSTR_SWR = 0x2E"

definition all_ops :: "instr_group_op list" where
  "all_ops =
    [INSTR_GROUP_SPECIAL, INSTR_GROUP_BCOND, INSTR_GROUP_COP0, INSTR_J, INSTR_JAL, INSTR_BEQ
     , INSTR_BNE, INSTR_BLEZ, INSTR_BGTZ, INSTR_ADDI, INSTR_ADDIU, INSTR_SLTI, INSTR_SLTIU
     , INSTR_ANDI, INSTR_ORI, INSTR_XORI, INSTR_LUI, INSTR_LB, INSTR_LH, INSTR_LWL, INSTR_LW
     , INSTR_LBU, INSTR_LHU, INSTR_LWR, INSTR_SB, INSTR_SH, INSTR_SWL, INSTR_SW, INSTR_SWR]"

interpretation group_op: enum_values op_value all_ops
proof
  fix a b e :: instr_group_op
  show "e \<in> set all_ops" by (cases e) (simp_all add: all_ops_def)
  show "op_value a = op_value b \<Longrightarrow> a = b" by (cases a; cases b) simp_all
qed

datatype instr_group_special =
    INSTR_SLL | INSTR_SRL | INSTR_SRA | INSTR_SLLV | INSTR_SRLV | INSTR_SRAV | INSTR_JR
     | INSTR_JALR | INSTR_SYSCALL | INSTR_BREAK | INSTR_MFHI | INSTR_MTHI | INSTR_MFLO
     | INSTR_MTLO | INSTR_MULT | INSTR_MULTU | INSTR_DIV | INSTR_DIVU | INSTR_ADD
     | INSTR_ADDU | INSTR_SUB | INSTR_SUBU | INSTR_AND | INSTR_OR | INSTR_XOR | INSTR_NOR
     | INSTR_SLT | INSTR_SLTU

primrec special_value :: "instr_group_special \<Rightarrow> u32" where
  "special_value INSTR_SLL = 0x00"
| "special_value INSTR_SRL = 0x02"
| "special_value INSTR_SRA = 0x03"
| "special_value INSTR_SLLV = 0x04"
| "special_value INSTR_SRLV = 0x06"
| "special_value INSTR_SRAV = 0x07"
| "special_value INSTR_JR = 0x08"
| "special_value INSTR_JALR = 0x09"
| "special_value INSTR_SYSCALL = 0x0C"
| "special_value INSTR_BREAK = 0x0D"
| "special_value INSTR_MFHI = 0x10"
| "special_value INSTR_MTHI = 0x11"
| "special_value INSTR_MFLO = 0x12"
| "special_value INSTR_MTLO = 0x13"
| "special_value INSTR_MULT = 0x18"
| "special_value INSTR_MULTU = 0x19"
| "special_value INSTR_DIV = 0x1A"
| "special_value INSTR_DIVU = 0x1B"
| "special_value INSTR_ADD = 0x20"
| "special_value INSTR_ADDU = 0x21"
| "special_value INSTR_SUB = 0x22"
| "special_value INSTR_SUBU = 0x23"
| "special_value INSTR_AND = 0x24"
| "special_value INSTR_OR = 0x25"
| "special_value INSTR_XOR = 0x26"
| "special_value INSTR_NOR = 0x27"
| "special_value INSTR_SLT = 0x2A"
| "special_value INSTR_SLTU = 0x2B"

definition all_specials :: "instr_group_special list" where
  "all_specials =
    [INSTR_SLL, INSTR_SRL, INSTR_SRA, INSTR_SLLV, INSTR_SRLV, INSTR_SRAV, INSTR_JR
     , INSTR_JALR, INSTR_SYSCALL, INSTR_BREAK, INSTR_MFHI, INSTR_MTHI, INSTR_MFLO
     , INSTR_MTLO, INSTR_MULT, INSTR_MULTU, INSTR_DIV, INSTR_DIVU, INSTR_ADD, INSTR_ADDU
     , INSTR_SUB, INSTR_SUBU, INSTR_AND, INSTR_OR, INSTR_XOR, INSTR_NOR, INSTR_SLT
     , INSTR_SLTU]"

interpretation group_special: enum_values special_value all_specials
proof
  fix a b e :: instr_group_special
  show "e \<in> set all_specials" by (cases e) (simp_all add: all_specials_def)
  show "special_value a = special_value b \<Longrightarrow> a = b" by (cases a; cases b) simp_all
qed

datatype instr_group_bcond =
    INSTR_BLTZ | INSTR_BGEZ | INSTR_BLTZAL

primrec bcond_value :: "instr_group_bcond \<Rightarrow> u32" where
  "bcond_value INSTR_BLTZ = 0x00"
| "bcond_value INSTR_BGEZ = 0x01"
| "bcond_value INSTR_BLTZAL = 0x10"

definition all_bconds :: "instr_group_bcond list" where
  "all_bconds =
    [INSTR_BLTZ, INSTR_BGEZ, INSTR_BLTZAL]"

interpretation group_bcond: enum_values bcond_value all_bconds
proof
  fix a b e :: instr_group_bcond
  show "e \<in> set all_bconds" by (cases e) (simp_all add: all_bconds_def)
  show "bcond_value a = bcond_value b \<Longrightarrow> a = b" by (cases a; cases b) simp_all
qed

datatype instr_group_cop =
    INSTR_COP_MF | INSTR_COP_MT

primrec cop_value :: "instr_group_cop \<Rightarrow> u32" where
  "cop_value INSTR_COP_MF = 0x00"
| "cop_value INSTR_COP_MT = 0x04"

definition all_cops :: "instr_group_cop list" where
  "all_cops =
    [INSTR_COP_MF, INSTR_COP_MT]"

interpretation group_cop: enum_values cop_value all_cops
proof
  fix a b e :: instr_group_cop
  show "e \<in> set all_cops" by (cases e) (simp_all add: all_cops_def)
  show "cop_value a = cop_value b \<Longrightarrow> a = b" by (cases a; cases b) simp_all
qed

datatype instr_group_cop0 =
    INSTR_RFE

primrec cop0_value :: "instr_group_cop0 \<Rightarrow> u32" where
  "cop0_value INSTR_RFE = 0x10"

definition all_cop0s :: "instr_group_cop0 list" where
  "all_cop0s =
    [INSTR_RFE]"

interpretation group_cop0: enum_values cop0_value all_cop0s
proof
  fix a b e :: instr_group_cop0
  show "e \<in> set all_cop0s" by (cases e) (simp_all add: all_cop0s_def)
  show "cop0_value a = cop0_value b \<Longrightarrow> a = b" by (cases a; cases b) simp_all
qed

subsection \<open>Exception codes, status and debug bits\<close>

datatype cpu_exc_code =
    EXCEPTION_ADEL | EXCEPTION_ADES | EXCEPTION_SYS | EXCEPTION_BP | EXCEPTION_OV

primrec exc_value :: "cpu_exc_code \<Rightarrow> u32" where
  "exc_value EXCEPTION_ADEL = 4"
| "exc_value EXCEPTION_ADES = 5"
| "exc_value EXCEPTION_SYS = 8"
| "exc_value EXCEPTION_BP = 9"
| "exc_value EXCEPTION_OV = 12"

definition CPU_SR_ISC :: u32 where
  "CPU_SR_ISC = push_bit 16 1"

definition CAUSE_EXC_CODE_MASK :: u32 where
  "CAUSE_EXC_CODE_MASK = 0x0000007C"

definition CPU_DCIC_DE :: u32 where
  "CPU_DCIC_DE = push_bit 23 1"

definition CPU_DCIC_DAE :: u32 where
  "CPU_DCIC_DAE = push_bit 25 1"

section \<open>Sign and zero extension\<close>

definition sign_ext_16_32 :: "u16 \<Rightarrow> u32" where
  "sign_ext_16_32 v = scast v"

definition sign_ext_8_32 :: "u8 \<Rightarrow> u32" where
  "sign_ext_8_32 v = scast v"

definition sign_ext_32_64 :: "u32 \<Rightarrow> u64" where
  "sign_ext_32_64 v = scast v"

definition zero_ext_32_64 :: "u32 \<Rightarrow> u64" where
  "zero_ext_32_64 v = ucast v"

section \<open>Instruction fields\<close>

definition instr_op :: "u32 \<Rightarrow> u32" where
  "instr_op i = drop_bit 26 i"

definition instr_rs :: "u32 \<Rightarrow> u32" where
  "instr_rs i = drop_bit 21 i AND 0x1F"

definition instr_rt :: "u32 \<Rightarrow> u32" where
  "instr_rt i = drop_bit 16 i AND 0x1F"

definition instr_rd :: "u32 \<Rightarrow> u32" where
  "instr_rd i = drop_bit 11 i AND 0x1F"

definition instr_shamt :: "u32 \<Rightarrow> u32" where
  "instr_shamt i = drop_bit 6 i AND 0x1F"

definition instr_funct :: "u32 \<Rightarrow> u32" where
  "instr_funct i = i AND 0x3F"

definition instr_imm :: "u32 \<Rightarrow> u16" where
  "instr_imm i = ucast (i AND 0xFFFF)"

definition instr_off :: "u32 \<Rightarrow> u16" where
  "instr_off i = instr_imm i"

definition instr_target :: "u32 \<Rightarrow> u32" where
  "instr_target i = i AND 0x03FFFFFF"

section \<open>Address computation\<close>

definition get_vaddr :: "u16 \<Rightarrow> u32 \<Rightarrow> u32" where
  "get_vaddr off v = sign_ext_16_32 off + v"

definition calc_jmp_addr :: "u32 \<Rightarrow> u32 \<Rightarrow> u32" where
  "calc_jmp_addr i addr = push_bit 2 (instr_target i) OR (addr AND 0xF0000000)"

text \<open>
  The shifted immediate is an \<^verbatim>\<open>int\<close>; passing it to \<^verbatim>\<open>sign_ext_16_32\<close> converts it back to
  16 bits.
\<close>

definition calc_branch_addr :: "u32 \<Rightarrow> u32 \<Rightarrow> u32" where
  "calc_branch_addr i addr =
     (let imm = instr_imm i
      in sign_ext_16_32 (ucast (push_bit 2 (ucast imm :: u32))) + addr + 4)"

definition vaddr_to_paddr :: "u32 \<Rightarrow> u32" where
  "vaddr_to_paddr vaddr = (if vaddr = 0xFFFE0130 then vaddr else vaddr AND 0x1FFFFFFF)"

subsection \<open>Facts on fields\<close>

lemma unat_and_1F_less [simp]: "unat (w AND 0x1F :: u32) < 32"
  using unat_and_mask_less [of w 5] by (simp add: mask_eq_exp_minus_1)

lemma field_less [simp]:
  "unat (instr_rs i) < 32" "unat (instr_rt i) < 32" "unat (instr_rd i) < 32"
  "unat (instr_shamt i) < 32"
  by (simp_all add: instr_rs_def instr_rt_def instr_rd_def instr_shamt_def)

end
