(* ===== verification/Ctx_Types.thy ===== *)
theory Ctx_Types
  imports C_Format C_Memory Cpu_Defs
begin

text \<open>
  The structures of the headers under \<^verbatim>\<open>core/include/core/\<close>: what a \<^verbatim>\<open>struct psycho_ctx\<close>
  holds. Arrays of fixed length are lists with that length (an invariant, see \<open>ctx_inv\<close> in
  the theory of the context), buffers reached through a pointer are \<^typ>\<open>buffer\<close>s of the length
  the host allocated.

  The host's callback \<^verbatim>\<open>event_cb\<close> is not part of the library. The context of the model
  records the calls made to it, oldest first, in \<open>event_trace\<close>; the callback of
  \<^verbatim>\<open>app/main.c\<close>, which never writes to the context, is modelled in the theory of the
  application.
\<close>

section \<open>Bus\<close>

definition RAM_ADDR_START :: u32 where "RAM_ADDR_START = 0x00000000"
definition RAM_ADDR_END :: u32 where "RAM_ADDR_END = 0x00200000"
definition RAM_SIZE :: u32 where "RAM_SIZE = RAM_ADDR_END - RAM_ADDR_START"
definition BIOS_ADDR_START :: u32 where "BIOS_ADDR_START = 0x1FC00000"
definition BIOS_ADDR_END :: u32 where "BIOS_ADDR_END = 0x1FC7FFFF"
definition BIOS_SIZE :: u32 where "BIOS_SIZE = BIOS_ADDR_END - BIOS_ADDR_START"
definition SCRATCHPAD_ADDR_START :: u32 where "SCRATCHPAD_ADDR_START = 0x1F800000"
definition SCRATCHPAD_ADDR_END :: u32 where "SCRATCHPAD_ADDR_END = 0x1F8003FF"
definition SCRATCHPAD_SIZE :: u32 where
  "SCRATCHPAD_SIZE = SCRATCHPAD_ADDR_END - SCRATCHPAD_ADDR_START"

record psycho_bus =
  scratchpad :: buffer
  bios :: buffer
  ram :: buffer

section \<open>CPU\<close>

record load_delay =
  ld_dst :: nat
  ld_val :: u32

definition ld_zero :: load_delay where
  "ld_zero = \<lparr>ld_dst = 0, ld_val = 0\<rparr>"

record psycho_cpu =
  gpr :: "u32 list"
  cop0 :: "u32 list"
  hi :: u32
  lo :: u32
  curr_pc :: u32
  pc :: u32
  next_pc :: u32
  instr :: u32
  ld_next :: load_delay
  ld_pend :: load_delay
  next_in_branch_delay_slot :: bool
  in_branch_delay_slot :: bool

section \<open>Logging\<close>

datatype psycho_log_level =
    PSYCHO_LOG_LEVEL_OFF | PSYCHO_LOG_LEVEL_INFO | PSYCHO_LOG_LEVEL_WARN
  | PSYCHO_LOG_LEVEL_ERROR | PSYCHO_LOG_LEVEL_DEBUG | PSYCHO_LOG_LEVEL_TRACE

primrec log_level_value :: "psycho_log_level \<Rightarrow> nat" where
  "log_level_value PSYCHO_LOG_LEVEL_OFF = 0"
| "log_level_value PSYCHO_LOG_LEVEL_INFO = 1"
| "log_level_value PSYCHO_LOG_LEVEL_WARN = 2"
| "log_level_value PSYCHO_LOG_LEVEL_ERROR = 3"
| "log_level_value PSYCHO_LOG_LEVEL_DEBUG = 4"
| "log_level_value PSYCHO_LOG_LEVEL_TRACE = 5"

lemma log_level_value_inject: "log_level_value a = log_level_value b \<longleftrightarrow> a = b"
  by (cases a; cases b) simp_all

text \<open>Levels are compared as integers, so the type is ordered by the enumerators' values.\<close>

instantiation psycho_log_level :: linorder
begin

definition less_eq_psycho_log_level :: "psycho_log_level \<Rightarrow> psycho_log_level \<Rightarrow> bool" where
  "less_eq_psycho_log_level a b \<longleftrightarrow> log_level_value a \<le> log_level_value b"

definition less_psycho_log_level :: "psycho_log_level \<Rightarrow> psycho_log_level \<Rightarrow> bool" where
  "less_psycho_log_level a b \<longleftrightarrow> log_level_value a < log_level_value b"

instance
  by standard (auto simp: less_eq_psycho_log_level_def less_psycho_log_level_def
      log_level_value_inject)

end

datatype psycho_log_module_id =
    PSYCHO_LOG_MODULE_ID_CTX | PSYCHO_LOG_MODULE_ID_CPU | PSYCHO_LOG_MODULE_ID_DISASM
  | PSYCHO_LOG_MODULE_ID_BUS | PSYCHO_LOG_MODULE_ID_BIOS | PSYCHO_LOG_MODULE_ID_TTY_STDOUT

primrec log_module_index :: "psycho_log_module_id \<Rightarrow> nat" where
  "log_module_index PSYCHO_LOG_MODULE_ID_CTX = 0"
| "log_module_index PSYCHO_LOG_MODULE_ID_CPU = 1"
| "log_module_index PSYCHO_LOG_MODULE_ID_DISASM = 2"
| "log_module_index PSYCHO_LOG_MODULE_ID_BUS = 3"
| "log_module_index PSYCHO_LOG_MODULE_ID_BIOS = 4"
| "log_module_index PSYCHO_LOG_MODULE_ID_TTY_STDOUT = 5"

definition PSYCHO_LOG_MODULE_ID_NUM :: nat where "PSYCHO_LOG_MODULE_ID_NUM = 6"
definition PSYCHO_LOG_MSG_SIZE_MAX :: nat where "PSYCHO_LOG_MSG_SIZE_MAX = 512"

lemma log_module_index_less [simp]: "log_module_index m < 6"
  by (cases m) simp_all

lemma log_module_index_inject [simp]: "log_module_index a = log_module_index b \<longleftrightarrow> a = b"
  by (cases a; cases b) simp_all

record psycho_log_msg =
  msg_id :: psycho_log_module_id
  msg_level :: psycho_log_level
  msg_text :: string
  msg_len :: nat

record psycho_log =
  modules :: "psycho_log_level list"

section \<open>Disassembler and BIOS tracing\<close>

definition PSYCHO_DISASM_LEN_MAX :: nat where "PSYCHO_DISASM_LEN_MAX = 256"
definition PSYCHO_BIOS_TRACE_RESULT_SIZE :: nat where "PSYCHO_BIOS_TRACE_RESULT_SIZE = 128"
definition PSYCHO_BIOS_TTY_OUTPUT_SIZE_MAX :: nat where
  "PSYCHO_BIOS_TTY_OUTPUT_SIZE_MAX = 256"

record disasm_result =
  res_str :: string
  res_pc :: u32
  res_len :: nat

record psycho_disasm =
  result :: disasm_result
  trace_instruction :: bool

datatype psycho_bios_func_ret = PSYCHO_BIOS_FUNC_RET_NONE | PSYCHO_BIOS_FUNC_RET_U32

record psycho_bios_trace_func =
  prototype :: string
  ret :: psycho_bios_func_ret

record tty_buffer =
  tty_data :: "char list"
  tty_len :: nat

record psycho_bios_trace =
  tty_stdout :: tty_buffer
  trace_result :: "char list"
  curr_func :: "psycho_bios_trace_func option"
  waiting_for_return :: bool
  deref_ptrs :: bool
  enable_tty_output :: bool

section \<open>The context\<close>

datatype psycho_event =
    PSYCHO_EVENT_CPU_ILLEGAL
  | PSYCHO_EVENT_LOG_MESSAGE psycho_log_msg
  | PSYCHO_EVENT_TTY_MESSAGE "char list"

record psycho_ctx =
  bus :: psycho_bus
  cpu :: psycho_cpu
  disasm :: psycho_disasm
  log :: psycho_log
  bios_trace :: psycho_bios_trace
  event_trace :: "psycho_event list"

record psycho_ctx_cfg =
  ram_data :: buffer
  bios_data :: buffer

datatype psycho_return_code = PSYCHO_EXE_SIZE_BAD | PSYCHO_EXE_ID_BAD | PSYCHO_OK

primrec return_code_value :: "psycho_return_code \<Rightarrow> int" where
  "return_code_value PSYCHO_EXE_SIZE_BAD = -1"
| "return_code_value PSYCHO_EXE_ID_BAD = -2"
| "return_code_value PSYCHO_OK = 1"

definition EXE_MIN_SIZE :: nat where "EXE_MIN_SIZE = 0x800"

text \<open>A call of the host's callback.\<close>

definition event_cb :: "psycho_ctx \<Rightarrow> psycho_event \<Rightarrow> psycho_ctx" where
  "event_cb ctx ev = ctx\<lparr>event_trace := event_trace ctx @ [ev]\<rparr>"

lemma event_cb_frame [frame_simps, simp]:
  "bus (event_cb ctx ev) = bus ctx" "cpu (event_cb ctx ev) = cpu ctx"
  "disasm (event_cb ctx ev) = disasm ctx" "log (event_cb ctx ev) = log ctx"
  "bios_trace (event_cb ctx ev) = bios_trace ctx"
  "event_trace (event_cb ctx ev) = event_trace ctx @ [ev]"
  by (simp_all add: event_cb_def)

end
