(* ===== verification/Psycho_Log.thy ===== *)
theory Psycho_Log
  imports Ctx_Types
begin

text \<open>
  \<^verbatim>\<open>core/log.c\<close> and \<^verbatim>\<open>core/log.h\<close>: per-module levels and the dispatch of a message. A
  message's text is passed already formatted; its length decides whether the fixed array of
  \<^verbatim>\<open>struct psycho_log_msg\<close> can hold it.
\<close>

section \<open>Operations\<close>

primrec log_level_name :: "psycho_log_level \<Rightarrow> string option" where
  "log_level_name PSYCHO_LOG_LEVEL_OFF = None"
| "log_level_name PSYCHO_LOG_LEVEL_INFO = Some ''info''"
| "log_level_name PSYCHO_LOG_LEVEL_WARN = Some ''warn''"
| "log_level_name PSYCHO_LOG_LEVEL_ERROR = Some ''error''"
| "log_level_name PSYCHO_LOG_LEVEL_DEBUG = Some ''debug''"
| "log_level_name PSYCHO_LOG_LEVEL_TRACE = Some ''trace''"

primrec log_module_name :: "psycho_log_module_id \<Rightarrow> string" where
  "log_module_name PSYCHO_LOG_MODULE_ID_CTX = ''ctx''"
| "log_module_name PSYCHO_LOG_MODULE_ID_CPU = ''cpu''"
| "log_module_name PSYCHO_LOG_MODULE_ID_DISASM = ''disasm''"
| "log_module_name PSYCHO_LOG_MODULE_ID_BUS = ''bus''"
| "log_module_name PSYCHO_LOG_MODULE_ID_BIOS = ''bios''"
| "log_module_name PSYCHO_LOG_MODULE_ID_TTY_STDOUT = ''tty-stdout''"

primrec level_set_loop ::
  "psycho_log_level \<Rightarrow> nat \<Rightarrow> psycho_log_level list \<Rightarrow> psycho_log_level list" where
  "level_set_loop level 0 ms = ms"
| "level_set_loop level (Suc i) ms = (level_set_loop level i ms)[i := level]"

definition psycho_log_level_set_global :: "psycho_ctx \<Rightarrow> psycho_log_level \<Rightarrow> psycho_ctx" where
  "psycho_log_level_set_global ctx level =
     log_update (modules_update (level_set_loop level PSYCHO_LOG_MODULE_ID_NUM)) ctx"

definition psycho_log_module_level_set ::
  "psycho_ctx \<Rightarrow> psycho_log_module_id \<Rightarrow> psycho_log_level \<Rightarrow> psycho_ctx" where
  "psycho_log_module_level_set ctx mid level =
     log_update (modules_update (\<lambda>ms. ms[log_module_index mid := level])) ctx"

text \<open>
  \<^verbatim>\<open>sprintf\<close> writes the prefix, \<^verbatim>\<open>vsnprintf\<close> at most \<^verbatim>\<open>sizeof(msg.msg)\<close> bytes behind it,
  its NUL included; the assertion bounds the characters printed.
\<close>

definition psycho_log_message_dispatch ::
  "psycho_ctx \<Rightarrow> psycho_log_module_id \<Rightarrow> psycho_log_level \<Rightarrow> string \<Rightarrow> psycho_ctx option" where
  "psycho_log_message_dispatch ctx mid level body = do {
     lname \<leftarrow> log_level_name level;
     let prefix = ''['' @ lname @ ''/'' @ log_module_name mid @ ''] '';
     let num_chars = length body;
     if length prefix + min num_chars (PSYCHO_LOG_MSG_SIZE_MAX - 1) + 1
          \<le> PSYCHO_LOG_MSG_SIZE_MAX
        \<and> num_chars < PSYCHO_LOG_MSG_SIZE_MAX
     then Some (event_cb ctx (PSYCHO_EVENT_LOG_MESSAGE
       \<lparr>msg_id = mid, msg_level = level, msg_text = prefix @ body,
        msg_len = length prefix + num_chars\<rparr>))
     else None
   }"

definition LOG_HANDLE ::
  "psycho_log_module_id \<Rightarrow> psycho_log_level \<Rightarrow> psycho_ctx \<Rightarrow> string \<Rightarrow> psycho_ctx option" where
  "LOG_HANDLE m_log_module lvl ctx body =
     (if modules (log ctx) ! log_module_index m_log_module \<ge> lvl
      then psycho_log_message_dispatch ctx m_log_module lvl body else Some ctx)"

abbreviation LOG_INFO where
  "LOG_INFO m \<equiv> LOG_HANDLE m PSYCHO_LOG_LEVEL_INFO"
abbreviation LOG_WARN where
  "LOG_WARN m \<equiv> LOG_HANDLE m PSYCHO_LOG_LEVEL_WARN"
abbreviation LOG_ERROR where
  "LOG_ERROR m \<equiv> LOG_HANDLE m PSYCHO_LOG_LEVEL_ERROR"
abbreviation LOG_DEBUG where
  "LOG_DEBUG m \<equiv> LOG_HANDLE m PSYCHO_LOG_LEVEL_DEBUG"
abbreviation LOG_TRACE where
  "LOG_TRACE m \<equiv> LOG_HANDLE m PSYCHO_LOG_LEVEL_TRACE"

section \<open>What a message does\<close>

text \<open>
  The event of a message, and the effect of logging where it fits: an event or nothing. The
  longest prefix has 19 characters, so 492 characters of text always fit.
\<close>

definition log_text :: "psycho_log_module_id \<Rightarrow> psycho_log_level \<Rightarrow> string \<Rightarrow> string" where
  "log_text mid level body =
     (''['' @ the (log_level_name level) @ ''/'' @ log_module_name mid @ ''] '') @ body"

definition log_event ::
  "psycho_log_module_id \<Rightarrow> psycho_log_level \<Rightarrow> string \<Rightarrow> psycho_event" where
  "log_event mid level body = PSYCHO_EVENT_LOG_MESSAGE
     \<lparr>msg_id = mid, msg_level = level, msg_text = log_text mid level body,
      msg_len = length (log_text mid level body)\<rparr>"

definition log_emit ::
  "psycho_log_module_id \<Rightarrow> psycho_log_level \<Rightarrow> psycho_ctx \<Rightarrow> string \<Rightarrow> psycho_ctx" where
  "log_emit mid level ctx body =
     (if level \<le> modules (log ctx) ! log_module_index mid
      then event_cb ctx (log_event mid level body) else ctx)"

lemma log_emit_frame [frame_simps, simp]:
  "bus (log_emit m l ctx b) = bus ctx" "cpu (log_emit m l ctx b) = cpu ctx"
  "disasm (log_emit m l ctx b) = disasm ctx" "log (log_emit m l ctx b) = log ctx"
  "bios_trace (log_emit m l ctx b) = bios_trace ctx"
  by (simp_all add: log_emit_def)

lemma log_prefix_length:
  "length (log_text mid level body) \<le> 19 + length body" if "level \<noteq> PSYCHO_LOG_LEVEL_OFF"
  using that by (cases mid; cases level) (simp_all add: log_text_def)

lemma log_dispatch_iff:
  assumes "level \<noteq> PSYCHO_LOG_LEVEL_OFF"
  shows "psycho_log_message_dispatch ctx mid level body =
    (if length (log_text mid level body) < 512
     then Some (event_cb ctx (log_event mid level body)) else None)"
proof -
  obtain l where l: "log_level_name level = Some l" using assms by (cases level) auto
  show ?thesis
    by (auto simp: psycho_log_message_dispatch_def l log_event_def log_text_def
        PSYCHO_LOG_MSG_SIZE_MAX_def Let_def)
qed

lemma LOG_HANDLE_fits [simp]:
  assumes "level \<noteq> PSYCHO_LOG_LEVEL_OFF" "length body \<le> 492"
  shows "LOG_HANDLE mid level ctx body = Some (log_emit mid level ctx body)"
  using log_prefix_length [OF assms(1), of mid body] assms
  by (simp add: LOG_HANDLE_def log_emit_def log_dispatch_iff)

lemma level_set_loop_spec:
  "level_set_loop level n ms = replicate (min n (length ms)) level @ drop n ms"
proof (induction n)
  case 0
  then show ?case by simp
next
  case (Suc n)
  show ?case
  proof (cases "n < length ms")
    case True
    then have "drop n ms = ms ! n # drop (Suc n) ms" by (rule Cons_nth_drop_Suc [symmetric])
    with True Suc show ?thesis by (simp add: list_update_append replicate_append_same)
  next
    case False
    with Suc show ?thesis by (auto intro: nth_equalityI simp: nth_list_update)
  qed
qed

end
