(* ===== verification/Psycho_Bus.thy ===== *)
theory Psycho_Bus
  imports Psycho_Log
begin

text \<open>
  \<^verbatim>\<open>core/bus.c\<close>: loads and stores of physical addresses at three widths. The first part
  translates the functions, the second describes the regions uniformly (\<open>bus_rd\<close>,
  \<open>bus_wr\<close>). The contract the CPU relies on is stated in \<open>Bus_Ports\<close>.
\<close>

section \<open>Operations\<close>

abbreviation BUS where "BUS \<equiv> PSYCHO_LOG_MODULE_ID_BUS"

definition in_range :: "u32 \<Rightarrow> u32 \<Rightarrow> u32 \<Rightarrow> bool" where
  "in_range a a_min a_max \<longleftrightarrow> a_min \<le> a \<and> a \<le> a_max"

definition buf_get :: "buffer \<Rightarrow> nat \<Rightarrow> u8 option" where
  "buf_get b i = (if i < buf_size b then Some (buf_byte b i) else None)"

definition buf_set :: "buffer \<Rightarrow> nat \<Rightarrow> u8 \<Rightarrow> buffer option" where
  "buf_set b i v =
     (if i < buf_size b then Some (b\<lparr>buf_byte := (buf_byte b)(i := v)\<rparr>) else None)"

definition psycho_bus_load_word :: "psycho_ctx \<Rightarrow> u32 \<Rightarrow> (u32 \<times> psycho_ctx) option" where
  "psycho_bus_load_word ctx paddr =
     (if in_range paddr RAM_ADDR_START RAM_ADDR_END then do {
        word \<leftarrow> memcpy_from (ram (bus ctx)) (unat paddr) 4;
        Some (le_word word, ctx) }
      else if in_range paddr SCRATCHPAD_ADDR_START SCRATCHPAD_ADDR_END then do {
        word \<leftarrow> memcpy_from (scratchpad (bus ctx)) (unat (paddr AND 0x00000FFF)) 4;
        Some (le_word word, ctx) }
      else if in_range paddr BIOS_ADDR_START BIOS_ADDR_END then do {
        word \<leftarrow> memcpy_from (bios (bus ctx)) (unat (paddr AND 0x000FFFFF)) 4;
        Some (le_word word, ctx) }
      else do {
        ctx \<leftarrow> LOG_WARN BUS ctx (''Unknown word load: 0x'' @ fmt_0X 8 (unat paddr)
          @ ''; returning 0xFFFF'' @ [CHR 0x27] @ ''FFFF'');
        Some (0xFFFFFFFF, ctx) })"

definition psycho_bus_peek_word :: "psycho_ctx \<Rightarrow> u32 \<Rightarrow> (u32 \<times> psycho_ctx) option" where
  "psycho_bus_peek_word ctx paddr = psycho_bus_load_word ctx paddr"

definition psycho_bus_load_halfword :: "psycho_ctx \<Rightarrow> u32 \<Rightarrow> (u16 \<times> psycho_ctx) option" where
  "psycho_bus_load_halfword ctx paddr =
     (if in_range paddr RAM_ADDR_START RAM_ADDR_END then do {
        halfword \<leftarrow> memcpy_from (ram (bus ctx)) (unat paddr) 2;
        Some (le_word halfword, ctx) }
      else if in_range paddr SCRATCHPAD_ADDR_START SCRATCHPAD_ADDR_END then do {
        halfword \<leftarrow> memcpy_from (scratchpad (bus ctx)) (unat (paddr AND 0x00000FFF)) 2;
        Some (le_word halfword, ctx) }
      else do {
        ctx \<leftarrow> LOG_WARN BUS ctx (''Unknown halfword load: 0x'' @ fmt_0X 8 (unat paddr)
          @ ''; returning 0xFFFF'');
        Some (0xFFFF, ctx) })"

definition psycho_bus_load_byte :: "psycho_ctx \<Rightarrow> u32 \<Rightarrow> (u8 \<times> psycho_ctx) option" where
  "psycho_bus_load_byte ctx paddr =
     (if in_range paddr RAM_ADDR_START RAM_ADDR_END then do {
        b \<leftarrow> buf_get (ram (bus ctx)) (unat paddr);
        Some (b, ctx) }
      else if in_range paddr SCRATCHPAD_ADDR_START SCRATCHPAD_ADDR_END then do {
        b \<leftarrow> buf_get (scratchpad (bus ctx)) (unat (paddr AND 0x00000FFF));
        Some (b, ctx) }
      else if in_range paddr BIOS_ADDR_START BIOS_ADDR_END then do {
        b \<leftarrow> buf_get (bios (bus ctx)) (unat (paddr AND 0x000FFFFF));
        Some (b, ctx) }
      else do {
        ctx \<leftarrow> LOG_WARN BUS ctx (''Unknown byte load: 0x'' @ fmt_0X 8 (unat paddr)
          @ ''; returning 0xFF'');
        Some (0xFF, ctx) })"

definition psycho_bus_store_word :: "psycho_ctx \<Rightarrow> u32 \<Rightarrow> u32 \<Rightarrow> psycho_ctx option" where
  "psycho_bus_store_word ctx paddr word =
     (if in_range paddr RAM_ADDR_START RAM_ADDR_END then do {
        r \<leftarrow> memcpy_to (ram (bus ctx)) (unat paddr) (le_bytes 4 word);
        Some (bus_update (ram_update (\<lambda>_. r)) ctx) }
      else if in_range paddr SCRATCHPAD_ADDR_START SCRATCHPAD_ADDR_END then do {
        r \<leftarrow> memcpy_to (scratchpad (bus ctx)) (unat (paddr AND 0x00000FFF)) (le_bytes 4 word);
        Some (bus_update (scratchpad_update (\<lambda>_. r)) ctx) }
      else LOG_WARN BUS ctx (''Unknown word store: 0x'' @ fmt_0X 8 (unat paddr)
          @ '' <- 0x'' @ fmt_0X 8 (unat word) @ ''; ignoring''))"

definition psycho_bus_store_halfword :: "psycho_ctx \<Rightarrow> u32 \<Rightarrow> u16 \<Rightarrow> psycho_ctx option" where
  "psycho_bus_store_halfword ctx paddr halfword =
     (if in_range paddr RAM_ADDR_START RAM_ADDR_END then do {
        r \<leftarrow> memcpy_to (ram (bus ctx)) (unat paddr) (le_bytes 2 halfword);
        Some (bus_update (ram_update (\<lambda>_. r)) ctx) }
      else if in_range paddr SCRATCHPAD_ADDR_START SCRATCHPAD_ADDR_END then do {
        r \<leftarrow> memcpy_to (scratchpad (bus ctx)) (unat (paddr AND 0x00000FFF))
               (le_bytes 2 halfword);
        Some (bus_update (scratchpad_update (\<lambda>_. r)) ctx) }
      else LOG_WARN BUS ctx (''Unknown halfword store: 0x'' @ fmt_0X 8 (unat paddr)
          @ '' <- 0x'' @ fmt_0X 4 (unat halfword) @ ''; ignoring''))"

definition psycho_bus_store_byte :: "psycho_ctx \<Rightarrow> u32 \<Rightarrow> u8 \<Rightarrow> psycho_ctx option" where
  "psycho_bus_store_byte ctx paddr byte =
     (if in_range paddr RAM_ADDR_START RAM_ADDR_END then do {
        r \<leftarrow> buf_set (ram (bus ctx)) (unat paddr) byte;
        Some (bus_update (ram_update (\<lambda>_. r)) ctx) }
      else if in_range paddr SCRATCHPAD_ADDR_START SCRATCHPAD_ADDR_END then do {
        r \<leftarrow> buf_set (scratchpad (bus ctx)) (unat (paddr AND 0x00000FFF)) byte;
        Some (bus_update (scratchpad_update (\<lambda>_. r)) ctx) }
      else LOG_WARN BUS ctx (''Unknown byte store: 0x'' @ fmt_0X 8 (unat paddr)
          @ '' <- 0x'' @ fmt_0X 2 (unat byte) @ ''; ignoring''))"

section \<open>Regions\<close>

definition writable :: "u32 \<Rightarrow> bool" where
  "writable p \<longleftrightarrow> in_range p RAM_ADDR_START RAM_ADDR_END
     \<or> in_range p SCRATCHPAD_ADDR_START SCRATCHPAD_ADDR_END"

definition mapped :: "u32 \<Rightarrow> bool" where
  "mapped p \<longleftrightarrow> writable p \<or> in_range p BIOS_ADDR_START BIOS_ADDR_END"

definition bus_rd :: "psycho_bus \<Rightarrow> u32 \<Rightarrow> nat \<Rightarrow> u8 list option" where
  "bus_rd b p n =
     (if in_range p RAM_ADDR_START RAM_ADDR_END then memcpy_from (ram b) (unat p) n
      else if in_range p SCRATCHPAD_ADDR_START SCRATCHPAD_ADDR_END
      then memcpy_from (scratchpad b) (unat (p AND 0xFFF)) n
      else memcpy_from (bios b) (unat (p AND 0xFFFFF)) n)"

definition bus_wr :: "psycho_bus \<Rightarrow> u32 \<Rightarrow> u8 list \<Rightarrow> psycho_bus option" where
  "bus_wr b p bs =
     (if in_range p RAM_ADDR_START RAM_ADDR_END
      then map_option (\<lambda>r. b\<lparr>ram := r\<rparr>) (memcpy_to (ram b) (unat p) bs)
      else map_option (\<lambda>r. b\<lparr>scratchpad := r\<rparr>)
             (memcpy_to (scratchpad b) (unat (p AND 0xFFF)) bs))"

definition bus_sized :: "psycho_bus \<Rightarrow> bool" where
  "bus_sized b \<longleftrightarrow> buf_size (ram b) = unat RAM_SIZE \<and> buf_size (bios b) = unat BIOS_SIZE
     \<and> buf_size (scratchpad b) = unat SCRATCHPAD_SIZE"

lemmas region_consts = RAM_ADDR_START_def RAM_ADDR_END_def RAM_SIZE_def BIOS_ADDR_START_def
  BIOS_ADDR_END_def BIOS_SIZE_def SCRATCHPAD_ADDR_START_def SCRATCHPAD_ADDR_END_def
  SCRATCHPAD_SIZE_def

lemma region_disjoint:
  "in_range p RAM_ADDR_START RAM_ADDR_END \<Longrightarrow>
     \<not> in_range p SCRATCHPAD_ADDR_START SCRATCHPAD_ADDR_END \<and>
     \<not> in_range p BIOS_ADDR_START BIOS_ADDR_END"
  "in_range p SCRATCHPAD_ADDR_START SCRATCHPAD_ADDR_END \<Longrightarrow>
     \<not> in_range p BIOS_ADDR_START BIOS_ADDR_END"
  by (auto simp: in_range_def region_consts word_le_nat_alt)

lemma buf_get_memcpy: "buf_get b i = map_option hd (memcpy_from b i (Suc 0))"
  by (simp add: buf_get_def memcpy_from_def)

lemma buf_set_memcpy: "buf_set b i v = memcpy_to b i [v]"
  by (auto simp: buf_set_def memcpy_to_def fun_eq_iff intro!: arg_cong [where f = Some]
      buffer.equality)

lemma bus_wr_sizes:
  assumes "bus_wr b p bs = Some b'"
  shows "buf_size (ram b') = buf_size (ram b)" "bios b' = bios b"
    "buf_size (scratchpad b') = buf_size (scratchpad b)"
  using assms by (auto simp: bus_wr_def memcpy_to_size split: if_splits)

lemma bus_wr_sized: "bus_wr b p bs = Some b' \<Longrightarrow> bus_sized b' \<longleftrightarrow> bus_sized b"
  by (simp add: bus_sized_def bus_wr_sizes)

end
