(* ===== verification/Bus_Ports.thy ===== *)
theory Bus_Ports
  imports Psycho_Bus
begin

text \<open>
  The contracts between the bus and the CPU, stated as locales and interpreted for the three
  access widths of \<^verbatim>\<open>core/bus.c\<close>; and the abstract memory the bus implements, a partial map
  from physical addresses to bytes.
\<close>

section \<open>Address arithmetic of the regions\<close>

lemma ram_bounds:
  "in_range p RAM_ADDR_START RAM_ADDR_END \<longleftrightarrow> unat p \<le> 0x200000"
  by (simp add: in_range_def region_consts word_le_nat_alt)

lemma scratchpad_bounds:
  "in_range p SCRATCHPAD_ADDR_START SCRATCHPAD_ADDR_END \<longleftrightarrow>
     0x1F800000 \<le> unat p \<and> unat p \<le> 0x1F8003FF"
  by (simp add: in_range_def region_consts word_le_nat_alt)

lemma bios_bounds:
  "in_range p BIOS_ADDR_START BIOS_ADDR_END \<longleftrightarrow>
     0x1FC00000 \<le> unat p \<and> unat p \<le> 0x1FC7FFFF"
  by (simp add: in_range_def region_consts word_le_nat_alt)

lemmas region_bounds = ram_bounds scratchpad_bounds bios_bounds

lemma unat_and_FFF: "unat (p AND 0xFFF :: u32) = unat p mod 4096"
  using and_mask_take_bit [of p 12] unat_take_bit [of 12 p]
  by (simp add: mask_eq_exp_minus_1 take_bit_eq_mod)

lemma unat_and_FFFFF: "unat (p AND 0xFFFFF :: u32) = unat p mod 1048576"
  using and_mask_take_bit [of p 20] unat_take_bit [of 20 p]
  by (simp add: mask_eq_exp_minus_1 take_bit_eq_mod)

lemma mod_offset:
  fixes n c m :: nat
  assumes "c \<le> n" "n - c < m" "m dvd c"
  shows "n mod m = n - c"
proof -
  obtain q where "c = m * q" using assms(3) by (rule dvdE)
  then have "n = m * q + (n - c)" using assms(1) by simp
  then have "n mod m = (n - c) mod m" by (metis mod_mult_self4)
  with assms(2) show ?thesis by simp
qed

lemma scratchpad_offset:
  assumes "in_range p SCRATCHPAD_ADDR_START SCRATCHPAD_ADDR_END"
  shows "unat (p AND 0xFFF) = unat p - 0x1F800000"
  unfolding unat_and_FFF using assms by (intro mod_offset) (auto simp: scratchpad_bounds)

lemma bios_offset:
  assumes "in_range p BIOS_ADDR_START BIOS_ADDR_END"
  shows "unat (p AND 0xFFFFF) = unat p - 0x1FC00000"
  unfolding unat_and_FFFFF using assms by (intro mod_offset) (auto simp: bios_bounds)

lemma bus_sized_iff:
  "bus_sized b \<longleftrightarrow> buf_size (ram b) = 0x200000 \<and> buf_size (bios b) = 0x7FFFF
     \<and> buf_size (scratchpad b) = 0x3FF"
  by (simp add: bus_sized_def region_consts)

text \<open>When an access of \<open>n\<close> bytes leaves the object behind its region.\<close>

definition overruns :: "u32 \<Rightarrow> nat \<Rightarrow> bool" where
  "overruns p n \<longleftrightarrow>
     unat p \<le> 0x200000 \<and> 0x200000 < unat p + n
   \<or> 0x1F800000 \<le> unat p \<and> unat p \<le> 0x1F8003FF \<and> 0x1F8003FF < unat p + n
   \<or> 0x1FC00000 \<le> unat p \<and> unat p \<le> 0x1FC7FFFF \<and> 0x1FC7FFFF < unat p + n"

lemma bus_rd_None_iff:
  assumes "bus_sized b" "mapped p"
  shows "bus_rd b p n = None \<longleftrightarrow> overruns p n"
  using assms
  by (auto simp: bus_rd_def buf.rd_None_iff bus_sized_iff mapped_def writable_def
      scratchpad_offset bios_offset overruns_def region_bounds)

lemma bus_wr_None_iff:
  assumes "bus_sized b" "writable p"
  shows "bus_wr b p bs = None \<longleftrightarrow> overruns p (length bs)"
  using assms
  by (auto simp: bus_wr_def buf.wr_None_iff bus_sized_iff writable_def
      scratchpad_offset overruns_def region_bounds)

section \<open>The abstract memory\<close>

text \<open>
  \<open>mem_view\<close> is the byte the bus holds at a physical address, \<open>mem_write\<close> the update of
  consecutive addresses.
\<close>

definition mem_view :: "psycho_bus \<Rightarrow> u32 \<Rightarrow> u8 option" where
  "mem_view b p = (if mapped p then map_option hd (bus_rd b p (Suc 0)) else None)"

definition mem_write :: "(u32 \<Rightarrow> u8 option) \<Rightarrow> u32 \<Rightarrow> u8 list \<Rightarrow> (u32 \<Rightarrow> u8 option)" where
  "mem_write m p bs = (\<lambda>q. if unat p \<le> unat q \<and> unat q < unat p + length bs
                           then Some (bs ! (unat q - unat p)) else m q)"

lemma memcpy_from_1:
  "memcpy_from b i (Suc 0) = (if i < buf_size b then Some [buf_byte b i] else None)"
  by (simp add: memcpy_from_def)

lemma mem_view_eq:
  "bus_sized b \<Longrightarrow> mem_view b p =
    (if unat p < 0x200000 then Some (buf_byte (ram b) (unat p))
     else if 0x1F800000 \<le> unat p \<and> unat p < 0x1F8003FF
     then Some (buf_byte (scratchpad b) (unat p - 0x1F800000))
     else if 0x1FC00000 \<le> unat p \<and> unat p < 0x1FC7FFFF
     then Some (buf_byte (bios b) (unat p - 0x1FC00000)) else None)"
  by (auto simp: mem_view_def bus_rd_def mapped_def writable_def memcpy_from_1 bus_sized_iff
      scratchpad_offset bios_offset region_bounds)

lemma bus_wr_mem_view:
  assumes "bus_sized b" "writable p" "bus_wr b p bs = Some b'"
  shows "mem_view b' = mem_write (mem_view b) p bs"
proof
  fix q
  have sized: "bus_sized b'" using assms bus_wr_sized by blast
  show "mem_view b' q = mem_write (mem_view b) p bs q"
  proof (cases "in_range p RAM_ADDR_START RAM_ADDR_END")
    case True
    then show ?thesis
      using assms
      by (auto simp: mem_write_def mem_view_eq sized bus_wr_def memcpy_to_def bus_sized_iff
          region_bounds split: if_splits)
  next
    case False
    with assms have sp: "in_range p SCRATCHPAD_ADDR_START SCRATCHPAD_ADDR_END"
      by (simp add: writable_def)
    with False show ?thesis
      using assms scratchpad_offset [OF sp]
      by (auto simp: mem_write_def mem_view_eq sized bus_wr_def memcpy_to_def bus_sized_iff
          region_bounds split: if_splits)
  qed
qed

lemma bus_rd_mem_view:
  assumes "bus_sized b" "mapped p" "bus_rd b p n = Some bs" "i < n"
  shows "mem_view b (p + of_nat i) = Some (bs ! i)"
proof -
  have no: "\<not> overruns p n" using bus_rd_None_iff [OF assms(1,2), of n] assms(3) by simp
  have p: "unat p + n \<le> 0x1FC7FFFF \<and> (unat p \<le> 0x200000 \<longrightarrow> unat p + n \<le> 0x200000)
      \<and> (unat p \<le> 0x1F8003FF \<longrightarrow> unat p + n \<le> 0x1F8003FF)"
    using no assms(2) by (auto simp: overruns_def mapped_def writable_def region_bounds)
  then have "unat p + i < 2 ^ 32" using assms(4) by auto
  then have sum: "unat (p + of_nat i) = unat p + i"
    by (simp add: unat_word_ariths unat_of_nat)
  show ?thesis
    using assms p
    by (auto simp: mem_view_eq sum bus_rd_def memcpy_from_def bus_sized_iff mapped_def
        writable_def region_bounds scratchpad_offset bios_offset split: if_splits)
qed

section \<open>Loads\<close>

locale bus_reader =
  fixes load :: "psycho_ctx \<Rightarrow> u32 \<Rightarrow> ('v \<times> psycho_ctx) option"
    and width :: nat and val_of :: "u8 list \<Rightarrow> 'v" and default :: 'v
    and covers :: "u32 \<Rightarrow> bool"
  assumes load_mapped: "covers p \<Longrightarrow>
      load ctx p = map_option (\<lambda>bs. (val_of bs, ctx)) (bus_rd (bus ctx) p width)"
    and load_unmapped: "\<not> covers p \<Longrightarrow>
      \<exists>body. load ctx p = Some (default, log_emit BUS PSYCHO_LOG_LEVEL_WARN ctx body)"
    and covers_mapped: "covers p \<Longrightarrow> mapped p"
begin

lemma load_ctx:
  assumes "load ctx p = Some (x, ctx')"
  obtains "ctx' = ctx" | body where "ctx' = log_emit BUS PSYCHO_LOG_LEVEL_WARN ctx body"
proof (cases "covers p")
  case True
  then show ?thesis using assms that(1) load_mapped [OF True] by auto
next
  case False
  obtain body where "load ctx p = Some (default, log_emit BUS PSYCHO_LOG_LEVEL_WARN ctx body)"
    using load_unmapped [OF False] by blast
  then show ?thesis using assms that(2) by simp
qed

lemma load_frame:
  assumes "load ctx p = Some (x, ctx')"
  shows "cpu ctx' = cpu ctx" "bus ctx' = bus ctx" "disasm ctx' = disasm ctx"
    "log ctx' = log ctx" "bios_trace ctx' = bios_trace ctx"
  by (rule load_ctx [OF assms]; simp)+

lemma load_None_iff:
  assumes "bus_sized (bus ctx)"
  shows "load ctx p = None \<longleftrightarrow> covers p \<and> overruns p width"
  using assms load_mapped [of p ctx] load_unmapped [of p ctx] covers_mapped
    bus_rd_None_iff [of "bus ctx" p width]
  by (cases "covers p") auto

lemma load_default:
  assumes "\<not> covers p" "load ctx p = Some (x, ctx')"
  shows "x = default"
  using assms load_unmapped [of p ctx] by auto

lemma load_bytes:
  assumes "bus_sized (bus ctx)" "covers p" "load ctx p = Some (x, ctx')"
  obtains bs where "x = val_of bs" "length bs = width" "ctx' = ctx"
    "\<And>i. i < width \<Longrightarrow> mem_view (bus ctx) (p + of_nat i) = Some (bs ! i)"
proof -
  obtain bs where bs: "bus_rd (bus ctx) p width = Some bs" "x = val_of bs" "ctx' = ctx"
    using assms load_mapped [of p ctx] by auto
  moreover from bs(1) have "length bs = width"
    by (auto simp: bus_rd_def dest: buf.rd_length split: if_splits)
  ultimately show ?thesis
    using that bus_rd_mem_view [OF assms(1) covers_mapped [OF assms(2)] bs(1)] by blast
qed

end

section \<open>Stores\<close>

locale bus_writer =
  fixes store :: "psycho_ctx \<Rightarrow> u32 \<Rightarrow> 'v \<Rightarrow> psycho_ctx option"
    and width :: nat and bytes_of :: "'v \<Rightarrow> u8 list"
  assumes store_writable: "writable p \<Longrightarrow>
      store ctx p x = map_option (\<lambda>b. ctx\<lparr>bus := b\<rparr>) (bus_wr (bus ctx) p (bytes_of x))"
    and store_other: "\<not> writable p \<Longrightarrow>
      \<exists>body. store ctx p x = Some (log_emit BUS PSYCHO_LOG_LEVEL_WARN ctx body)"
    and bytes_width: "length (bytes_of x) = width"
begin

lemma store_ctx:
  assumes "store ctx p x = Some ctx'"
  obtains b where "writable p" "bus_wr (bus ctx) p (bytes_of x) = Some b" "ctx' = ctx\<lparr>bus := b\<rparr>"
  | body where "\<not> writable p" "ctx' = log_emit BUS PSYCHO_LOG_LEVEL_WARN ctx body"
proof (cases "writable p")
  case True
  then show ?thesis using assms that(1) store_writable [OF True, of ctx x] by auto
next
  case False
  obtain body where "store ctx p x = Some (log_emit BUS PSYCHO_LOG_LEVEL_WARN ctx body)"
    using store_other [OF False] by blast
  with False show ?thesis using assms that(2) by simp
qed

lemma store_frame:
  assumes "store ctx p x = Some ctx'"
  shows "cpu ctx' = cpu ctx" "disasm ctx' = disasm ctx" "log ctx' = log ctx"
    "bios_trace ctx' = bios_trace ctx" "bios (bus ctx') = bios (bus ctx)"
    "bus_sized (bus ctx') \<longleftrightarrow> bus_sized (bus ctx)"
  by (rule store_ctx [OF assms]; simp add: bus_wr_sizes bus_wr_sized)+

lemma store_None_iff:
  assumes "bus_sized (bus ctx)"
  shows "store ctx p x = None \<longleftrightarrow> writable p \<and> overruns p width"
  using assms store_writable [of p ctx x] store_other [of p ctx x] bytes_width [of x]
    bus_wr_None_iff [of "bus ctx" p "bytes_of x"]
  by (cases "writable p") auto

lemma store_refines:
  assumes "bus_sized (bus ctx)" "store ctx p x = Some ctx'"
  shows "mem_view (bus ctx') =
    (if writable p then mem_write (mem_view (bus ctx)) p (bytes_of x) else mem_view (bus ctx))"
  by (rule store_ctx [OF assms(2)]) (simp_all add: bus_wr_mem_view assms(1))

lemma store_ignored:
  assumes "\<not> writable p" "store ctx p x = Some ctx'"
  shows "bus ctx' = bus ctx"
  by (rule store_ctx [OF assms(2)]) (simp_all add: assms(1))

end

section \<open>Both\<close>

locale bus_port = bus_reader load width val_of default covers + bus_writer store width bytes_of
  for load :: "psycho_ctx \<Rightarrow> u32 \<Rightarrow> ('v \<times> psycho_ctx) option"
    and store width val_of bytes_of default covers +
  assumes val_of_bytes: "val_of (bytes_of x) = x"
    and writable_covers: "writable p \<Longrightarrow> covers p"
begin

lemma load_after_store:
  assumes sized: "bus_sized (bus ctx)" and w: "writable p"
    and st: "store ctx p x = Some ctx'"
  shows "load ctx' p = Some (x, ctx')"
proof -
  have c: "covers p" using w by (rule writable_covers)
  have sized': "bus_sized (bus ctx')" using store_frame(6) [OF st] sized by simp
  have "\<not> overruns p width" using store_None_iff [OF sized, of p x] st w by simp
  then obtain y c2 where l: "load ctx' p = Some (y, c2)"
    using load_None_iff [OF sized', of p] by fastforce
  from load_bytes [OF sized' c l] obtain bs where
    bs: "y = val_of bs" "length bs = width" "c2 = ctx'" and
    byte: "\<And>i. i < width \<Longrightarrow> mem_view (bus ctx') (p + of_nat i) = Some (bs ! i)" by metis
  have "bs = bytes_of x"
  proof (rule nth_equalityI)
    show "length bs = length (bytes_of x)" using bs bytes_width by simp
  next
    fix i
    assume i: "i < length bs"
    then have i': "i < width" using bs by simp
    have "unat p + i < 2 ^ 32"
      using \<open>\<not> overruns p width\<close> w i'
      by (auto simp: overruns_def writable_def region_bounds)
    then have "unat (p + of_nat i) = unat p + i" by (simp add: unat_word_ariths unat_of_nat)
    then have "mem_view (bus ctx') (p + of_nat i) = Some (bytes_of x ! i)"
      using store_refines [OF sized st] w i' by (simp add: mem_write_def bytes_width)
    with byte [OF i'] show "bs ! i = bytes_of x ! i" by simp
  qed
  with l bs show ?thesis by (simp add: val_of_bytes)
qed

end

section \<open>The three widths\<close>

lemma bus_rd_cases:
  "in_range p RAM_ADDR_START RAM_ADDR_END \<Longrightarrow> bus_rd b p n = memcpy_from (ram b) (unat p) n"
  "in_range p SCRATCHPAD_ADDR_START SCRATCHPAD_ADDR_END \<Longrightarrow>
     bus_rd b p n = memcpy_from (scratchpad b) (unat (p AND 0xFFF)) n"
  "in_range p BIOS_ADDR_START BIOS_ADDR_END \<Longrightarrow>
     bus_rd b p n = memcpy_from (bios b) (unat (p AND 0xFFFFF)) n"
  using region_disjoint [of p] by (auto simp: bus_rd_def)

lemma map_option_as_bind: "map_option f x = Option.bind x (\<lambda>y. Some (f y))"
  by (cases x) simp_all

interpretation byte_port: bus_port psycho_bus_load_byte psycho_bus_store_byte "Suc 0" hd
  "\<lambda>b. [b]" "0xFF" mapped
proof
  fix p ctx x
  show "mapped p \<Longrightarrow> psycho_bus_load_byte ctx p =
      map_option (\<lambda>bs. (hd bs, ctx)) (bus_rd (bus ctx) p (Suc 0))"
    by (auto simp: psycho_bus_load_byte_def mapped_def writable_def bus_rd_cases
        buf_get_memcpy map_option_as_bind split: Option.bind_split)
  show "\<not> mapped p \<Longrightarrow> \<exists>body. psycho_bus_load_byte ctx p =
      Some (0xFF, log_emit BUS PSYCHO_LOG_LEVEL_WARN ctx body)"
    by (auto simp: psycho_bus_load_byte_def mapped_def writable_def)
  show "writable p \<Longrightarrow> psycho_bus_store_byte ctx p x =
      map_option (\<lambda>b. ctx\<lparr>bus := b\<rparr>) (bus_wr (bus ctx) p [x])"
    by (auto simp: psycho_bus_store_byte_def writable_def bus_wr_def buf_set_memcpy
        map_option_as_bind split: Option.bind_split)
  show "\<not> writable p \<Longrightarrow> \<exists>body. psycho_bus_store_byte ctx p x =
      Some (log_emit BUS PSYCHO_LOG_LEVEL_WARN ctx body)"
    by (auto simp: psycho_bus_store_byte_def writable_def)
qed (simp_all add: mapped_def)

interpretation half_port: bus_port psycho_bus_load_halfword psycho_bus_store_halfword 2 le_word
  "le_bytes 2" "0xFFFF" writable
proof
  fix p ctx x
  show "writable p \<Longrightarrow> psycho_bus_load_halfword ctx p =
      map_option (\<lambda>bs. (le_word bs, ctx)) (bus_rd (bus ctx) p 2)"
    by (auto simp: psycho_bus_load_halfword_def writable_def bus_rd_cases map_option_as_bind)
  show "\<not> writable p \<Longrightarrow> \<exists>body. psycho_bus_load_halfword ctx p =
      Some (0xFFFF, log_emit BUS PSYCHO_LOG_LEVEL_WARN ctx body)"
    by (auto simp: psycho_bus_load_halfword_def writable_def)
  show "writable p \<Longrightarrow> psycho_bus_store_halfword ctx p x =
      map_option (\<lambda>b. ctx\<lparr>bus := b\<rparr>) (bus_wr (bus ctx) p (le_bytes 2 x))"
    by (auto simp: psycho_bus_store_halfword_def writable_def bus_wr_def
        map_option_as_bind split: Option.bind_split)
  show "\<not> writable p \<Longrightarrow> \<exists>body. psycho_bus_store_halfword ctx p x =
      Some (log_emit BUS PSYCHO_LOG_LEVEL_WARN ctx body)"
    by (auto simp: psycho_bus_store_halfword_def writable_def)
qed (simp_all add: mapped_def)

interpretation word_port: bus_port psycho_bus_load_word psycho_bus_store_word 4 le_word
  "le_bytes 4" "0xFFFFFFFF" mapped
proof
  fix p ctx x
  show "mapped p \<Longrightarrow> psycho_bus_load_word ctx p =
      map_option (\<lambda>bs. (le_word bs, ctx)) (bus_rd (bus ctx) p 4)"
    by (auto simp: psycho_bus_load_word_def mapped_def writable_def bus_rd_cases
        map_option_as_bind)
  show "\<not> mapped p \<Longrightarrow> \<exists>body. psycho_bus_load_word ctx p =
      Some (0xFFFFFFFF, log_emit BUS PSYCHO_LOG_LEVEL_WARN ctx body)"
    by (auto simp: psycho_bus_load_word_def mapped_def writable_def)
  show "writable p \<Longrightarrow> psycho_bus_store_word ctx p x =
      map_option (\<lambda>b. ctx\<lparr>bus := b\<rparr>) (bus_wr (bus ctx) p (le_bytes 4 x))"
    by (auto simp: psycho_bus_store_word_def writable_def bus_wr_def
        map_option_as_bind split: Option.bind_split)
  show "\<not> writable p \<Longrightarrow> \<exists>body. psycho_bus_store_word ctx p x =
      Some (log_emit BUS PSYCHO_LOG_LEVEL_WARN ctx body)"
    by (auto simp: psycho_bus_store_word_def writable_def)
qed (simp_all add: mapped_def)

end
