(* ===== verification/Cpu_State.thy ===== *)
theory Cpu_State
  imports Bus_Ports
begin

text \<open>
  The helpers of \<^verbatim>\<open>core/cpu.c\<close> (lines 34 to 183): illegal instructions, branches, the load
  delay slot, exceptions, data breakpoints, effective addresses, register writes, reset.
\<close>

section \<open>The macros of the interpreter\<close>

abbreviation CPU where "CPU \<equiv> PSYCHO_LOG_MODULE_ID_CPU"

abbreviation m_rs :: "psycho_ctx \<Rightarrow> nat" where "m_rs ctx \<equiv> unat (instr_rs (instr (cpu ctx)))"
abbreviation m_rt :: "psycho_ctx \<Rightarrow> nat" where "m_rt ctx \<equiv> unat (instr_rt (instr (cpu ctx)))"
abbreviation m_rd :: "psycho_ctx \<Rightarrow> nat" where "m_rd ctx \<equiv> unat (instr_rd (instr (cpu ctx)))"
abbreviation m_shamt :: "psycho_ctx \<Rightarrow> nat" where
  "m_shamt ctx \<equiv> unat (instr_shamt (instr (cpu ctx)))"
abbreviation m_imm :: "psycho_ctx \<Rightarrow> u16" where "m_imm ctx \<equiv> instr_imm (instr (cpu ctx))"
abbreviation gpr_rs :: "psycho_ctx \<Rightarrow> u32" where "gpr_rs ctx \<equiv> gpr (cpu ctx) ! m_rs ctx"
abbreviation gpr_rt :: "psycho_ctx \<Rightarrow> u32" where "gpr_rt ctx \<equiv> gpr (cpu ctx) ! m_rt ctx"
abbreviation cop0_reg :: "psycho_ctx \<Rightarrow> psycho_cpu_cop0_regs \<Rightarrow> u32" where
  "cop0_reg ctx r \<equiv> cop0 (cpu ctx) ! cop0_index r"

section \<open>Operations\<close>

definition illegal :: "psycho_ctx \<Rightarrow> psycho_ctx option" where
  "illegal ctx = do {
     ctx \<leftarrow> LOG_ERROR CPU ctx
       (''Illegal instruction trapped: 0x'' @ fmt_0X 8 (unat (instr (cpu ctx))));
     Some (event_cb ctx PSYCHO_EVENT_CPU_ILLEGAL)
   }"

definition branch_if :: "psycho_ctx \<Rightarrow> bool \<Rightarrow> psycho_ctx option" where
  "branch_if ctx cond_met = do {
     let ctx = cpu_update (\<lambda>c. c\<lparr>next_in_branch_delay_slot := True\<rparr>) ctx;
     (adjust, ctx) \<leftarrow>
       (if in_branch_delay_slot (cpu ctx) then do {
          ctx \<leftarrow> LOG_WARN CPU ctx ''Conditional branch in a branch delay slot detected'';
          Some (4 * 3, ctx) }
        else Some (0, ctx));
     Some (if cond_met
           then cpu_update (\<lambda>c. c\<lparr>next_pc := calc_branch_addr (instr c) (curr_pc c + adjust)\<rparr>) ctx
           else ctx)
   }"

definition jmp :: "psycho_ctx \<Rightarrow> u32 \<Rightarrow> psycho_ctx option" where
  "jmp ctx target = do {
     ctx \<leftarrow> (if in_branch_delay_slot (cpu ctx)
            then LOG_WARN CPU ctx ''Unconditional branch in a branch delay slot detected''
            else Some ctx);
     Some (cpu_update (\<lambda>c. c\<lparr>next_in_branch_delay_slot := True, next_pc := target\<rparr>) ctx)
   }"

definition gpr_set_delayed :: "psycho_ctx \<Rightarrow> nat \<Rightarrow> u32 \<Rightarrow> psycho_ctx option" where
  "gpr_set_delayed ctx dst x =
     (if dst = 0 then LOG_WARN CPU ctx ''Load delay rejected - destination was $zero''
      else do {
        let ctx = cpu_update (\<lambda>c. c\<lparr>ld_pend := \<lparr>ld_dst = dst, ld_val = x\<rparr>\<rparr>) ctx;
        Some (if ld_dst (ld_next (cpu ctx)) = dst
              then cpu_update (\<lambda>c. c\<lparr>ld_next := ld_zero\<rparr>) ctx else ctx) })"

definition load_delay_process :: "psycho_ctx \<Rightarrow> psycho_ctx option" where
  "load_delay_process ctx = do {
     regs \<leftarrow> array_write (gpr (cpu ctx)) (ld_dst (ld_next (cpu ctx)))
               [ld_val (ld_next (cpu ctx))];
     let ctx = cpu_update (\<lambda>c. c\<lparr>gpr := regs, ld_next := ld_zero\<rparr>) ctx;
     Some (cpu_update (\<lambda>c. c\<lparr>ld_pend := ld_next c, ld_next := ld_pend c\<rparr>) ctx)
   }"

primrec exc_name :: "cpu_exc_code \<Rightarrow> string" where
  "exc_name EXCEPTION_ADEL = ''Address error on load''"
| "exc_name EXCEPTION_ADES = ''Address error on store''"
| "exc_name EXCEPTION_SYS = ''System call''"
| "exc_name EXCEPTION_BP = ''Breakpoint''"
| "exc_name EXCEPTION_OV = ''Arithmetic overflow''"

definition raise_exception :: "psycho_ctx \<Rightarrow> cpu_exc_code \<Rightarrow> psycho_ctx option" where
  "raise_exception ctx exc = do {
     ctx \<leftarrow> LOG_WARN CPU ctx (exc_name exc @ '' exception raised'');
     let ctx = cpu_update (\<lambda>c. c\<lparr>cop0 := (cop0 c)[cop0_index CPU_COP0_EPC := curr_pc c]\<rparr>) ctx;
     let sr = cop0_reg ctx CPU_COP0_SR;
     let ctx = cpu_update (\<lambda>c. c\<lparr>cop0 := (cop0 c)[cop0_index CPU_COP0_SR :=
       (sr AND 0xFFFFFFC0) OR push_bit 2 (sr AND 0x0000000F)]\<rparr>) ctx;
     let cause = cop0_reg ctx CPU_COP0_CAUSE;
     let ctx = cpu_update (\<lambda>c. c\<lparr>cop0 := (cop0 c)[cop0_index CPU_COP0_CAUSE :=
       (cause AND NOT 0xFFFF00FF) OR push_bit 2 (exc_value exc)]\<rparr>) ctx;
     Some (cpu_update (\<lambda>c. c\<lparr>pc := 0x00000080, next_pc := 0x00000084\<rparr>) ctx)
   }"

definition dbg_data_bp_chk :: "psycho_ctx \<Rightarrow> u32 \<Rightarrow> psycho_ctx option" where
  "dbg_data_bp_chk ctx vaddr =
     (if cop0_reg ctx CPU_COP0_DCIC AND (CPU_DCIC_DE OR CPU_DCIC_DAE) = 0 then Some ctx
      else do {
        let bda = cop0_reg ctx CPU_COP0_BDA;
        let bdam = cop0_reg ctx CPU_COP0_BDAM;
        if (vaddr XOR bda) AND bdam = 0 then do {
          ctx \<leftarrow> raise_exception ctx EXCEPTION_BP;
          Some (cpu_update (\<lambda>c. c\<lparr>pc := 0x80000040, next_pc := 0x80000044\<rparr>) ctx) }
        else Some ctx })"

definition get_phys_addr :: "psycho_ctx \<Rightarrow> (u32 \<times> psycho_ctx) option" where
  "get_phys_addr ctx = do {
     let off = instr_off (instr (cpu ctx));
     let base = unat (instr_rs (instr (cpu ctx)));
     let vaddr = get_vaddr off (gpr (cpu ctx) ! base);
     ctx \<leftarrow> dbg_data_bp_chk ctx vaddr;
     let vaddr = (if vaddr \<le> 0x00FFFFFF then vaddr AND 0x000FFFFF else vaddr);
     Some (vaddr_to_paddr vaddr, ctx)
   }"

definition gpr_set :: "psycho_ctx \<Rightarrow> nat \<Rightarrow> u32 \<Rightarrow> psycho_ctx" where
  "gpr_set ctx reg x =
     (let ctx = (if ld_dst (ld_next (cpu ctx)) = reg
                 then cpu_update (\<lambda>c. c\<lparr>ld_next := ld_zero\<rparr>) ctx else ctx)
      in cpu_update (\<lambda>c. c\<lparr>gpr := (gpr c)[reg := x]\<rparr>) ctx)"

definition psycho_cpu_reset :: "psycho_ctx \<Rightarrow> psycho_ctx" where
  "psycho_cpu_reset ctx = cpu_update (\<lambda>c. c\<lparr>
     pc := RESET_PC, next_pc := RESET_PC + 4, curr_pc := RESET_PC,
     in_branch_delay_slot := False, next_in_branch_delay_slot := False,
     ld_next := ld_zero, ld_pend := ld_zero\<rparr>) ctx"

end
