(* ===== verification/Cpu_Exec.thy ===== *)
theory Cpu_Exec
  imports Cpu_State
begin

text \<open>
  The interpreter of \<^verbatim>\<open>core/cpu.c\<close>, \<^verbatim>\<open>psycho_cpu_step\<close>: one definition per case label, in
  the order of the source, the dispatch on the opcode fields, and the step itself. Signed
  right shift is arithmetic and a left shift of an \<^verbatim>\<open>int\<close> drops the bits it shifts out, as
  with the compilers the build accepts.
\<close>

section \<open>SPECIAL: shifts and jumps\<close>

definition op_SLL :: "psycho_ctx \<Rightarrow> psycho_ctx option" where
  "op_SLL ctx = Some (gpr_set ctx (m_rd ctx) (push_bit (m_shamt ctx) (gpr_rt ctx)))"

definition op_SRL :: "psycho_ctx \<Rightarrow> psycho_ctx option" where
  "op_SRL ctx = Some (gpr_set ctx (m_rd ctx) (drop_bit (m_shamt ctx) (gpr_rt ctx)))"

definition op_SRA :: "psycho_ctx \<Rightarrow> psycho_ctx option" where
  "op_SRA ctx = Some (gpr_set ctx (m_rd ctx) (signed_drop_bit (m_shamt ctx) (gpr_rt ctx)))"

definition op_SLLV :: "psycho_ctx \<Rightarrow> psycho_ctx option" where
  "op_SLLV ctx = Some (gpr_set ctx (m_rd ctx)
     (push_bit (unat (gpr_rs ctx AND 0x0000001F)) (gpr_rt ctx)))"

definition op_SRLV :: "psycho_ctx \<Rightarrow> psycho_ctx option" where
  "op_SRLV ctx = Some (gpr_set ctx (m_rd ctx)
     (drop_bit (unat (gpr_rs ctx AND 0x0000001F)) (gpr_rt ctx)))"

definition op_SRAV :: "psycho_ctx \<Rightarrow> psycho_ctx option" where
  "op_SRAV ctx = Some (gpr_set ctx (m_rd ctx)
     (signed_drop_bit (unat (gpr_rs ctx AND 0x0000001F)) (gpr_rt ctx)))"

definition op_JR :: "psycho_ctx \<Rightarrow> psycho_ctx option" where
  "op_JR ctx = jmp ctx (gpr_rs ctx)"

definition op_JALR :: "psycho_ctx \<Rightarrow> psycho_ctx option" where
  "op_JALR ctx = do {
     let target = gpr_rs ctx;
     let ctx = gpr_set ctx (m_rd ctx) (curr_pc (cpu ctx) + 4 * 2);
     if target AND 0x00000003 \<noteq> 0 then raise_exception ctx EXCEPTION_ADEL
     else jmp ctx target
   }"

definition op_SYSCALL :: "psycho_ctx \<Rightarrow> psycho_ctx option" where
  "op_SYSCALL ctx = raise_exception ctx EXCEPTION_SYS"

definition op_BREAK :: "psycho_ctx \<Rightarrow> psycho_ctx option" where
  "op_BREAK ctx = raise_exception ctx EXCEPTION_BP"

section \<open>SPECIAL: multiplication and division\<close>

definition op_MFHI :: "psycho_ctx \<Rightarrow> psycho_ctx option" where
  "op_MFHI ctx = Some (gpr_set ctx (m_rd ctx) (hi (cpu ctx)))"

definition op_MTHI :: "psycho_ctx \<Rightarrow> psycho_ctx option" where
  "op_MTHI ctx = Some (cpu_update (\<lambda>c. c\<lparr>hi := gpr_rs ctx\<rparr>) ctx)"

definition op_MFLO :: "psycho_ctx \<Rightarrow> psycho_ctx option" where
  "op_MFLO ctx = Some (gpr_set ctx (m_rd ctx) (lo (cpu ctx)))"

definition op_MTLO :: "psycho_ctx \<Rightarrow> psycho_ctx option" where
  "op_MTLO ctx = Some (cpu_update (\<lambda>c. c\<lparr>lo := gpr_rs ctx\<rparr>) ctx)"

definition op_MULT :: "psycho_ctx \<Rightarrow> psycho_ctx option" where
  "op_MULT ctx = do {
     let prod = sign_ext_32_64 (gpr_rs ctx) * sign_ext_32_64 (gpr_rt ctx);
     Some (cpu_update (\<lambda>c. c\<lparr>lo := ucast (prod AND 0xFFFFFFFF), hi := ucast (drop_bit 32 prod)\<rparr>) ctx)
   }"

definition op_MULTU :: "psycho_ctx \<Rightarrow> psycho_ctx option" where
  "op_MULTU ctx = do {
     let prod = zero_ext_32_64 (gpr_rs ctx) * zero_ext_32_64 (gpr_rt ctx);
     Some (cpu_update (\<lambda>c. c\<lparr>lo := ucast (prod AND 0xFFFFFFFF), hi := ucast (drop_bit 32 prod)\<rparr>) ctx)
   }"

definition op_DIV :: "psycho_ctx \<Rightarrow> psycho_ctx option" where
  "op_DIV ctx = do {
     let divisor = gpr_rt ctx;
     let dividend = gpr_rs ctx;
     Some (
       if divisor = 0 then
         cpu_update (\<lambda>c. c\<lparr>lo := (if dividend <s 0 then 0x00000001 else 0xFFFFFFFF),
                           hi := dividend\<rparr>) ctx
       else if dividend = 0x80000000 \<and> divisor = 0xFFFFFFFF then
         cpu_update (\<lambda>c. c\<lparr>lo := dividend, hi := 0x00000000\<rparr>) ctx
       else
         cpu_update (\<lambda>c. c\<lparr>lo := word_of_int (sint dividend sdiv sint divisor),
                           hi := word_of_int (sint dividend smod sint divisor)\<rparr>) ctx)
   }"

definition op_DIVU :: "psycho_ctx \<Rightarrow> psycho_ctx option" where
  "op_DIVU ctx = Some (
     if gpr_rt ctx = 0 then
       cpu_update (\<lambda>c. c\<lparr>lo := 0xFFFFFFFF, hi := gpr_rs ctx\<rparr>) ctx
     else
       cpu_update (\<lambda>c. c\<lparr>lo := gpr_rs ctx div gpr_rt ctx, hi := gpr_rs ctx mod gpr_rt ctx\<rparr>) ctx)"

section \<open>SPECIAL: arithmetic and logic\<close>

text \<open>The compiler's checked operations: exact signed arithmetic, wrapped, and whether it fits.\<close>

definition sadd_overflow :: "u32 \<Rightarrow> u32 \<Rightarrow> bool \<times> u32" where
  "sadd_overflow a b =
     (let r = sint a + sint b in (sint (word_of_int r :: u32) \<noteq> r, word_of_int r))"

definition ssub_overflow :: "u32 \<Rightarrow> u32 \<Rightarrow> bool \<times> u32" where
  "ssub_overflow a b =
     (let r = sint a - sint b in (sint (word_of_int r :: u32) \<noteq> r, word_of_int r))"

definition op_ADD :: "psycho_ctx \<Rightarrow> psycho_ctx option" where
  "op_ADD ctx = do {
     let (overflow, sum) = sadd_overflow (gpr_rs ctx) (gpr_rt ctx);
     if overflow then raise_exception ctx EXCEPTION_OV
     else Some (gpr_set ctx (m_rd ctx) sum)
   }"

definition op_ADDU :: "psycho_ctx \<Rightarrow> psycho_ctx option" where
  "op_ADDU ctx = Some (gpr_set ctx (m_rd ctx) (gpr_rs ctx + gpr_rt ctx))"

definition op_SUB :: "psycho_ctx \<Rightarrow> psycho_ctx option" where
  "op_SUB ctx = do {
     let (overflow, diff) = ssub_overflow (gpr_rs ctx) (gpr_rt ctx);
     if overflow then raise_exception ctx EXCEPTION_OV
     else Some (gpr_set ctx (m_rd ctx) diff)
   }"

definition op_SUBU :: "psycho_ctx \<Rightarrow> psycho_ctx option" where
  "op_SUBU ctx = Some (gpr_set ctx (m_rd ctx) (gpr_rs ctx - gpr_rt ctx))"

definition op_AND :: "psycho_ctx \<Rightarrow> psycho_ctx option" where
  "op_AND ctx = Some (gpr_set ctx (m_rd ctx) (gpr_rs ctx AND gpr_rt ctx))"

definition op_OR :: "psycho_ctx \<Rightarrow> psycho_ctx option" where
  "op_OR ctx = Some (gpr_set ctx (m_rd ctx) (gpr_rs ctx OR gpr_rt ctx))"

definition op_XOR :: "psycho_ctx \<Rightarrow> psycho_ctx option" where
  "op_XOR ctx = Some (gpr_set ctx (m_rd ctx) (gpr_rs ctx XOR gpr_rt ctx))"

definition op_NOR :: "psycho_ctx \<Rightarrow> psycho_ctx option" where
  "op_NOR ctx = Some (gpr_set ctx (m_rd ctx) (NOT (gpr_rs ctx OR gpr_rt ctx)))"

definition op_SLT :: "psycho_ctx \<Rightarrow> psycho_ctx option" where
  "op_SLT ctx = Some (gpr_set ctx (m_rd ctx) (of_bool (gpr_rs ctx <s gpr_rt ctx)))"

definition op_SLTU :: "psycho_ctx \<Rightarrow> psycho_ctx option" where
  "op_SLTU ctx = Some (gpr_set ctx (m_rd ctx) (of_bool (gpr_rs ctx < gpr_rt ctx)))"

section \<open>Branches, coprocessor 0, jumps\<close>

definition op_BCOND :: "psycho_ctx \<Rightarrow> psycho_ctx option" where
  "op_BCOND ctx = do {
     let rt = instr_rt (instr (cpu ctx));
     let link = (rt AND 0x1E = 0x10);
     let branch = ((gpr_rs ctx XOR push_bit 31 rt) <s 0);
     let ctx = (if link then gpr_set ctx (gpr_index CPU_GPR_RA) (curr_pc (cpu ctx) + 4 * 2)
                else ctx);
     branch_if ctx branch
   }"

definition op_MFC0 :: "psycho_ctx \<Rightarrow> psycho_ctx option" where
  "op_MFC0 ctx = Some (gpr_set ctx (m_rt ctx) (cop0 (cpu ctx) ! m_rd ctx))"

definition op_MTC0 :: "psycho_ctx \<Rightarrow> psycho_ctx option" where
  "op_MTC0 ctx = Some (cpu_update (\<lambda>c. c\<lparr>cop0 := (cop0 c)[m_rd ctx := gpr_rt ctx]\<rparr>) ctx)"

definition op_RFE :: "psycho_ctx \<Rightarrow> psycho_ctx option" where
  "op_RFE ctx = do {
     let sr = cop0_reg ctx CPU_COP0_SR;
     Some (cpu_update (\<lambda>c. c\<lparr>cop0 := (cop0 c)[cop0_index CPU_COP0_SR :=
       (sr AND 0xFFFFFFF0) OR drop_bit 2 (sr AND 0x0000003C)]\<rparr>) ctx)
   }"

definition op_J :: "psycho_ctx \<Rightarrow> psycho_ctx option" where
  "op_J ctx = jmp ctx (calc_jmp_addr (instr (cpu ctx)) (curr_pc (cpu ctx)))"

definition op_JAL :: "psycho_ctx \<Rightarrow> psycho_ctx option" where
  "op_JAL ctx = do {
     let ctx = gpr_set ctx (gpr_index CPU_GPR_RA) (curr_pc (cpu ctx) + 4 * 2);
     jmp ctx (calc_jmp_addr (instr (cpu ctx)) (curr_pc (cpu ctx)))
   }"

definition op_BEQ :: "psycho_ctx \<Rightarrow> psycho_ctx option" where
  "op_BEQ ctx = branch_if ctx (gpr_rs ctx = gpr_rt ctx)"

definition op_BNE :: "psycho_ctx \<Rightarrow> psycho_ctx option" where
  "op_BNE ctx = branch_if ctx (gpr_rs ctx \<noteq> gpr_rt ctx)"

definition op_BLEZ :: "psycho_ctx \<Rightarrow> psycho_ctx option" where
  "op_BLEZ ctx = branch_if ctx (gpr_rs ctx \<le>s 0)"

definition op_BGTZ :: "psycho_ctx \<Rightarrow> psycho_ctx option" where
  "op_BGTZ ctx = branch_if ctx (0 <s gpr_rs ctx)"

section \<open>Immediate arithmetic and logic\<close>

definition op_ADDI :: "psycho_ctx \<Rightarrow> psycho_ctx option" where
  "op_ADDI ctx = do {
     let (overflow, sum) = sadd_overflow (sign_ext_16_32 (m_imm ctx)) (gpr_rs ctx);
     if overflow then raise_exception ctx EXCEPTION_OV
     else Some (gpr_set ctx (m_rt ctx) sum)
   }"

definition op_ADDIU :: "psycho_ctx \<Rightarrow> psycho_ctx option" where
  "op_ADDIU ctx = Some (gpr_set ctx (m_rt ctx) (sign_ext_16_32 (m_imm ctx) + gpr_rs ctx))"

definition op_SLTI :: "psycho_ctx \<Rightarrow> psycho_ctx option" where
  "op_SLTI ctx = Some (gpr_set ctx (m_rt ctx)
     (of_bool (gpr_rs ctx <s sign_ext_16_32 (m_imm ctx))))"

definition op_SLTIU :: "psycho_ctx \<Rightarrow> psycho_ctx option" where
  "op_SLTIU ctx = Some (gpr_set ctx (m_rt ctx)
     (of_bool (gpr_rs ctx < sign_ext_16_32 (m_imm ctx))))"

definition op_ANDI :: "psycho_ctx \<Rightarrow> psycho_ctx option" where
  "op_ANDI ctx = Some (gpr_set ctx (m_rt ctx) (gpr_rs ctx AND ucast (m_imm ctx)))"

definition op_ORI :: "psycho_ctx \<Rightarrow> psycho_ctx option" where
  "op_ORI ctx = Some (gpr_set ctx (m_rt ctx) (gpr_rs ctx OR ucast (m_imm ctx)))"

definition op_XORI :: "psycho_ctx \<Rightarrow> psycho_ctx option" where
  "op_XORI ctx = Some (gpr_set ctx (m_rt ctx) (gpr_rs ctx XOR ucast (m_imm ctx)))"

definition op_LUI :: "psycho_ctx \<Rightarrow> psycho_ctx option" where
  "op_LUI ctx = Some (gpr_set ctx (m_rt ctx) (push_bit 16 (ucast (m_imm ctx))))"

section \<open>Loads\<close>

definition op_LB :: "psycho_ctx \<Rightarrow> psycho_ctx option" where
  "op_LB ctx = do {
     (m_paddr, ctx) \<leftarrow> get_phys_addr ctx;
     (b, ctx) \<leftarrow> psycho_bus_load_byte ctx m_paddr;
     let x = sign_ext_8_32 b;
     gpr_set_delayed ctx (m_rt ctx) x
   }"

definition op_LH :: "psycho_ctx \<Rightarrow> psycho_ctx option" where
  "op_LH ctx = do {
     (m_paddr, ctx) \<leftarrow> get_phys_addr ctx;
     if m_paddr AND 1 \<noteq> 0 then raise_exception ctx EXCEPTION_ADEL
     else do {
       (h, ctx) \<leftarrow> psycho_bus_load_halfword ctx m_paddr;
       let x = sign_ext_16_32 h;
       gpr_set_delayed ctx (m_rt ctx) x
     }
   }"

definition op_LWL :: "psycho_ctx \<Rightarrow> psycho_ctx option" where
  "op_LWL ctx = do {
     (m_paddr, ctx) \<leftarrow> get_phys_addr ctx;
     let aligned_paddr = m_paddr AND NOT 3;
     (word, ctx) \<leftarrow> psycho_bus_load_word ctx aligned_paddr;
     let shift = unat (m_paddr AND 3) * 8;
     let mask = drop_bit shift (0x00FFFFFF :: u32);
     let x = (if ld_dst (ld_next (cpu ctx)) = m_rt ctx then ld_val (ld_next (cpu ctx))
              else gpr_rt ctx);
     let r = (x AND mask) OR push_bit (24 - shift) word;
     gpr_set_delayed ctx (m_rt ctx) r
   }"

definition op_LW :: "psycho_ctx \<Rightarrow> psycho_ctx option" where
  "op_LW ctx = do {
     (m_paddr, ctx) \<leftarrow> get_phys_addr ctx;
     if m_paddr AND 0x3 \<noteq> 0 then raise_exception ctx EXCEPTION_ADEL
     else do {
       (x, ctx) \<leftarrow> psycho_bus_load_word ctx m_paddr;
       gpr_set_delayed ctx (m_rt ctx) x
     }
   }"

definition op_LBU :: "psycho_ctx \<Rightarrow> psycho_ctx option" where
  "op_LBU ctx = do {
     (m_paddr, ctx) \<leftarrow> get_phys_addr ctx;
     (b, ctx) \<leftarrow> psycho_bus_load_byte ctx m_paddr;
     gpr_set_delayed ctx (m_rt ctx) (ucast b)
   }"

definition op_LHU :: "psycho_ctx \<Rightarrow> psycho_ctx option" where
  "op_LHU ctx = do {
     (m_paddr, ctx) \<leftarrow> get_phys_addr ctx;
     if m_paddr AND 1 \<noteq> 0 then raise_exception ctx EXCEPTION_ADEL
     else do {
       (h, ctx) \<leftarrow> psycho_bus_load_halfword ctx m_paddr;
       gpr_set_delayed ctx (m_rt ctx) (ucast h)
     }
   }"

definition op_LWR :: "psycho_ctx \<Rightarrow> psycho_ctx option" where
  "op_LWR ctx = do {
     (m_paddr, ctx) \<leftarrow> get_phys_addr ctx;
     let aligned_paddr = m_paddr AND NOT 3;
     (word, ctx) \<leftarrow> psycho_bus_load_word ctx aligned_paddr;
     let shift = unat (m_paddr AND 3) * 8;
     let mask = push_bit (24 - shift) (0xFFFFFF00 :: u32);
     let x = (if ld_dst (ld_next (cpu ctx)) = m_rt ctx then ld_val (ld_next (cpu ctx))
              else gpr_rt ctx);
     let r = (x AND mask) OR drop_bit shift word;
     gpr_set_delayed ctx (m_rt ctx) r
   }"

section \<open>Stores\<close>

definition op_SB :: "psycho_ctx \<Rightarrow> psycho_ctx option" where
  "op_SB ctx = do {
     (m_paddr, ctx) \<leftarrow> get_phys_addr ctx;
     psycho_bus_store_byte ctx m_paddr (ucast (gpr_rt ctx AND 0xFF))
   }"

definition op_SH :: "psycho_ctx \<Rightarrow> psycho_ctx option" where
  "op_SH ctx = do {
     (m_paddr, ctx) \<leftarrow> get_phys_addr ctx;
     if m_paddr AND 1 \<noteq> 0 then raise_exception ctx EXCEPTION_ADES
     else psycho_bus_store_halfword ctx m_paddr (ucast (gpr_rt ctx AND 0xFFFF))
   }"

definition op_SWL :: "psycho_ctx \<Rightarrow> psycho_ctx option" where
  "op_SWL ctx = do {
     (m_paddr, ctx) \<leftarrow> get_phys_addr ctx;
     let aligned_paddr = m_paddr AND NOT 3;
     let shift = unat (m_paddr AND 3) * 8;
     let mask = push_bit shift (0xFFFFFF00 :: u32);
     (word, ctx) \<leftarrow> psycho_bus_load_word ctx aligned_paddr;
     let word = (word AND mask) OR drop_bit (24 - shift) (gpr_rt ctx);
     psycho_bus_store_word ctx aligned_paddr word
   }"

definition op_SW :: "psycho_ctx \<Rightarrow> psycho_ctx option" where
  "op_SW ctx =
     (if cop0_reg ctx CPU_COP0_SR AND CPU_SR_ISC \<noteq> 0 then Some ctx
      else do {
        (m_paddr, ctx) \<leftarrow> get_phys_addr ctx;
        if m_paddr AND 0x3 \<noteq> 0 then raise_exception ctx EXCEPTION_ADES
        else psycho_bus_store_word ctx m_paddr (gpr_rt ctx)
      })"

definition op_SWR :: "psycho_ctx \<Rightarrow> psycho_ctx option" where
  "op_SWR ctx = do {
     (m_paddr, ctx) \<leftarrow> get_phys_addr ctx;
     let aligned_paddr = m_paddr AND NOT 3;
     let shift = unat (m_paddr AND 3) * 8;
     let mask = drop_bit (24 - shift) (0x00FFFFFF :: u32);
     (word, ctx) \<leftarrow> psycho_bus_load_word ctx aligned_paddr;
     let word = (word AND mask) OR push_bit shift (gpr_rt ctx);
     psycho_bus_store_word ctx aligned_paddr word
   }"

section \<open>Dispatch\<close>

text \<open>
  A case of the \<^verbatim>\<open>switch\<close> ends with \<^verbatim>\<open>break\<close>, after which register 0 is cleared, or with
  \<^verbatim>\<open>return\<close>, after which it is not.
\<close>

datatype flow = Break | Return

definition break_after :: "psycho_ctx option \<Rightarrow> (flow \<times> psycho_ctx) option" where
  "break_after x = map_option (Pair Break) x"

definition return_after :: "psycho_ctx option \<Rightarrow> (flow \<times> psycho_ctx) option" where
  "return_after x = map_option (Pair Return) x"

fun special_op :: "instr_group_special \<Rightarrow> psycho_ctx \<Rightarrow> psycho_ctx option" where
  "special_op INSTR_SLL = op_SLL"
| "special_op INSTR_SRL = op_SRL"
| "special_op INSTR_SRA = op_SRA"
| "special_op INSTR_SLLV = op_SLLV"
| "special_op INSTR_SRLV = op_SRLV"
| "special_op INSTR_SRAV = op_SRAV"
| "special_op INSTR_JR = op_JR"
| "special_op INSTR_JALR = op_JALR"
| "special_op INSTR_SYSCALL = op_SYSCALL"
| "special_op INSTR_BREAK = op_BREAK"
| "special_op INSTR_MFHI = op_MFHI"
| "special_op INSTR_MTHI = op_MTHI"
| "special_op INSTR_MFLO = op_MFLO"
| "special_op INSTR_MTLO = op_MTLO"
| "special_op INSTR_MULT = op_MULT"
| "special_op INSTR_MULTU = op_MULTU"
| "special_op INSTR_DIV = op_DIV"
| "special_op INSTR_DIVU = op_DIVU"
| "special_op INSTR_ADD = op_ADD"
| "special_op INSTR_ADDU = op_ADDU"
| "special_op INSTR_SUB = op_SUB"
| "special_op INSTR_SUBU = op_SUBU"
| "special_op INSTR_AND = op_AND"
| "special_op INSTR_OR = op_OR"
| "special_op INSTR_XOR = op_XOR"
| "special_op INSTR_NOR = op_NOR"
| "special_op INSTR_SLT = op_SLT"
| "special_op INSTR_SLTU = op_SLTU"

definition exec_special :: "psycho_ctx \<Rightarrow> (flow \<times> psycho_ctx) option" where
  "exec_special ctx =
     (case enum_of special_value all_specials (instr_funct (instr (cpu ctx))) of
        Some f \<Rightarrow> break_after (special_op f ctx)
      | None \<Rightarrow> return_after (illegal ctx))"

definition exec_cop0 :: "psycho_ctx \<Rightarrow> (flow \<times> psycho_ctx) option" where
  "exec_cop0 ctx =
     (case enum_of cop_value all_cops (instr_rs (instr (cpu ctx))) of
        Some INSTR_COP_MF \<Rightarrow> break_after (op_MFC0 ctx)
      | Some INSTR_COP_MT \<Rightarrow> break_after (op_MTC0 ctx)
      | None \<Rightarrow>
         (case enum_of cop0_value all_cop0s (instr_funct (instr (cpu ctx))) of
            Some INSTR_RFE \<Rightarrow> break_after (op_RFE ctx)
          | None \<Rightarrow> return_after (illegal ctx)))"

fun group_op :: "instr_group_op \<Rightarrow> psycho_ctx \<Rightarrow> (flow \<times> psycho_ctx) option" where
  "group_op INSTR_GROUP_SPECIAL ctx = exec_special ctx"
| "group_op INSTR_GROUP_BCOND ctx = break_after (op_BCOND ctx)"
| "group_op INSTR_GROUP_COP0 ctx = exec_cop0 ctx"
| "group_op INSTR_J ctx = break_after (op_J ctx)"
| "group_op INSTR_JAL ctx = break_after (op_JAL ctx)"
| "group_op INSTR_BEQ ctx = break_after (op_BEQ ctx)"
| "group_op INSTR_BNE ctx = break_after (op_BNE ctx)"
| "group_op INSTR_BLEZ ctx = break_after (op_BLEZ ctx)"
| "group_op INSTR_BGTZ ctx = break_after (op_BGTZ ctx)"
| "group_op INSTR_ADDI ctx = break_after (op_ADDI ctx)"
| "group_op INSTR_ADDIU ctx = break_after (op_ADDIU ctx)"
| "group_op INSTR_SLTI ctx = break_after (op_SLTI ctx)"
| "group_op INSTR_SLTIU ctx = break_after (op_SLTIU ctx)"
| "group_op INSTR_ANDI ctx = break_after (op_ANDI ctx)"
| "group_op INSTR_ORI ctx = break_after (op_ORI ctx)"
| "group_op INSTR_XORI ctx = break_after (op_XORI ctx)"
| "group_op INSTR_LUI ctx = break_after (op_LUI ctx)"
| "group_op INSTR_LB ctx = break_after (op_LB ctx)"
| "group_op INSTR_LH ctx = break_after (op_LH ctx)"
| "group_op INSTR_LWL ctx = break_after (op_LWL ctx)"
| "group_op INSTR_LW ctx = break_after (op_LW ctx)"
| "group_op INSTR_LBU ctx = break_after (op_LBU ctx)"
| "group_op INSTR_LHU ctx = break_after (op_LHU ctx)"
| "group_op INSTR_LWR ctx = break_after (op_LWR ctx)"
| "group_op INSTR_SB ctx = break_after (op_SB ctx)"
| "group_op INSTR_SH ctx = break_after (op_SH ctx)"
| "group_op INSTR_SWL ctx = break_after (op_SWL ctx)"
| "group_op INSTR_SW ctx = break_after (op_SW ctx)"
| "group_op INSTR_SWR ctx = break_after (op_SWR ctx)"

definition cpu_execute :: "psycho_ctx \<Rightarrow> (flow \<times> psycho_ctx) option" where
  "cpu_execute ctx =
     (case enum_of op_value all_ops (instr_op (instr (cpu ctx))) of
        Some g \<Rightarrow> group_op g ctx
      | None \<Rightarrow> return_after (illegal ctx))"

section \<open>The step\<close>

definition cpu_fetch :: "psycho_ctx \<Rightarrow> psycho_ctx option" where
  "cpu_fetch ctx = do {
     let ctx = cpu_update (\<lambda>c. c\<lparr>in_branch_delay_slot := next_in_branch_delay_slot c,
                                 next_in_branch_delay_slot := False\<rparr>) ctx;
     ctx \<leftarrow> load_delay_process ctx;
     ctx \<leftarrow> (if pc (cpu ctx) AND 0x00000003 \<noteq> 0 then raise_exception ctx EXCEPTION_ADEL
            else Some ctx);
     let ctx = cpu_update (\<lambda>c. c\<lparr>curr_pc := pc c\<rparr>) ctx;
     let paddr = vaddr_to_paddr (curr_pc (cpu ctx));
     (w, ctx) \<leftarrow> psycho_bus_load_word ctx paddr;
     let ctx = cpu_update (\<lambda>c. c\<lparr>instr := w\<rparr>) ctx;
     Some (cpu_update (\<lambda>c. c\<lparr>pc := next_pc c, next_pc := next_pc c + 4\<rparr>) ctx)
   }"

definition psycho_cpu_step :: "psycho_ctx \<Rightarrow> psycho_ctx option" where
  "psycho_cpu_step ctx = do {
     ctx \<leftarrow> cpu_fetch ctx;
     (fl, ctx) \<leftarrow> cpu_execute ctx;
     case fl of
       Return \<Rightarrow> Some ctx
     | Break \<Rightarrow> Some (cpu_update (\<lambda>c. c\<lparr>gpr := (gpr c)[0 := 0x00000000]\<rparr>) ctx)
   }"

end
