(* ===== verification/Cpu_Frame.thy ===== *)
theory Cpu_Frame
  imports Cpu_Exec
begin

text \<open>
  What the helpers of the interpreter do, as pure functions on the CPU, and what every
  handler leaves alone: the relation \<open>keeps\<close> between the contexts before and after.
\<close>

section \<open>Effects of the helpers\<close>

definition exception_entry :: "cpu_exc_code \<Rightarrow> psycho_cpu \<Rightarrow> psycho_cpu" where
  "exception_entry exc c = c\<lparr>
     cop0 := ((cop0 c)
       [14 := curr_pc c,
        12 := (cop0 c ! 12 AND 0xFFFFFFC0) OR push_bit 2 (cop0 c ! 12 AND 0x0000000F),
        13 := (cop0 c ! 13 AND NOT 0xFFFF00FF) OR push_bit 2 (exc_value exc)]),
     pc := 0x00000080, next_pc := 0x00000084\<rparr>"

definition reg_write :: "nat \<Rightarrow> u32 \<Rightarrow> psycho_cpu \<Rightarrow> psycho_cpu" where
  "reg_write r x c = c\<lparr>
     ld_next := (if ld_dst (ld_next c) = r then ld_zero else ld_next c),
     gpr := (gpr c)[r := x]\<rparr>"

definition reg_load :: "nat \<Rightarrow> u32 \<Rightarrow> psycho_cpu \<Rightarrow> psycho_cpu" where
  "reg_load r x c = c\<lparr>
     ld_pend := \<lparr>ld_dst = r, ld_val = x\<rparr>,
     ld_next := (if ld_dst (ld_next c) = r then ld_zero else ld_next c)\<rparr>"

definition load_delay_shift :: "psycho_cpu \<Rightarrow> psycho_cpu" where
  "load_delay_shift c = c\<lparr>
     gpr := (gpr c)[ld_dst (ld_next c) := ld_val (ld_next c)],
     ld_next := ld_pend c, ld_pend := ld_zero\<rparr>"

definition branch_entry :: "bool \<Rightarrow> psycho_cpu \<Rightarrow> psycho_cpu" where
  "branch_entry taken c = c\<lparr>
     next_in_branch_delay_slot := True,
     next_pc := (if taken
       then calc_branch_addr (instr c) (curr_pc c + (if in_branch_delay_slot c then 12 else 0))
       else next_pc c)\<rparr>"

definition jump_entry :: "u32 \<Rightarrow> psycho_cpu \<Rightarrow> psycho_cpu" where
  "jump_entry target c = c\<lparr>next_in_branch_delay_slot := True, next_pc := target\<rparr>"

definition warn_if :: "bool \<Rightarrow> psycho_ctx \<Rightarrow> string \<Rightarrow> psycho_ctx" where
  "warn_if b ctx body = (if b then log_emit CPU PSYCHO_LOG_LEVEL_WARN ctx body else ctx)"

definition bp_hit :: "psycho_cpu \<Rightarrow> u32 \<Rightarrow> bool" where
  "bp_hit c vaddr \<longleftrightarrow>
     cop0 c ! 7 AND (CPU_DCIC_DE OR CPU_DCIC_DAE) \<noteq> 0 \<and> (vaddr XOR cop0 c ! 5) AND cop0 c ! 9 = 0"

definition bp_entry :: "psycho_cpu \<Rightarrow> psycho_cpu" where
  "bp_entry c = (exception_entry EXCEPTION_BP c)\<lparr>pc := 0x80000040, next_pc := 0x80000044\<rparr>"

definition data_vaddr :: "psycho_cpu \<Rightarrow> u32" where
  "data_vaddr c = get_vaddr (instr_off (instr c)) (gpr c ! unat (instr_rs (instr c)))"

definition data_paddr :: "psycho_cpu \<Rightarrow> u32" where
  "data_paddr c =
     vaddr_to_paddr (if data_vaddr c \<le> 0x00FFFFFF then data_vaddr c AND 0x000FFFFF else data_vaddr c)"

definition bp_check :: "psycho_ctx \<Rightarrow> u32 \<Rightarrow> psycho_ctx" where
  "bp_check ctx vaddr =
     (if bp_hit (cpu ctx) vaddr
      then cpu_update bp_entry
             (log_emit CPU PSYCHO_LOG_LEVEL_WARN ctx (exc_name EXCEPTION_BP @ '' exception raised''))
      else ctx)"

lemma warn_if_frame [frame_simps, simp]:
  "bus (warn_if b ctx m) = bus ctx" "cpu (warn_if b ctx m) = cpu ctx"
  "disasm (warn_if b ctx m) = disasm ctx" "log (warn_if b ctx m) = log ctx"
  "bios_trace (warn_if b ctx m) = bios_trace ctx"
  by (simp_all add: warn_if_def)

lemma exc_name_length: "length (exc_name e) \<le> 22"
  by (cases e) simp_all

lemma raise_exception_eq: "raise_exception ctx exc =
   Some (cpu_update (exception_entry exc)
     (log_emit CPU PSYCHO_LOG_LEVEL_WARN ctx (exc_name exc @ '' exception raised'')))"
  using exc_name_length [of exc]
  by (auto simp: raise_exception_def exception_entry_def Let_def
      intro!: psycho_ctx.equality psycho_cpu.equality)

lemma branch_if_eq: "branch_if ctx taken =
   Some (cpu_update (branch_entry taken) (warn_if (in_branch_delay_slot (cpu ctx))
     (cpu_update (\<lambda>c. c\<lparr>next_in_branch_delay_slot := True\<rparr>) ctx)
     ''Conditional branch in a branch delay slot detected''))"
  by (auto simp: branch_if_def branch_entry_def warn_if_def Let_def
      intro!: psycho_ctx.equality psycho_cpu.equality)

lemma jmp_eq: "jmp ctx target =
   Some (cpu_update (jump_entry target) (warn_if (in_branch_delay_slot (cpu ctx)) ctx
     ''Unconditional branch in a branch delay slot detected''))"
  by (auto simp: jmp_def jump_entry_def warn_if_def
      intro!: psycho_ctx.equality psycho_cpu.equality)

lemma gpr_set_eq: "gpr_set ctx r x = cpu_update (reg_write r x) ctx"
  by (auto simp: gpr_set_def reg_write_def Let_def
      intro!: psycho_ctx.equality psycho_cpu.equality)

lemma gpr_set_delayed_eq: "gpr_set_delayed ctx r x = Some (if r = 0
   then log_emit CPU PSYCHO_LOG_LEVEL_WARN ctx ''Load delay rejected - destination was $zero''
   else cpu_update (reg_load r x) ctx)"
  by (auto simp: gpr_set_delayed_def reg_load_def Let_def
      intro!: psycho_ctx.equality psycho_cpu.equality)

lemma load_delay_process_eq:
  "load_delay_process ctx =
    (if ld_dst (ld_next (cpu ctx)) < length (gpr (cpu ctx))
     then Some (cpu_update load_delay_shift ctx) else None)"
proof (cases "ld_dst (ld_next (cpu ctx)) < length (gpr (cpu ctx))")
  case True
  then show ?thesis
    by (auto simp: load_delay_process_def array_write_one load_delay_shift_def Let_def
        intro!: psycho_ctx.equality psycho_cpu.equality)
next
  case False
  then show ?thesis by (simp add: load_delay_process_def array_write_def)
qed

lemma dbg_data_bp_chk_eq: "dbg_data_bp_chk ctx vaddr = Some (bp_check ctx vaddr)"
  by (auto simp: dbg_data_bp_chk_def bp_check_def bp_hit_def bp_entry_def raise_exception_eq
      Let_def intro!: psycho_ctx.equality psycho_cpu.equality)

lemma get_phys_addr_eq:
  "get_phys_addr ctx = Some (data_paddr (cpu ctx), bp_check ctx (data_vaddr (cpu ctx)))"
  by (simp add: get_phys_addr_def dbg_data_bp_chk_eq data_paddr_def data_vaddr_def Let_def)

lemma illegal_eq: "illegal ctx = Some (event_cb (log_emit CPU PSYCHO_LOG_LEVEL_ERROR ctx
   (''Illegal instruction trapped: 0x'' @ fmt_0X 8 (unat (instr (cpu ctx))))) PSYCHO_EVENT_CPU_ILLEGAL)"
  by (simp add: illegal_def)

lemmas helper_eqs = raise_exception_eq branch_if_eq jmp_eq gpr_set_eq gpr_set_delayed_eq
  get_phys_addr_eq illegal_eq

lemma bp_check_frame [frame_simps, simp]:
  "bus (bp_check ctx v) = bus ctx" "disasm (bp_check ctx v) = disasm ctx"
  "log (bp_check ctx v) = log ctx" "bios_trace (bp_check ctx v) = bios_trace ctx"
  "gpr (cpu (bp_check ctx v)) = gpr (cpu ctx)" "instr (cpu (bp_check ctx v)) = instr (cpu ctx)"
  "ld_next (cpu (bp_check ctx v)) = ld_next (cpu ctx)"
  "ld_pend (cpu (bp_check ctx v)) = ld_pend (cpu ctx)"
  "curr_pc (cpu (bp_check ctx v)) = curr_pc (cpu ctx)"
  "hi (cpu (bp_check ctx v)) = hi (cpu ctx)" "lo (cpu (bp_check ctx v)) = lo (cpu ctx)"
  by (simp_all add: bp_check_def bp_entry_def exception_entry_def)

section \<open>Shape of the register files\<close>

text \<open>
  The arrays have their declared lengths, a pending load names a register, and no load of
  register 0 with a value is ever pending.
\<close>

definition load_ok :: "load_delay \<Rightarrow> bool" where
  "load_ok d \<longleftrightarrow> ld_dst d < CPU_GPR_NUM \<and> (ld_dst d = 0 \<longrightarrow> ld_val d = 0)"

definition cpu_shape :: "psycho_cpu \<Rightarrow> bool" where
  "cpu_shape c \<longleftrightarrow> length (gpr c) = CPU_GPR_NUM \<and> length (cop0 c) = CPU_COP0_NUM
     \<and> load_ok (ld_next c) \<and> load_ok (ld_pend c)"

definition keeps :: "psycho_ctx \<Rightarrow> psycho_ctx \<Rightarrow> bool" where
  "keeps s t \<longleftrightarrow> (cpu_shape (cpu s) \<longrightarrow> cpu_shape (cpu t))
     \<and> (bus_sized (bus t) \<longleftrightarrow> bus_sized (bus s)) \<and> bios (bus t) = bios (bus s)
     \<and> disasm t = disasm s \<and> log t = log s \<and> bios_trace t = bios_trace s"

lemma load_ok_zero [simp]: "load_ok ld_zero"
  by (simp add: load_ok_def ld_zero_def CPU_GPR_NUM_def)

lemma keeps_refl [simp, intro]: "keeps s s"
  by (simp add: keeps_def)

lemma keeps_trans: "keeps s t \<Longrightarrow> keeps t u \<Longrightarrow> keeps s u"
  by (simp add: keeps_def)

lemma cpu_shape_effects [intro, simp]:
  "cpu_shape c \<Longrightarrow> cpu_shape (exception_entry e c)"
  "cpu_shape c \<Longrightarrow> cpu_shape (reg_write r x c)"
  "cpu_shape c \<Longrightarrow> r < 32 \<Longrightarrow> r \<noteq> 0 \<Longrightarrow> cpu_shape (reg_load r x c)"
  "cpu_shape c \<Longrightarrow> cpu_shape (load_delay_shift c)"
  "cpu_shape c \<Longrightarrow> cpu_shape (branch_entry b c)"
  "cpu_shape c \<Longrightarrow> cpu_shape (jump_entry t c)"
  "cpu_shape c \<Longrightarrow> cpu_shape (bp_entry c)"
  by (auto simp: cpu_shape_def exception_entry_def reg_write_def reg_load_def
      load_delay_shift_def branch_entry_def jump_entry_def bp_entry_def load_ok_def ld_zero_def
      CPU_GPR_NUM_def CPU_COP0_NUM_def)

lemma cpu_shape_other_fields [simp]:
  "cpu_shape (c\<lparr>pc := x\<rparr>) = cpu_shape c" "cpu_shape (c\<lparr>next_pc := x\<rparr>) = cpu_shape c"
  "cpu_shape (c\<lparr>curr_pc := x\<rparr>) = cpu_shape c" "cpu_shape (c\<lparr>instr := x\<rparr>) = cpu_shape c"
  "cpu_shape (c\<lparr>hi := x\<rparr>) = cpu_shape c" "cpu_shape (c\<lparr>lo := x\<rparr>) = cpu_shape c"
  "cpu_shape (c\<lparr>in_branch_delay_slot := b\<rparr>) = cpu_shape c"
  "cpu_shape (c\<lparr>next_in_branch_delay_slot := b\<rparr>) = cpu_shape c"
  "cpu_shape (c\<lparr>cop0 := (cop0 c)[i := x]\<rparr>) = cpu_shape c"
  "cpu_shape (c\<lparr>gpr := (gpr c)[i := x]\<rparr>) = cpu_shape c"
  by (simp_all add: cpu_shape_def)

lemma cpu_shape_bp_check [simp]: "cpu_shape (cpu ctx) \<Longrightarrow> cpu_shape (cpu (bp_check ctx v))"
  by (auto simp: bp_check_def)

lemma keeps_cpu_update:
  assumes "cpu_shape (cpu s) \<Longrightarrow> cpu_shape (f (cpu s))"
  shows "keeps s (cpu_update f s)"
  using assms by (simp add: keeps_def)

lemma keeps_log_emit [simp]: "keeps s (log_emit m l s b)"
  and keeps_warn_if [simp]: "keeps s (warn_if w s b)"
  and keeps_event_cb [simp]: "keeps s (event_cb s e)"
  and keeps_bp_check [simp]: "keeps s (bp_check s v)"
  by (simp_all add: keeps_def)

end
