(* ===== verification/Cpu_Handlers.thy ===== *)
theory Cpu_Handlers
  imports Cpu_Frame
begin

text \<open>
  Facts about every instruction handler: what it keeps, and when it can fail. A handler that
  touches no memory always returns; one that does fails exactly when its access leaves the
  object behind the region it addresses.
\<close>

lemmas alu_op_defs [op_defs] = op_SLL_def op_SRL_def op_SRA_def op_SLLV_def op_SRLV_def
  op_SRAV_def op_JR_def op_JALR_def op_SYSCALL_def op_BREAK_def op_MFHI_def op_MTHI_def
  op_MFLO_def op_MTLO_def op_MULT_def op_MULTU_def op_DIV_def op_DIVU_def op_ADD_def
  op_ADDU_def op_SUB_def op_SUBU_def op_AND_def op_OR_def op_XOR_def op_NOR_def op_SLT_def
  op_SLTU_def

lemmas imm_op_defs [op_defs] = op_BCOND_def op_MFC0_def op_MTC0_def op_RFE_def op_J_def
  op_JAL_def op_BEQ_def op_BNE_def op_BLEZ_def op_BGTZ_def op_ADDI_def op_ADDIU_def
  op_SLTI_def op_SLTIU_def op_ANDI_def op_ORI_def op_XORI_def op_LUI_def

lemmas mem_op_defs = op_LB_def op_LH_def op_LWL_def op_LW_def op_LBU_def op_LHU_def op_LWR_def
  op_SB_def op_SH_def op_SWL_def op_SW_def op_SWR_def

section \<open>Handlers without memory access\<close>

lemma cpu_shape_hilo [simp]: "cpu_shape (c\<lparr>lo := x, hi := y\<rparr>) = cpu_shape c"
  by (simp add: cpu_shape_def)

lemma special_op_total: "special_op f ctx \<noteq> None"
  by (cases f) (simp_all add: op_defs helper_eqs Let_def split: prod.split)

lemma special_op_keeps: "special_op f ctx = Some ctx' \<Longrightarrow> keeps ctx ctx'"
  by (cases f) (auto simp: op_defs helper_eqs Let_def keeps_def split: if_splits prod.splits)

lemma imm_op_total:
  "op_BCOND ctx \<noteq> None" "op_MFC0 ctx \<noteq> None" "op_MTC0 ctx \<noteq> None" "op_RFE ctx \<noteq> None"
  "op_J ctx \<noteq> None" "op_JAL ctx \<noteq> None" "op_BEQ ctx \<noteq> None" "op_BNE ctx \<noteq> None"
  "op_BLEZ ctx \<noteq> None" "op_BGTZ ctx \<noteq> None" "op_ADDI ctx \<noteq> None" "op_ADDIU ctx \<noteq> None"
  "op_SLTI ctx \<noteq> None" "op_SLTIU ctx \<noteq> None" "op_ANDI ctx \<noteq> None" "op_ORI ctx \<noteq> None"
  "op_XORI ctx \<noteq> None" "op_LUI ctx \<noteq> None"
  by (simp_all add: imm_op_defs helper_eqs Let_def split: prod.split)

lemma imm_op_keeps:
  "op_BCOND ctx = Some ctx' \<Longrightarrow> keeps ctx ctx'" "op_MFC0 ctx = Some ctx' \<Longrightarrow> keeps ctx ctx'"
  "op_MTC0 ctx = Some ctx' \<Longrightarrow> keeps ctx ctx'" "op_RFE ctx = Some ctx' \<Longrightarrow> keeps ctx ctx'"
  "op_J ctx = Some ctx' \<Longrightarrow> keeps ctx ctx'" "op_JAL ctx = Some ctx' \<Longrightarrow> keeps ctx ctx'"
  "op_BEQ ctx = Some ctx' \<Longrightarrow> keeps ctx ctx'" "op_BNE ctx = Some ctx' \<Longrightarrow> keeps ctx ctx'"
  "op_BLEZ ctx = Some ctx' \<Longrightarrow> keeps ctx ctx'" "op_BGTZ ctx = Some ctx' \<Longrightarrow> keeps ctx ctx'"
  "op_ADDI ctx = Some ctx' \<Longrightarrow> keeps ctx ctx'" "op_ADDIU ctx = Some ctx' \<Longrightarrow> keeps ctx ctx'"
  "op_SLTI ctx = Some ctx' \<Longrightarrow> keeps ctx ctx'" "op_SLTIU ctx = Some ctx' \<Longrightarrow> keeps ctx ctx'"
  "op_ANDI ctx = Some ctx' \<Longrightarrow> keeps ctx ctx'" "op_ORI ctx = Some ctx' \<Longrightarrow> keeps ctx ctx'"
  "op_XORI ctx = Some ctx' \<Longrightarrow> keeps ctx ctx'" "op_LUI ctx = Some ctx' \<Longrightarrow> keeps ctx ctx'"
  by (auto simp: imm_op_defs helper_eqs Let_def keeps_def split: if_splits prod.splits)

section \<open>Loads and stores\<close>

lemma load_keeps:
  "psycho_bus_load_byte ctx p = Some (b, ctx') \<Longrightarrow> keeps ctx ctx'"
  "psycho_bus_load_halfword ctx p = Some (h, ctx') \<Longrightarrow> keeps ctx ctx'"
  "psycho_bus_load_word ctx p = Some (w, ctx') \<Longrightarrow> keeps ctx ctx'"
  by (simp_all add: keeps_def byte_port.load_frame half_port.load_frame word_port.load_frame)

lemma store_keeps:
  "psycho_bus_store_byte ctx p b = Some ctx' \<Longrightarrow> keeps ctx ctx'"
  "psycho_bus_store_halfword ctx p h = Some ctx' \<Longrightarrow> keeps ctx ctx'"
  "psycho_bus_store_word ctx p w = Some ctx' \<Longrightarrow> keeps ctx ctx'"
  by (simp_all add: keeps_def byte_port.store_frame half_port.store_frame word_port.store_frame)

lemma reg_load_keeps:
  "r < 32 \<Longrightarrow> gpr_set_delayed ctx r x = Some ctx' \<Longrightarrow> keeps ctx ctx'"
  by (auto simp: gpr_set_delayed_eq keeps_def split: if_splits)

lemma illegal_keeps: "illegal ctx = Some ctx' \<Longrightarrow> keeps ctx ctx'"
  by (auto simp: illegal_eq keeps_def)

lemma raise_keeps: "raise_exception ctx e = Some ctx' \<Longrightarrow> keeps ctx ctx'"
  by (auto simp: raise_exception_eq keeps_def)

lemma mem_op_keeps:
  "op_LB ctx = Some ctx' \<Longrightarrow> keeps ctx ctx'" "op_LH ctx = Some ctx' \<Longrightarrow> keeps ctx ctx'"
  "op_LWL ctx = Some ctx' \<Longrightarrow> keeps ctx ctx'" "op_LW ctx = Some ctx' \<Longrightarrow> keeps ctx ctx'"
  "op_LBU ctx = Some ctx' \<Longrightarrow> keeps ctx ctx'" "op_LHU ctx = Some ctx' \<Longrightarrow> keeps ctx ctx'"
  "op_LWR ctx = Some ctx' \<Longrightarrow> keeps ctx ctx'" "op_SB ctx = Some ctx' \<Longrightarrow> keeps ctx ctx'"
  "op_SH ctx = Some ctx' \<Longrightarrow> keeps ctx ctx'" "op_SWL ctx = Some ctx' \<Longrightarrow> keeps ctx ctx'"
  "op_SW ctx = Some ctx' \<Longrightarrow> keeps ctx ctx'" "op_SWR ctx = Some ctx' \<Longrightarrow> keeps ctx ctx'"
  by (auto simp: mem_op_defs get_phys_addr_eq Let_def elim!: bind_eq_SomeE split: if_splits
      dest!: load_keeps store_keeps reg_load_keeps [rotated] raise_keeps
      intro: keeps_trans keeps_bp_check)

lemma exec_special_keeps: "exec_special ctx = Some (fl, ctx') \<Longrightarrow> keeps ctx ctx'"
  by (auto simp: exec_special_def break_after_def return_after_def
      split: option.splits intro: special_op_keeps illegal_keeps)

lemma exec_cop0_keeps: "exec_cop0 ctx = Some (fl, ctx') \<Longrightarrow> keeps ctx ctx'"
  by (auto simp: exec_cop0_def break_after_def return_after_def
      split: option.splits instr_group_cop.splits instr_group_cop0.splits
      intro: imm_op_keeps illegal_keeps)

lemma group_op_keeps: "group_op g ctx = Some (fl, ctx') \<Longrightarrow> keeps ctx ctx'"
  by (cases g) (auto simp: break_after_def intro: exec_special_keeps exec_cop0_keeps
      imm_op_keeps mem_op_keeps)

lemma cpu_execute_keeps: "cpu_execute ctx = Some (fl, ctx') \<Longrightarrow> keeps ctx ctx'"
  by (auto simp: cpu_execute_def return_after_def split: option.splits
      intro: group_op_keeps illegal_keeps)

end
