(* ===== verification/Cpu_Step.thy ===== *)
theory Cpu_Step
  imports Cpu_Handlers
begin

text \<open>
  Towards the step as a whole: at which addresses an access leaves its buffer, when the data
  access of an instruction does, and the fetch as a function of the CPU before it.
\<close>

section \<open>Accesses that leave their buffer\<close>

text \<open>
  The case ranges of the bus include \<^verbatim>\<open>RAM_ADDR_END\<close>, one byte behind the RAM, and the
  sizes of the scratchpad and of the BIOS are one byte short of their ranges.
\<close>

definition word_hole :: "u32 \<Rightarrow> bool" where
  "word_hole p \<longleftrightarrow> p = 0x00200000 \<or> p = 0x1F8003FC \<or> p = 0x1FC7FFFC"

definition halfword_hole :: "u32 \<Rightarrow> bool" where
  "halfword_hole p \<longleftrightarrow> p = 0x00200000 \<or> p = 0x1F8003FE"

definition byte_hole :: "u32 \<Rightarrow> bool" where
  "byte_hole p \<longleftrightarrow> p = 0x00200000 \<or> p = 0x1F8003FF \<or> p = 0x1FC7FFFF"

lemma and_3_eq_0_iff: "p AND 3 = 0 \<longleftrightarrow> unat p mod 4 = 0" for p :: u32
proof -
  have "unat (p AND 3) = unat p mod 4"
    using and_mask_take_bit [of p 2] unat_take_bit [of 2 p]
    by (simp add: mask_eq_exp_minus_1 take_bit_eq_mod)
  then show ?thesis by (metis unat_eq_zero)
qed

lemma and_1_eq_0_iff: "p AND 1 = 0 \<longleftrightarrow> unat p mod 2 = 0" for p :: u32
proof -
  have "unat (p AND 1) = unat p mod 2"
    using and_mask_take_bit [of p 1] unat_take_bit [of 1 p]
    by (simp add: mask_eq_exp_minus_1 take_bit_eq_mod)
  then show ?thesis by (metis unat_eq_zero)
qed

lemma hole_unat:
  "word_hole p \<longleftrightarrow> unat p = 0x00200000 \<or> unat p = 0x1F8003FC \<or> unat p = 0x1FC7FFFC"
  "halfword_hole p \<longleftrightarrow> unat p = 0x00200000 \<or> unat p = 0x1F8003FE"
  "byte_hole p \<longleftrightarrow> unat p = 0x00200000 \<or> unat p = 0x1F8003FF \<or> unat p = 0x1FC7FFFF"
  by (simp_all add: word_hole_def halfword_hole_def byte_hole_def word_unat_eq_iff)

lemma word_overrun_iff:
  assumes "p AND 3 = 0"
  shows "mapped p \<and> overruns p 4 \<longleftrightarrow> word_hole p"
    and "writable p \<and> overruns p 4 \<longleftrightarrow> word_hole p \<and> p \<noteq> 0x1FC7FFFC"
proof -
  obtain k where k: "unat p = 4 * k" using assms by (auto simp: and_3_eq_0_iff)
  show "mapped p \<and> overruns p 4 \<longleftrightarrow> word_hole p"
    unfolding mapped_def writable_def overruns_def region_bounds hole_unat k by presburger
  have "p = 0x1FC7FFFC \<longleftrightarrow> unat p = 0x1FC7FFFC"
    by (simp add: word_unat_eq_iff)
  then show "writable p \<and> overruns p 4 \<longleftrightarrow> word_hole p \<and> p \<noteq> 0x1FC7FFFC"
    unfolding writable_def overruns_def region_bounds hole_unat k by presburger
qed

lemma halfword_overrun_iff:
  assumes "p AND 1 = 0"
  shows "writable p \<and> overruns p 2 \<longleftrightarrow> halfword_hole p"
proof -
  obtain k where k: "unat p = 2 * k" using assms by (auto simp: and_1_eq_0_iff)
  show ?thesis
    unfolding writable_def overruns_def region_bounds hole_unat k by presburger
qed

lemma byte_overrun_iff:
  "mapped p \<and> overruns p (Suc 0) \<longleftrightarrow> byte_hole p"
  "writable p \<and> overruns p (Suc 0) \<longleftrightarrow> byte_hole p \<and> p \<noteq> 0x1FC7FFFF"
proof -
  show "mapped p \<and> overruns p (Suc 0) \<longleftrightarrow> byte_hole p"
    unfolding mapped_def writable_def overruns_def region_bounds hole_unat by arith
  have "p = 0x1FC7FFFF \<longleftrightarrow> unat p = 0x1FC7FFFF"
    by (simp add: word_unat_eq_iff)
  then show "writable p \<and> overruns p (Suc 0) \<longleftrightarrow> byte_hole p \<and> p \<noteq> 0x1FC7FFFF"
    unfolding writable_def overruns_def region_bounds hole_unat by arith
qed

lemma aligned_and_3 [simp]: "(p AND - 4) AND 3 = (0 :: u32)"
  by (simp add: and.assoc)

section \<open>When a handler fails\<close>

text \<open>The data access of an instruction, and whether it leaves its buffer.\<close>

fun data_faults :: "instr_group_op \<Rightarrow> psycho_cpu \<Rightarrow> bool" where
  "data_faults INSTR_LB c = byte_hole (data_paddr c)"
| "data_faults INSTR_LBU c = byte_hole (data_paddr c)"
| "data_faults INSTR_LH c = (data_paddr c AND 1 = 0 \<and> halfword_hole (data_paddr c))"
| "data_faults INSTR_LHU c = (data_paddr c AND 1 = 0 \<and> halfword_hole (data_paddr c))"
| "data_faults INSTR_LW c = (data_paddr c AND 3 = 0 \<and> word_hole (data_paddr c))"
| "data_faults INSTR_LWL c = word_hole (data_paddr c AND NOT 3)"
| "data_faults INSTR_LWR c = word_hole (data_paddr c AND NOT 3)"
| "data_faults INSTR_SB c = (byte_hole (data_paddr c) \<and> data_paddr c \<noteq> 0x1FC7FFFF)"
| "data_faults INSTR_SH c = (data_paddr c AND 1 = 0 \<and> halfword_hole (data_paddr c))"
| "data_faults INSTR_SW c = (cop0 c ! cop0_index CPU_COP0_SR AND CPU_SR_ISC = 0
     \<and> data_paddr c AND 3 = 0 \<and> word_hole (data_paddr c) \<and> data_paddr c \<noteq> 0x1FC7FFFC)"
| "data_faults INSTR_SWL c = word_hole (data_paddr c AND NOT 3)"
| "data_faults INSTR_SWR c = word_hole (data_paddr c AND NOT 3)"
| "data_faults _ c = False"

definition exec_faults :: "psycho_cpu \<Rightarrow> bool" where
  "exec_faults c = (case enum_of op_value all_ops (instr_op (instr c)) of
     Some g \<Rightarrow> data_faults g c | None \<Rightarrow> False)"

lemma load_None_hole:
  assumes "bus_sized (bus ctx)"
  shows "psycho_bus_load_byte ctx p = None \<longleftrightarrow> byte_hole p"
    and "p AND 1 = 0 \<Longrightarrow> psycho_bus_load_halfword ctx p = None \<longleftrightarrow> halfword_hole p"
    and "p AND 3 = 0 \<Longrightarrow> psycho_bus_load_word ctx p = None \<longleftrightarrow> word_hole p"
  using assms by (simp_all add: byte_port.load_None_iff half_port.load_None_iff
      word_port.load_None_iff byte_overrun_iff halfword_overrun_iff word_overrun_iff)

lemma store_None_hole:
  assumes "bus_sized (bus ctx)"
  shows "psycho_bus_store_byte ctx p b = None \<longleftrightarrow> byte_hole p \<and> p \<noteq> 0x1FC7FFFF"
    and "p AND 1 = 0 \<Longrightarrow> psycho_bus_store_halfword ctx p h = None \<longleftrightarrow> halfword_hole p"
    and "p AND 3 = 0 \<Longrightarrow>
      psycho_bus_store_word ctx p w = None \<longleftrightarrow> word_hole p \<and> p \<noteq> 0x1FC7FFFC"
  using assms by (simp_all add: byte_port.store_None_iff half_port.store_None_iff
      word_port.store_None_iff byte_overrun_iff halfword_overrun_iff word_overrun_iff)

lemma gpr_set_delayed_total [simp]: "gpr_set_delayed ctx r x \<noteq> None"
  by (simp add: gpr_set_delayed_eq)

lemma raise_exception_total [simp]: "raise_exception ctx e \<noteq> None"
  by (simp add: raise_exception_eq)

lemma bind_phys_addr: "Option.bind (get_phys_addr ctx) f =
   f (data_paddr (cpu ctx), bp_check ctx (data_vaddr (cpu ctx)))"
  by (simp add: get_phys_addr_eq)

lemma load_sized:
  "psycho_bus_load_word ctx p = Some (w, ctx') \<Longrightarrow> bus_sized (bus ctx') \<longleftrightarrow> bus_sized (bus ctx)"
  by (simp add: word_port.load_frame)

lemma bind_load_None_iff:
  assumes "\<And>x ctx'. f (x, ctx') \<noteq> None"
  shows "Option.bind m f = None \<longleftrightarrow> m = None"
  using assms by (cases m) auto

lemma load_op_None_iff:
  assumes "bus_sized (bus ctx)"
  shows "op_LB ctx = None \<longleftrightarrow> data_faults INSTR_LB (cpu ctx)"
    and "op_LBU ctx = None \<longleftrightarrow> data_faults INSTR_LBU (cpu ctx)"
    and "op_LH ctx = None \<longleftrightarrow> data_faults INSTR_LH (cpu ctx)"
    and "op_LHU ctx = None \<longleftrightarrow> data_faults INSTR_LHU (cpu ctx)"
    and "op_LW ctx = None \<longleftrightarrow> data_faults INSTR_LW (cpu ctx)"
    and "op_LWL ctx = None \<longleftrightarrow> data_faults INSTR_LWL (cpu ctx)"
    and "op_LWR ctx = None \<longleftrightarrow> data_faults INSTR_LWR (cpu ctx)"
  using assms
  by (simp_all add: mem_op_defs bind_phys_addr bind_load_None_iff load_None_hole Let_def)

lemma store_op_None_iff:
  assumes "bus_sized (bus ctx)"
  shows "op_SB ctx = None \<longleftrightarrow> data_faults INSTR_SB (cpu ctx)"
    and "op_SH ctx = None \<longleftrightarrow> data_faults INSTR_SH (cpu ctx)"
    and "op_SW ctx = None \<longleftrightarrow> data_faults INSTR_SW (cpu ctx)"
  using assms
  by (simp_all add: mem_op_defs bind_phys_addr store_None_hole)

lemma merge_store_None_iff:
  assumes "bus_sized (bus ctx)" and "p AND 3 = 0"
  shows "Option.bind (psycho_bus_load_word ctx p)
      (\<lambda>(w, ctx'). psycho_bus_store_word ctx' p (f w ctx')) = None \<longleftrightarrow> word_hole p"
proof (cases "psycho_bus_load_word ctx p")
  case None
  then show ?thesis using load_None_hole(3) [OF assms] by simp
next
  case (Some r)
  obtain w ctx' where r: "r = (w, ctx')" by fastforce
  with Some have "bus_sized (bus ctx')" using assms(1) load_sized by blast
  moreover have "\<not> word_hole p" using load_None_hole(3) [OF assms] Some by simp
  ultimately show ?thesis using Some r store_None_hole(3) [OF _ assms(2)] by simp
qed

lemma merge_op_None_iff:
  assumes "bus_sized (bus ctx)"
  shows "op_SWL ctx = None \<longleftrightarrow> data_faults INSTR_SWL (cpu ctx)"
    and "op_SWR ctx = None \<longleftrightarrow> data_faults INSTR_SWR (cpu ctx)"
  using assms
  by (simp_all add: mem_op_defs bind_phys_addr Let_def merge_store_None_iff)

lemma break_after_None_iff [simp]: "break_after x = None \<longleftrightarrow> x = None"
  and return_after_None_iff [simp]: "return_after x = None \<longleftrightarrow> x = None"
  and illegal_total [simp]: "illegal ctx \<noteq> None"
  by (simp_all add: break_after_def return_after_def illegal_eq)

lemma exec_group_total: "exec_special ctx \<noteq> None" "exec_cop0 ctx \<noteq> None"
  using special_op_total imm_op_total illegal_total [of ctx]
  by (auto simp: exec_special_def exec_cop0_def simp del: not_None_eq
      split: option.split instr_group_cop.split instr_group_cop0.split)

lemma group_op_None_iff:
  assumes "bus_sized (bus ctx)"
  shows "group_op g ctx = None \<longleftrightarrow> data_faults g (cpu ctx)"
  using load_op_None_iff [OF assms] store_op_None_iff [OF assms] merge_op_None_iff [OF assms]
    exec_group_total [of ctx] imm_op_total [of ctx]
  by (cases g) (simp_all del: not_None_eq)

lemma cpu_execute_None_iff:
  assumes "bus_sized (bus ctx)"
  shows "cpu_execute ctx = None \<longleftrightarrow> exec_faults (cpu ctx)"
  by (simp add: cpu_execute_def exec_faults_def group_op_None_iff [OF assms] split: option.split)

section \<open>Fetching\<close>

text \<open>
  The context a fetch reads memory in, after the load delay slot has moved on and a
  misaligned program counter has been turned into an exception.
\<close>

definition enter_slot :: "psycho_cpu \<Rightarrow> psycho_cpu" where
  "enter_slot c = (load_delay_shift c)\<lparr>in_branch_delay_slot := next_in_branch_delay_slot c,
     next_in_branch_delay_slot := False\<rparr>"

definition pre_fetch :: "psycho_ctx \<Rightarrow> psycho_ctx" where
  "pre_fetch ctx =
     (let ctx' = cpu_update enter_slot ctx
      in cpu_update (\<lambda>c. c\<lparr>curr_pc := pc c\<rparr>)
        (if pc (cpu ctx) AND 3 \<noteq> 0
         then cpu_update (exception_entry EXCEPTION_ADEL)
                (log_emit CPU PSYCHO_LOG_LEVEL_WARN ctx'
                  (exc_name EXCEPTION_ADEL @ '' exception raised''))
         else ctx'))"

definition fetch_pc :: "psycho_cpu \<Rightarrow> u32" where
  "fetch_pc c = (if pc c AND 3 \<noteq> 0 then 0x00000080 else pc c)"

definition after_fetch :: "u32 \<Rightarrow> psycho_cpu \<Rightarrow> psycho_cpu" where
  "after_fetch w c = c\<lparr>instr := w, pc := next_pc c, next_pc := next_pc c + 4\<rparr>"

lemma pre_fetch_frame [frame_simps, simp]:
  "bus (pre_fetch ctx) = bus ctx" "disasm (pre_fetch ctx) = disasm ctx"
  "log (pre_fetch ctx) = log ctx" "bios_trace (pre_fetch ctx) = bios_trace ctx"
  "curr_pc (cpu (pre_fetch ctx)) = fetch_pc (cpu ctx)"
  "gpr (cpu (pre_fetch ctx)) =
     (gpr (cpu ctx))[ld_dst (ld_next (cpu ctx)) := ld_val (ld_next (cpu ctx))]"
  "ld_next (cpu (pre_fetch ctx)) = ld_pend (cpu ctx)" "ld_pend (cpu (pre_fetch ctx)) = ld_zero"
  "in_branch_delay_slot (cpu (pre_fetch ctx)) = next_in_branch_delay_slot (cpu ctx)"
  "next_in_branch_delay_slot (cpu (pre_fetch ctx)) = False"
  "hi (cpu (pre_fetch ctx)) = hi (cpu ctx)" "lo (cpu (pre_fetch ctx)) = lo (cpu ctx)"
  by (simp_all add: pre_fetch_def Let_def fetch_pc_def enter_slot_def load_delay_shift_def
      exception_entry_def)

lemma pre_fetch_aligned [simp]:
  assumes "pc (cpu ctx) AND 3 = 0"
  shows "next_pc (cpu (pre_fetch ctx)) = next_pc (cpu ctx)"
    "cop0 (cpu (pre_fetch ctx)) = cop0 (cpu ctx)" "pc (cpu (pre_fetch ctx)) = pc (cpu ctx)"
    "event_trace (pre_fetch ctx) = event_trace ctx"
  using assms by (simp_all add: pre_fetch_def Let_def enter_slot_def load_delay_shift_def)

lemma cpu_fetch_eq:
  assumes "cpu_shape (cpu ctx)"
  shows "cpu_fetch ctx =
    map_option (\<lambda>(w, ctx'). cpu_update (after_fetch w) ctx')
      (psycho_bus_load_word (pre_fetch ctx) (vaddr_to_paddr (fetch_pc (cpu ctx))))"
proof -
  let ?c0 = "cpu_update (\<lambda>c. c\<lparr>in_branch_delay_slot := next_in_branch_delay_slot c,
    next_in_branch_delay_slot := False\<rparr>) ctx"
  have "ld_dst (ld_next (cpu ?c0)) < length (gpr (cpu ?c0))"
    using assms by (simp add: cpu_shape_def load_ok_def)
  then have ld: "load_delay_process ?c0 = Some (cpu_update load_delay_shift ?c0)"
    by (simp add: load_delay_process_eq)
  have sh: "cpu_update load_delay_shift ?c0 = cpu_update enter_slot ctx"
    by (auto simp: enter_slot_def load_delay_shift_def
        intro!: psycho_ctx.equality psycho_cpu.equality)
  let ?k = "\<lambda>ctx. Option.bind (psycho_bus_load_word ctx (vaddr_to_paddr (curr_pc (cpu ctx))))
    (\<lambda>(w, ctx). Some (cpu_update (\<lambda>c. c\<lparr>pc := next_pc c, next_pc := next_pc c + 4\<rparr>)
      (cpu_update (\<lambda>c. c\<lparr>instr := w\<rparr>) ctx)))"
  have "cpu_fetch ctx = ?k (pre_fetch ctx)"
    unfolding cpu_fetch_def Let_def ld sh
    by (simp add: pre_fetch_def Let_def raise_exception_eq enter_slot_def load_delay_shift_def)
  also have "\<dots> = map_option (\<lambda>(w, ctx'). cpu_update (after_fetch w) ctx')
      (psycho_bus_load_word (pre_fetch ctx) (vaddr_to_paddr (fetch_pc (cpu ctx))))"
    by (auto simp: map_option_as_bind after_fetch_def split: Option.bind_split
        intro!: psycho_ctx.equality psycho_cpu.equality)
  finally show ?thesis .
qed

end
