(* ===== verification/Ctx_Boot.thy ===== *)
theory Ctx_Boot
  imports Cpu_State
begin

text \<open>
  Initialisation and reset of a context (\<^verbatim>\<open>core/ctx.c\<close>), the zeroed context the application
  keeps in static storage, and contexts booted from it with given memory contents.
\<close>

definition psycho_reset :: "psycho_ctx \<Rightarrow> psycho_ctx" where
  "psycho_reset ctx = psycho_cpu_reset ctx"

definition psycho_init :: "psycho_ctx \<Rightarrow> psycho_ctx_cfg \<Rightarrow> psycho_ctx" where
  "psycho_init ctx cfg = psycho_reset
     (bus_update (\<lambda>b. b\<lparr>bios := bios_data cfg, ram := ram_data cfg\<rparr>) ctx)"

definition psycho_tty_stdout_enable :: "psycho_ctx \<Rightarrow> bool \<Rightarrow> psycho_ctx" where
  "psycho_tty_stdout_enable ctx enable =
     bios_trace_update (\<lambda>t. t\<lparr>enable_tty_output := enable\<rparr>) ctx"

section \<open>Static storage\<close>

definition zero_buffer :: "nat \<Rightarrow> buffer" where
  "zero_buffer n = \<lparr>buf_size = n, buf_byte = (\<lambda>_. 0)\<rparr>"

definition zero_tty :: tty_buffer where
  "zero_tty = \<lparr>tty_data = replicate PSYCHO_BIOS_TTY_OUTPUT_SIZE_MAX NUL, tty_len = 0\<rparr>"

definition zero_cpu :: psycho_cpu where
  "zero_cpu = \<lparr>gpr = replicate CPU_GPR_NUM 0, cop0 = replicate CPU_COP0_NUM 0, hi = 0, lo = 0,
     curr_pc = 0, pc = 0, next_pc = 0, instr = 0, ld_next = ld_zero, ld_pend = ld_zero,
     next_in_branch_delay_slot = False, in_branch_delay_slot = False\<rparr>"

text \<open>A null pointer is a buffer of no bytes: every access through it is undefined.\<close>

definition zero_ctx :: psycho_ctx where
  "zero_ctx = \<lparr>
     bus = \<lparr>scratchpad = zero_buffer (unat SCRATCHPAD_SIZE), bios = zero_buffer 0,
            ram = zero_buffer 0\<rparr>,
     cpu = zero_cpu,
     disasm = \<lparr>result = \<lparr>res_str = [], res_pc = 0, res_len = 0\<rparr>, trace_instruction = False\<rparr>,
     log = \<lparr>modules = replicate PSYCHO_LOG_MODULE_ID_NUM PSYCHO_LOG_LEVEL_OFF\<rparr>,
     bios_trace = \<lparr>tty_stdout = zero_tty,
       trace_result = replicate PSYCHO_BIOS_TRACE_RESULT_SIZE NUL, curr_func = None,
       waiting_for_return = False, deref_ptrs = False, enable_tty_output = False\<rparr>,
     event_trace = []\<rparr>"

section \<open>Booted contexts\<close>

text \<open>
  The context of the application after \<^verbatim>\<open>psycho_init\<close>, with chosen RAM contents; the concrete
  inputs of the examples are built from it.
\<close>

definition boot_ctx :: "(nat \<Rightarrow> u8) \<Rightarrow> psycho_ctx" where
  "boot_ctx bytes = psycho_init zero_ctx
     \<lparr>ram_data = \<lparr>buf_size = unat RAM_SIZE, buf_byte = bytes\<rparr>,
      bios_data = zero_buffer (unat BIOS_SIZE)\<rparr>"

text \<open>A RAM that holds a list of words from address 0 and zeroes behind them.\<close>

definition ram_words :: "u32 list \<Rightarrow> nat \<Rightarrow> u8" where
  "ram_words ws i =
     (if i < 4 * length ws then ucast (drop_bit (8 * (i mod 4)) (ws ! (i div 4))) else 0)"

text \<open>A context about to execute a program at physical address 0 with given registers.\<close>

definition program_ctx :: "u32 list \<Rightarrow> u32 list \<Rightarrow> psycho_ctx" where
  "program_ctx ws regs = cpu_update (\<lambda>c. c\<lparr>pc := 0, next_pc := 4, gpr := regs\<rparr>)
     (boot_ctx (ram_words ws))"

lemma boot_ctx_simps [simp]:
  "cpu (boot_ctx f) = zero_cpu\<lparr>pc := RESET_PC, next_pc := RESET_PC + 4, curr_pc := RESET_PC\<rparr>"
  "ram (bus (boot_ctx f)) = \<lparr>buf_size = 0x200000, buf_byte = f\<rparr>"
  "bios (bus (boot_ctx f)) = zero_buffer 0x7FFFF"
  "scratchpad (bus (boot_ctx f)) = zero_buffer 0x3FF"
  "disasm (boot_ctx f) = disasm zero_ctx" "log (boot_ctx f) = log zero_ctx"
  "bios_trace (boot_ctx f) = bios_trace zero_ctx" "event_trace (boot_ctx f) = []"
  by (simp_all add: boot_ctx_def psycho_init_def psycho_reset_def psycho_cpu_reset_def
      zero_ctx_def zero_cpu_def region_consts)

lemma program_ctx_simps [simp]:
  "cpu (program_ctx ws regs) =
     zero_cpu\<lparr>pc := 0, next_pc := 4, curr_pc := RESET_PC, gpr := regs\<rparr>"
  "ram (bus (program_ctx ws regs)) = \<lparr>buf_size = 0x200000, buf_byte = ram_words ws\<rparr>"
  "bios (bus (program_ctx ws regs)) = zero_buffer 0x7FFFF"
  "scratchpad (bus (program_ctx ws regs)) = zero_buffer 0x3FF"
  "disasm (program_ctx ws regs) = disasm zero_ctx" "log (program_ctx ws regs) = log zero_ctx"
  "bios_trace (program_ctx ws regs) = bios_trace zero_ctx"
  "event_trace (program_ctx ws regs) = []"
  by (simp_all add: program_ctx_def zero_cpu_def)

lemma booted_sized [simp]:
  "bus_sized (bus (boot_ctx f))" "bus_sized (bus (program_ctx ws regs))"
  by (simp_all add: bus_sized_iff zero_buffer_def)

lemma ram_word_value:
  assumes "k < length ws"
  shows "le_word (map (\<lambda>i. ram_words ws (4 * k + i)) [0..<4]) = ws ! k"
proof -
  have "map (\<lambda>i. ram_words ws (4 * k + i)) [0..<4] = le_bytes 4 (ws ! k)"
    using assms by (auto simp: ram_words_def le_bytes_def)
  then show ?thesis by simp
qed

lemma load_word_program:
  assumes "ram (bus ctx) = \<lparr>buf_size = 0x200000, buf_byte = ram_words ws\<rparr>"
    and "k < length ws" "4 * k + 4 \<le> 0x200000" "unat p = 4 * k"
  shows "psycho_bus_load_word ctx p = Some (ws ! k, ctx)"
  using assms ram_word_value [OF assms(2)]
  by (simp add: psycho_bus_load_word_def ram_bounds memcpy_from_def)

text \<open>A context in which an instruction has just been fetched.\<close>

definition instr_ctx :: "u32 \<Rightarrow> u32 list \<Rightarrow> psycho_ctx" where
  "instr_ctx i regs = cpu_update (\<lambda>c. c\<lparr>instr := i\<rparr>) (program_ctx [] regs)"

lemma instr_ctx_simps [simp]:
  "cpu (instr_ctx i regs) =
     zero_cpu\<lparr>pc := 0, next_pc := 4, curr_pc := RESET_PC, gpr := regs, instr := i\<rparr>"
  "bus (instr_ctx i regs) = bus (program_ctx [] regs)"
  "disasm (instr_ctx i regs) = disasm zero_ctx" "log (instr_ctx i regs) = log zero_ctx"
  "bios_trace (instr_ctx i regs) = bios_trace zero_ctx" "event_trace (instr_ctx i regs) = []"
  by (simp_all add: instr_ctx_def)

lemma zero_cpu_fields [simp]:
  "gpr zero_cpu = replicate 32 0" "cop0 zero_cpu = replicate 32 0" "hi zero_cpu = 0"
  "lo zero_cpu = 0" "ld_next zero_cpu = ld_zero" "ld_pend zero_cpu = ld_zero"
  "curr_pc zero_cpu = 0" "pc zero_cpu = 0" "next_pc zero_cpu = 0" "instr zero_cpu = 0"
  "next_in_branch_delay_slot zero_cpu = False" "in_branch_delay_slot zero_cpu = False"
  by (simp_all add: zero_cpu_def CPU_GPR_NUM_def CPU_COP0_NUM_def)

lemma ld_zero_fields [simp]: "ld_dst ld_zero = 0" "ld_val ld_zero = 0"
  by (simp_all add: ld_zero_def)

lemma zero_ctx_settings [simp]:
  "modules (log zero_ctx) = replicate 6 PSYCHO_LOG_LEVEL_OFF"
  "trace_instruction (disasm zero_ctx) = False"
  "enable_tty_output (bios_trace zero_ctx) = False" "curr_func (bios_trace zero_ctx) = None"
  "waiting_for_return (bios_trace zero_ctx) = False"
  "tty_stdout (bios_trace zero_ctx) = zero_tty"
  by (simp_all add: zero_ctx_def PSYCHO_LOG_MODULE_ID_NUM_def)

end
