(* ===== verification/Cpu_Invariant.thy ===== *)
theory Cpu_Invariant
  imports Cpu_Step Ctx_Boot
begin

text \<open>
  The invariant of the CPU with its bus, the exact condition under which a step leaves a
  buffer, and runs of many steps.
\<close>

section \<open>The invariant\<close>

definition cpu_inv :: "psycho_ctx \<Rightarrow> bool" where
  "cpu_inv ctx \<longleftrightarrow> cpu_shape (cpu ctx) \<and> gpr (cpu ctx) ! gpr_index CPU_GPR_ZERO = 0
     \<and> bus_sized (bus ctx)"

lemma vaddr_to_paddr_and_3: "vaddr_to_paddr a AND 3 = a AND 3"
  by (simp add: vaddr_to_paddr_def and.assoc)

lemma fetch_pc_aligned: "vaddr_to_paddr (fetch_pc c) AND 3 = 0"
  by (simp add: vaddr_to_paddr_and_3 fetch_pc_def)

lemma cpu_shape_enter_slot: "cpu_shape c \<Longrightarrow> cpu_shape (enter_slot c)"
  by (simp add: enter_slot_def)

lemma pre_fetch_keeps: "keeps ctx (pre_fetch ctx)"
proof -
  have "cpu_shape (cpu ctx) \<Longrightarrow> cpu_shape (cpu (pre_fetch ctx))"
    by (simp add: pre_fetch_def Let_def cpu_shape_enter_slot)
  then show ?thesis by (simp add: keeps_def)
qed

lemma cpu_fetch_Some:
  assumes "cpu_shape (cpu ctx)" "cpu_fetch ctx = Some ctx'"
  obtains w ctx1 where
    "psycho_bus_load_word (pre_fetch ctx) (vaddr_to_paddr (fetch_pc (cpu ctx))) = Some (w, ctx1)"
    "ctx' = cpu_update (after_fetch w) ctx1" "cpu ctx1 = cpu (pre_fetch ctx)"
    "bus ctx1 = bus ctx"
  using assms cpu_fetch_eq [OF assms(1)] word_port.load_frame(1,2) by fastforce

lemma cpu_fetch_keeps:
  assumes "cpu_shape (cpu ctx)" "cpu_fetch ctx = Some ctx'"
  shows "keeps ctx ctx'"
proof -
  obtain w ctx1 where
    ld: "psycho_bus_load_word (pre_fetch ctx) (vaddr_to_paddr (fetch_pc (cpu ctx))) = Some (w, ctx1)"
    and ctx': "ctx' = cpu_update (after_fetch w) ctx1"
    using cpu_fetch_Some [OF assms] by blast
  have "keeps ctx ctx1" using pre_fetch_keeps load_keeps(3) [OF ld] by (rule keeps_trans)
  moreover have "keeps ctx1 ctx'"
    unfolding ctx' by (rule keeps_cpu_update) (simp add: after_fetch_def cpu_shape_def)
  ultimately show ?thesis by (rule keeps_trans)
qed

lemma cpu_fetch_None_iff:
  assumes "cpu_shape (cpu ctx)" "bus_sized (bus ctx)"
  shows "cpu_fetch ctx = None \<longleftrightarrow> word_hole (vaddr_to_paddr (fetch_pc (cpu ctx)))"
  using assms(2) fetch_pc_aligned [of "cpu ctx"]
  by (simp add: cpu_fetch_eq [OF assms(1)] load_None_hole(3))

text \<open>Only an illegal instruction takes the early return.\<close>

lemma execute_Return:
  "cpu_execute ctx = Some (Return, ctx') \<Longrightarrow> illegal ctx = Some ctx'"
proof -
  have g: "group_op g ctx = Some (Return, ctx') \<Longrightarrow> illegal ctx = Some ctx'" for g
    by (cases g) (auto simp: break_after_def return_after_def exec_special_def exec_cop0_def
        split: option.splits instr_group_cop.splits instr_group_cop0.splits)
  show "cpu_execute ctx = Some (Return, ctx') \<Longrightarrow> illegal ctx = Some ctx'"
    using g by (auto simp: cpu_execute_def return_after_def split: option.splits)
qed

lemma fetch_zero:
  assumes "cpu_inv ctx" "cpu_fetch ctx = Some ctx'"
  shows "gpr (cpu ctx') ! 0 = 0"
proof -
  have sh: "cpu_shape (cpu ctx)" and z: "gpr (cpu ctx) ! 0 = 0"
    using assms(1) by (simp_all add: cpu_inv_def)
  have "gpr (cpu ctx') =
      (gpr (cpu ctx))[ld_dst (ld_next (cpu ctx)) := ld_val (ld_next (cpu ctx))]"
    by (rule cpu_fetch_Some [OF sh assms(2)]) (simp add: after_fetch_def)
  with sh z show ?thesis
    by (cases "ld_dst (ld_next (cpu ctx)) = 0")
      (auto simp: cpu_shape_def load_ok_def CPU_GPR_NUM_def)
qed

lemma step_cases:
  assumes "psycho_cpu_step ctx = Some ctx'"
  obtains ctx1 where "cpu_fetch ctx = Some ctx1" "illegal ctx1 = Some ctx'"
  | ctx1 ctx2 where "cpu_fetch ctx = Some ctx1" "cpu_execute ctx1 = Some (Break, ctx2)"
      "ctx' = cpu_update (\<lambda>c. c\<lparr>gpr := (gpr c)[0 := 0]\<rparr>) ctx2"
proof -
  from assms obtain ctx1 fl ctx2 where f: "cpu_fetch ctx = Some ctx1"
    and e: "cpu_execute ctx1 = Some (fl, ctx2)"
    and r: "ctx' = (case fl of Return \<Rightarrow> ctx2
      | Break \<Rightarrow> cpu_update (\<lambda>c. c\<lparr>gpr := (gpr c)[0 := 0]\<rparr>) ctx2)"
    by (auto simp: psycho_cpu_step_def elim!: bind_eq_SomeE split: flow.splits)
  show ?thesis
  proof (cases fl)
    case Break
    with that(2) [OF f, of ctx2] e r show ?thesis by simp
  next
    case Return
    with that(1) [OF f] e r execute_Return [of ctx1 ctx2] show ?thesis by simp
  qed
qed

lemma step_keeps:
  assumes "cpu_inv ctx" "psycho_cpu_step ctx = Some ctx'"
  shows "keeps ctx ctx'"
proof -
  have sh: "cpu_shape (cpu ctx)" using assms(1) by (simp add: cpu_inv_def)
  show ?thesis
  proof (rule step_cases [OF assms(2)])
    fix ctx1 assume f: "cpu_fetch ctx = Some ctx1" and i: "illegal ctx1 = Some ctx'"
    show "keeps ctx ctx'"
      using cpu_fetch_keeps [OF sh f] illegal_keeps [OF i] by (rule keeps_trans)
  next
    fix ctx1 ctx2
    assume f: "cpu_fetch ctx = Some ctx1" and e: "cpu_execute ctx1 = Some (Break, ctx2)"
      and r: "ctx' = cpu_update (\<lambda>c. c\<lparr>gpr := (gpr c)[0 := 0]\<rparr>) ctx2"
    have "keeps ctx2 ctx'" unfolding r by (rule keeps_cpu_update) simp
    with cpu_fetch_keeps [OF sh f] cpu_execute_keeps [OF e] show "keeps ctx ctx'"
      by (meson keeps_trans)
  qed
qed

lemma step_zero:
  assumes "cpu_inv ctx" "psycho_cpu_step ctx = Some ctx'"
  shows "gpr (cpu ctx') ! 0 = 0"
proof (rule step_cases [OF assms(2)])
  fix ctx1 assume f: "cpu_fetch ctx = Some ctx1" and i: "illegal ctx1 = Some ctx'"
  have "cpu ctx' = cpu ctx1" using i by (auto simp: illegal_eq)
  with fetch_zero [OF assms(1) f] show ?thesis by simp
next
  fix ctx1 ctx2
  assume r: "ctx' = cpu_update (\<lambda>c. c\<lparr>gpr := (gpr c)[0 := 0]\<rparr>) ctx2"
  have "cpu_shape (cpu ctx')"
    using step_keeps [OF assms] assms(1) by (simp add: keeps_def cpu_inv_def)
  then have "0 < length (gpr (cpu ctx2))" by (simp add: r cpu_shape_def CPU_GPR_NUM_def)
  then show ?thesis by (simp add: r)
qed

lemma step_None_iff:
  assumes "cpu_inv ctx"
  shows "psycho_cpu_step ctx = None \<longleftrightarrow>
    word_hole (vaddr_to_paddr (fetch_pc (cpu ctx)))
    \<or> (\<exists>ctx'. cpu_fetch ctx = Some ctx' \<and> exec_faults (cpu ctx'))"
proof (cases "cpu_fetch ctx")
  case None
  then show ?thesis
    using assms cpu_fetch_None_iff [of ctx] by (simp add: psycho_cpu_step_def cpu_inv_def)
next
  case (Some ctx1)
  have "bus_sized (bus ctx1)"
    using assms cpu_fetch_keeps [OF _ Some] by (simp add: keeps_def cpu_inv_def)
  then have "cpu_execute ctx1 = None \<longleftrightarrow> exec_faults (cpu ctx1)" by (rule cpu_execute_None_iff)
  moreover have "\<not> word_hole (vaddr_to_paddr (fetch_pc (cpu ctx)))"
    using assms Some cpu_fetch_None_iff [of ctx] by (simp add: cpu_inv_def)
  moreover have "psycho_cpu_step ctx = None \<longleftrightarrow> cpu_execute ctx1 = None"
    using Some by (cases "cpu_execute ctx1") (auto simp: psycho_cpu_step_def split: flow.splits)
  ultimately show ?thesis using Some by simp
qed

section \<open>Runs\<close>

text \<open>A step is safe when neither its fetch nor its data access leaves a buffer.\<close>

definition step_safe :: "psycho_ctx \<Rightarrow> bool" where
  "step_safe ctx \<longleftrightarrow> \<not> word_hole (vaddr_to_paddr (fetch_pc (cpu ctx)))
     \<and> (case cpu_fetch ctx of Some ctx' \<Rightarrow> \<not> exec_faults (cpu ctx') | None \<Rightarrow> True)"

interpretation cpu_machine: guarded_step psycho_cpu_step cpu_inv step_safe
proof
  fix s t :: psycho_ctx
  assume inv: "cpu_inv s"
  show "psycho_cpu_step s = Some t \<Longrightarrow> cpu_inv t"
    using inv step_keeps [OF inv] step_zero [OF inv] by (auto simp: cpu_inv_def keeps_def)
  show "step_safe s \<Longrightarrow> \<exists>t. psycho_cpu_step s = Some t"
    using step_None_iff [OF inv] by (auto simp: step_safe_def split: option.splits)
qed

lemma zero_cpu_shape [simp]: "cpu_shape zero_cpu"
  by (simp add: cpu_shape_def zero_cpu_def)

lemma booted_inv [simp]: "cpu_inv (boot_ctx f)"
  by (simp add: cpu_inv_def zero_cpu_shape)

lemma program_inv [simp]:
  "length regs = 32 \<Longrightarrow> regs ! 0 = 0 \<Longrightarrow> cpu_inv (program_ctx ws regs)"
  by (simp add: cpu_inv_def cpu_shape_def zero_cpu_def CPU_GPR_NUM_def CPU_COP0_NUM_def)

end
