(* ===== verification/Cpu_Alu.thy ===== *)
theory Cpu_Alu
  imports Cpu_Invariant
begin

text \<open>
  The arithmetic of the interpreter against the integers: checked addition and subtraction,
  64-bit products, division with its two special cases, shifts and comparisons.
\<close>

section \<open>Words and integers\<close>

definition signed_fits :: "int \<Rightarrow> bool" where
  "signed_fits s \<longleftrightarrow> - (2 ^ 31) \<le> s \<and> s < 2 ^ 31"

lemma sint_word_of_int_fits: "sint (word_of_int s :: u32) = s \<longleftrightarrow> signed_fits s"
proof
  assume "sint (word_of_int s :: u32) = s"
  then show "signed_fits s"
    using sint_ge [of "word_of_int s :: u32"] sint_less [of "word_of_int s :: u32"]
    by (simp add: signed_fits_def)
next
  assume "signed_fits s"
  then show "sint (word_of_int s :: u32) = s"
    by (simp add: signed_fits_def signed_of_int signed_take_bit_int_eq_self)
qed

lemma sadd_overflow_eq: "sadd_overflow a b = (\<not> signed_fits (sint a + sint b), a + b)"
  by (simp add: sadd_overflow_def Let_def sint_word_of_int_fits [symmetric])

lemma ssub_overflow_eq: "ssub_overflow a b = (\<not> signed_fits (sint a - sint b), a - b)"
  by (simp add: ssub_overflow_def Let_def sint_word_of_int_fits [symmetric])

lemma sint_u32_bounds: "- (2 ^ 31) \<le> sint a" "sint a < 2 ^ 31" for a :: u32
  using sint_ge [of a] sint_less [of a] by simp_all

text \<open>The two halves of a 64-bit result.\<close>

definition hilo :: "psycho_cpu \<Rightarrow> u64" where
  "hilo c = word_cat (hi c) (lo c)"

lemma halves_cat:
  "word_cat (ucast (drop_bit 32 p) :: u32) (ucast (p AND 0xFFFFFFFF) :: u32) = p" for p :: u64
proof (rule bit_word_eqI)
  fix n
  assume "n < LENGTH(64)"
  then show "bit (word_cat (ucast (drop_bit 32 p) :: u32) (ucast (p AND 0xFFFFFFFF) :: u32) :: u64) n
      = bit p n"
    by (auto simp: bit_word_cat_iff bit_simps mask_numerals(12))
qed

lemma sint_mult_ext:
  "sint (sign_ext_32_64 a * sign_ext_32_64 b) = sint a * sint b"
proof -
  have e: "sint (sign_ext_32_64 x) = sint x" for x
    by (simp add: sign_ext_32_64_def sint_up_scast is_up)
  have "\<bar>sint a\<bar> * \<bar>sint b\<bar> \<le> 2 ^ 31 * 2 ^ 31"
    using sint_u32_bounds [of a] sint_u32_bounds [of b] by (intro mult_mono) auto
  then have "\<bar>sint a * sint b\<bar> \<le> 2 ^ 62" by (simp add: abs_mult)
  then have "- (2 ^ 63) \<le> sint a * sint b \<and> sint a * sint b < 2 ^ 63" by auto
  then have "sint (word_of_int (sint a * sint b) :: u64) = sint a * sint b"
    unfolding sint_sbintrunc' by (intro signed_take_bit_int_eq_self) simp_all
  moreover have "sign_ext_32_64 a * sign_ext_32_64 b = word_of_int (sint a * sint b)"
  proof -
    have "sign_ext_32_64 x = word_of_int (sint x)" for x
      using e [of x] by (metis of_int_sint scast_id)
    then show ?thesis by (simp only: wi_hom_mult)
  qed
  ultimately show ?thesis by simp
qed

lemma unat_mult_ext:
  "unat (zero_ext_32_64 a * zero_ext_32_64 b) = unat a * unat b"
proof -
  have "unat a * unat b \<le> (2 ^ 32 - 1) * (2 ^ 32 - 1)"
    using unsigned_less [of a, where ?'a = nat] unsigned_less [of b, where ?'a = nat]
    by (intro mult_mono) auto
  then have "unat a * unat b < 2 ^ 64" by simp
  moreover have "unat (zero_ext_32_64 x) = unat x" for x
    using unsigned_less [of x, where ?'a = nat]
    by (simp add: zero_ext_32_64_def unsigned_ucast_eq take_bit_nat_eq_self)
  ultimately show ?thesis by (simp add: unat_word_ariths)
qed

section \<open>Checked addition and subtraction\<close>

text \<open>
  \<^verbatim>\<open>ADD\<close>, \<^verbatim>\<open>ADDI\<close> and \<^verbatim>\<open>SUB\<close> trap exactly when the exact result does not fit 32 signed
  bits, and otherwise do what \<^verbatim>\<open>ADDU\<close>, \<^verbatim>\<open>ADDIU\<close> and \<^verbatim>\<open>SUBU\<close> do.
\<close>

lemma checked_arithmetic:
  "op_ADD ctx = (if signed_fits (sint (gpr_rs ctx) + sint (gpr_rt ctx)) then op_ADDU ctx
     else raise_exception ctx EXCEPTION_OV)
   \<and> op_ADDI ctx = (if signed_fits (sint (m_imm ctx) + sint (gpr_rs ctx)) then op_ADDIU ctx
     else raise_exception ctx EXCEPTION_OV)
   \<and> op_SUB ctx = (if signed_fits (sint (gpr_rs ctx) - sint (gpr_rt ctx)) then op_SUBU ctx
     else raise_exception ctx EXCEPTION_OV)"
proof -
  have imm: "sint (sign_ext_16_32 w) = sint w" for w
    by (simp add: sign_ext_16_32_def sint_up_scast is_up)
  show ?thesis
    by (simp add: op_ADD_def op_ADDU_def op_ADDI_def op_ADDIU_def op_SUB_def op_SUBU_def
        sadd_overflow_eq ssub_overflow_eq imm)
qed

section \<open>Products and quotients\<close>

text \<open>
  \<^verbatim>\<open>MULT\<close> and \<^verbatim>\<open>MULTU\<close> leave the exact 64-bit product of their operands, signed or
  unsigned, in HI and LO.
\<close>

lemma products_exact:
  "\<exists>c d. op_MULT ctx = Some c \<and> op_MULTU ctx = Some d
     \<and> sint (hilo (cpu c)) = sint (gpr_rs ctx) * sint (gpr_rt ctx)
     \<and> unat (hilo (cpu d)) = unat (gpr_rs ctx) * unat (gpr_rt ctx)"
  by (simp add: op_MULT_def op_MULTU_def Let_def hilo_def halves_cat sint_mult_ext unat_mult_ext)

lemma quotient_fits:
  fixes n d :: u32
  assumes "sint d \<noteq> 0" "\<not> (sint n = - (2 ^ 31) \<and> sint d = -1)"
  shows "sint (word_of_int (sint n sdiv sint d) :: u32) = sint n sdiv sint d"
proof -
  have range: "- \<bar>sint n\<bar> \<le> sint n sdiv sint d" "sint n sdiv sint d \<le> \<bar>sint n\<bar>"
    using sdiv_int_range [of "sint n" "sint d"] by auto
  have "sint n sdiv sint d \<noteq> 2 ^ 31" if "sint n = - (2 ^ 31)"
    using assms(2) that int_sdiv_negated_is_minus1 [of "sint n" "sint d"] by auto
  moreover have "\<bar>sint n\<bar> \<le> 2 ^ 31" and "\<bar>sint n\<bar> = 2 ^ 31 \<Longrightarrow> sint n = - (2 ^ 31)"
    using sint_u32_bounds [of n] by auto
  ultimately have "signed_fits (sint n sdiv sint d)"
    using range unfolding signed_fits_def by linarith
  then show ?thesis by (simp only: sint_word_of_int_fits)
qed

lemma smod_sign: "n smod d = 0 \<or> sgn (n smod d) = sgn n" for n d :: int
proof (cases "\<bar>n\<bar> mod \<bar>d\<bar> = 0")
  case True
  then show ?thesis by (simp add: smod_int_alt_def)
next
  case False
  have "0 \<le> \<bar>n\<bar> mod \<bar>d\<bar>"
    by (cases "d = 0") simp_all
  with False have "0 < \<bar>n\<bar> mod \<bar>d\<bar>" by simp
  then show ?thesis by (simp add: smod_int_alt_def sgn_mult)
qed

lemma smod_abs_less: "d \<noteq> 0 \<Longrightarrow> \<bar>n smod d\<bar> < \<bar>d\<bar>" for n d :: int
  using smod_int_range [of d n] by auto

text \<open>
  C22: \<^verbatim>\<open>DIV\<close> truncates towards zero, its remainder has the dividend's sign, and its two
  special cases leave the values the hardware leaves instead of trapping.
\<close>

theorem div_signed:
  "\<exists>c. op_DIV ctx = Some c \<and>
     (let n = sint (gpr_rs ctx); d = sint (gpr_rt ctx); q = sint (lo (cpu c)); r = sint (hi (cpu c))
      in if d = 0 then r = n \<and> q = (if n < 0 then 1 else -1)
         else if n = - (2 ^ 31) \<and> d = -1 then q = n \<and> r = 0
         else n = q * d + r \<and> \<bar>r\<bar> < \<bar>d\<bar> \<and> (r = 0 \<or> sgn r = sgn n))"
proof -
  let ?n = "gpr_rs ctx" and ?d = "gpr_rt ctx"
  have least: "?n = 0x80000000 \<longleftrightarrow> sint ?n = - (2 ^ 31)"
    and minus1: "?d = 0xFFFFFFFF \<longleftrightarrow> sint ?d = -1"
    using word_eq_iff_signed [of ?n "0x80000000", where ?'a = int]
      word_eq_iff_signed [of ?d "0xFFFFFFFF", where ?'a = int] by simp_all
  have neg: "?n <s 0 \<longleftrightarrow> sint ?n < 0" and zero: "?d = 0 \<longleftrightarrow> sint ?d = 0"
    by (simp_all add: word_sless_alt signed_eq_0_iff)
  have rem: "sint (word_of_int (sint ?n smod sint ?d) :: u32) = sint ?n smod sint ?d"
    if "sint ?d \<noteq> 0"
    using smod_int_range [of "sint ?d" "sint ?n"] sint_u32_bounds [of ?d] that
    by (simp add: sint_word_of_int_fits signed_fits_def) arith
  have quot: "sint (word_of_int (sint ?n sdiv sint ?d) :: u32) = sint ?n sdiv sint ?d"
    if "sint ?d \<noteq> 0" "\<not> (sint ?n = - (2 ^ 31) \<and> sint ?d = -1)"
    by (rule quotient_fits [OF that])
  show ?thesis
  proof (cases "sint ?d = 0 \<or> sint ?n = - (2 ^ 31) \<and> sint ?d = -1")
    case True
    then show ?thesis
      unfolding op_DIV_def Let_def least minus1 neg zero by auto
  next
    case False
    then show ?thesis
      using smod_sign [of "sint ?n" "sint ?d"] smod_abs_less [of "sint ?d" "sint ?n"]
        sdiv_mult_smod_eq [of "sint ?n" "sint ?d"]
      unfolding op_DIV_def Let_def least minus1 neg zero by (simp add: quot rem)
  qed
qed

text \<open>
  \<^verbatim>\<open>DIVU\<close> leaves quotient and remainder of the unsigned operands; a division by zero leaves
  all ones and the dividend.
\<close>

lemma div_unsigned:
  "\<exists>c. op_DIVU ctx = Some c \<and>
     (let n = unat (gpr_rs ctx); d = unat (gpr_rt ctx); q = unat (lo (cpu c)); r = unat (hi (cpu c))
      in if d = 0 then q = 2 ^ 32 - 1 \<and> r = n else n = q * d + r \<and> r < d)"
proof (cases "gpr_rt ctx = 0")
  case True
  then show ?thesis by (simp add: op_DIVU_def)
next
  case False
  then have "0 < unat (gpr_rt ctx)" by (simp add: unat_gt_0)
  with False show ?thesis by (simp add: op_DIVU_def unat_div unat_mod)
qed

section \<open>Shifts and comparisons\<close>

lemma shift_values:
  fixes w :: u32
  shows "push_bit n w = word_of_nat (unat w * 2 ^ n)"
    and "drop_bit n w = word_of_nat (unat w div 2 ^ n)"
    and "signed_drop_bit n w = word_of_int (sint w div 2 ^ n)"
proof -
  show "push_bit n w = word_of_nat (unat w * 2 ^ n)" by (simp add: push_bit_eq_mult)
  show "drop_bit n w = word_of_nat (unat w div 2 ^ n)"
    by (metis drop_bit_eq_div of_nat_unat ucast_id unat_drop_bit_eq)
  show "signed_drop_bit n w = word_of_int (sint w div 2 ^ n)"
    by (metis drop_bit_eq_div of_int_sint scast_id sint_signed_drop_bit_eq)
qed

lemma unat_and_31: "unat (w AND 0x1F) = unat w mod 32" for w :: u32
  using and_mask_take_bit [of w 5] unat_take_bit [of 5 w]
  by (simp add: mask_numerals(4) take_bit_eq_mod)

lemma sint_imm_ext: "sint (sign_ext_16_32 w) = sint w"
  by (simp add: sign_ext_16_32_def sint_up_scast is_up)

text \<open>
  The shifts multiply and divide by powers of two, the arithmetic one rounding towards
  minus infinity; the variable ones use the low five bits of their register; the comparisons
  compare as integers.
\<close>

lemma shifts_and_comparisons:
  "op_SLL ctx = Some (gpr_set ctx (m_rd ctx) (word_of_nat (unat (gpr_rt ctx) * 2 ^ m_shamt ctx)))
   \<and> op_SRL ctx = Some (gpr_set ctx (m_rd ctx) (word_of_nat (unat (gpr_rt ctx) div 2 ^ m_shamt ctx)))
   \<and> op_SRA ctx = Some (gpr_set ctx (m_rd ctx) (word_of_int (sint (gpr_rt ctx) div 2 ^ m_shamt ctx)))
   \<and> op_SLLV ctx = Some (gpr_set ctx (m_rd ctx)
       (word_of_nat (unat (gpr_rt ctx) * 2 ^ (unat (gpr_rs ctx) mod 32))))
   \<and> op_SRLV ctx = Some (gpr_set ctx (m_rd ctx)
       (word_of_nat (unat (gpr_rt ctx) div 2 ^ (unat (gpr_rs ctx) mod 32))))
   \<and> op_SRAV ctx = Some (gpr_set ctx (m_rd ctx)
       (word_of_int (sint (gpr_rt ctx) div 2 ^ (unat (gpr_rs ctx) mod 32))))
   \<and> op_SLT ctx = Some (gpr_set ctx (m_rd ctx) (if sint (gpr_rs ctx) < sint (gpr_rt ctx) then 1 else 0))
   \<and> op_SLTU ctx = Some (gpr_set ctx (m_rd ctx) (if unat (gpr_rs ctx) < unat (gpr_rt ctx) then 1 else 0))
   \<and> op_SLTI ctx = Some (gpr_set ctx (m_rt ctx) (if sint (gpr_rs ctx) < sint (m_imm ctx) then 1 else 0))"
  unfolding op_SLL_def op_SRL_def op_SRA_def op_SLLV_def op_SRLV_def op_SRAV_def op_SLT_def
    op_SLTU_def op_SLTI_def shift_values unat_and_31 word_sless_alt sint_imm_ext word_less_nat_alt
    of_bool_def
  by simp

end
