(* ===== verification/Isa_Spec.thy ===== *)
theory Isa_Spec
  imports Prelude
begin

text \<open>
  A reference machine for the instruction set the interpreter of \<^verbatim>\<open>core/cpu.c\<close> executes, written
  without looking at it: a decoder by numeric fields and tables, an abstract syntax of
  instructions, arithmetic over the integers, memory as bytes, and one rule for the load delay
  slot instead of the interpreter's two pending slots. Nothing here models the source; the
  theory \<open>Isa_Refines\<close> relates the two.
\<close>

section \<open>Instructions\<close>

datatype alu = A_ADD | A_SUB | A_AND | A_OR | A_XOR | A_NOR | A_SLT | A_SLTU | A_SLL | A_SRL | A_SRA

datatype operand = Reg nat | Const u32

datatype cond = C_EQ | C_NE | C_LEZ | C_GTZ | C_LTZ | C_GEZ

datatype side = Leftmost | Rightmost

text \<open>
  Destinations come before sources. \<open>Checked\<close> traps when the signed result does not fit,
  \<open>Multiply\<close> and \<open>Divide\<close> say whether they are signed, a branch and an immediate jump say
  whether they link, a register jump names the register it links to, a load its width in
  bytes and whether it extends the sign.
\<close>

datatype insn =
    Compute alu nat operand operand
  | Checked alu nat operand operand
  | Multiply bool nat nat
  | Divide bool nat nat
  | From_Hi nat
  | From_Lo nat
  | To_Hi nat
  | To_Lo nat
  | Branch cond nat nat int bool
  | Jump nat bool
  | Jump_Reg nat "nat option"
  | Load nat bool nat nat int
  | Load_Part side nat nat int
  | Store nat nat nat int
  | Store_Part side nat nat int
  | From_Sys nat nat
  | To_Sys nat nat
  | Return_Exc
  | System_Call
  | Breakpoint

section \<open>Decoding\<close>

definition field :: "nat \<Rightarrow> nat \<Rightarrow> u32 \<Rightarrow> nat" where
  "field k n w = unat w div 2 ^ k mod 2 ^ n"

text \<open>The signed value of the low half of a word.\<close>

definition disp :: "u32 \<Rightarrow> int" where
  "disp w = (let n = int (field 0 16 w) in if n < 0x8000 then n else n - 0x10000)"

definition decode_special :: "u32 \<Rightarrow> insn option" where
  "decode_special w =
     (let rs = field 21 5 w; rt = field 16 5 w; rd = field 11 5 w; sh = Const (of_nat (field 6 5 w))
      in map_of
       [(0, Compute A_SLL rd (Reg rt) sh), (2, Compute A_SRL rd (Reg rt) sh),
        (3, Compute A_SRA rd (Reg rt) sh), (4, Compute A_SLL rd (Reg rt) (Reg rs)),
        (6, Compute A_SRL rd (Reg rt) (Reg rs)), (7, Compute A_SRA rd (Reg rt) (Reg rs)),
        (8, Jump_Reg rs None), (9, Jump_Reg rs (Some rd)), (12, System_Call), (13, Breakpoint),
        (16, From_Hi rd), (17, To_Hi rs), (18, From_Lo rd), (19, To_Lo rs),
        (24, Multiply True rs rt), (25, Multiply False rs rt),
        (26, Divide True rs rt), (27, Divide False rs rt),
        (32, Checked A_ADD rd (Reg rs) (Reg rt)), (33, Compute A_ADD rd (Reg rs) (Reg rt)),
        (34, Checked A_SUB rd (Reg rs) (Reg rt)), (35, Compute A_SUB rd (Reg rs) (Reg rt)),
        (36, Compute A_AND rd (Reg rs) (Reg rt)), (37, Compute A_OR rd (Reg rs) (Reg rt)),
        (38, Compute A_XOR rd (Reg rs) (Reg rt)), (39, Compute A_NOR rd (Reg rs) (Reg rt)),
        (42, Compute A_SLT rd (Reg rs) (Reg rt)), (43, Compute A_SLTU rd (Reg rs) (Reg rt))]
       (field 0 6 w))"

definition decode_cop0 :: "u32 \<Rightarrow> insn option" where
  "decode_cop0 w =
     (if field 21 5 w = 0 then Some (From_Sys (field 16 5 w) (field 11 5 w))
      else if field 21 5 w = 4 then Some (To_Sys (field 16 5 w) (field 11 5 w))
      else if field 0 6 w = 16 then Some Return_Exc
      else None)"

text \<open>
  The branches against zero: the lowest bit of their second field selects the condition, and
  they link when the other four read 8.
\<close>

definition decode_bcond :: "u32 \<Rightarrow> insn" where
  "decode_bcond w = (let rt = field 16 5 w
     in Branch (if odd rt then C_GEZ else C_LTZ) (field 21 5 w) rt (disp w) (rt div 2 = 8))"

definition decode_immediate :: "u32 \<Rightarrow> insn option" where
  "decode_immediate w =
     (let rs = field 21 5 w; rt = field 16 5 w; d = disp w;
          si = Const (of_int d); ui = Const (of_nat (field 0 16 w))
      in map_of
       [(2, Jump (field 0 26 w) False), (3, Jump (field 0 26 w) True),
        (4, Branch C_EQ rs rt d False), (5, Branch C_NE rs rt d False),
        (6, Branch C_LEZ rs rt d False), (7, Branch C_GTZ rs rt d False),
        (8, Checked A_ADD rt (Reg rs) si), (9, Compute A_ADD rt (Reg rs) si),
        (10, Compute A_SLT rt (Reg rs) si), (11, Compute A_SLTU rt (Reg rs) si),
        (12, Compute A_AND rt (Reg rs) ui), (13, Compute A_OR rt (Reg rs) ui),
        (14, Compute A_XOR rt (Reg rs) ui), (15, Compute A_SLL rt ui (Const 16)),
        (32, Load 1 True rt rs d), (33, Load 2 True rt rs d), (34, Load_Part Leftmost rt rs d),
        (35, Load 4 False rt rs d), (36, Load 1 False rt rs d), (37, Load 2 False rt rs d),
        (38, Load_Part Rightmost rt rs d), (40, Store 1 rt rs d), (41, Store 2 rt rs d),
        (42, Store_Part Leftmost rt rs d), (43, Store 4 rt rs d), (46, Store_Part Rightmost rt rs d)]
       (field 26 6 w))"

definition decode :: "u32 \<Rightarrow> insn option" where
  "decode w =
     (if field 26 6 w = 0 then decode_special w
      else if field 26 6 w = 1 then Some (decode_bcond w)
      else if field 26 6 w = 16 then decode_cop0 w
      else decode_immediate w)"

section \<open>State\<close>

type_synonym byte_store = "u32 \<Rightarrow> u8 option"

text \<open>
  \<open>now\<close> is the address of the instruction to execute, \<open>after\<close> that of the one behind it,
  \<open>in_slot\<close> says whether it stands in a delay slot, \<open>arriving\<close> is the load of the previous
  instruction, which this one does not see in the register file yet.
\<close>

record isa =
  reg_file :: "u32 list"
  sys_file :: "u32 list"
  high :: u32
  low :: u32
  now :: u32
  after :: u32
  in_slot :: bool
  arriving :: "(nat \<times> u32) option"
  byte_at :: byte_store

section \<open>Memory\<close>

definition translate :: "u32 \<Rightarrow> u32" where
  "translate a = (if a = 0xFFFE0130 then a else of_nat (unat a mod 2 ^ 29))"

text \<open>Where nothing is mapped the bus reads as ones.\<close>

definition peek :: "byte_store \<Rightarrow> u32 \<Rightarrow> nat" where
  "peek m p = (case m p of Some b \<Rightarrow> unat b | None \<Rightarrow> 255)"

primrec read_le :: "byte_store \<Rightarrow> nat \<Rightarrow> u32 \<Rightarrow> nat" where
  "read_le m 0 p = 0"
| "read_le m (Suc n) p = peek m p + 256 * read_le m n (p + 1)"

text \<open>The ROM and the unmapped addresses ignore writes.\<close>

definition rom :: "u32 \<Rightarrow> bool" where
  "rom p \<longleftrightarrow> 0x1FC00000 \<le> unat p \<and> unat p < 0x1FC80000"

definition write_le :: "byte_store \<Rightarrow> nat \<Rightarrow> u32 \<Rightarrow> nat \<Rightarrow> byte_store" where
  "write_le m n p v = (\<lambda>q. let k = unat (q - p)
     in if k < n \<and> m q \<noteq> None \<and> \<not> rom q then Some (of_nat (v div 256 ^ k)) else m q)"

section \<open>Arithmetic\<close>

definition to_signed :: "nat \<Rightarrow> nat \<Rightarrow> int" where
  "to_signed n v = (if v < 2 ^ (n - 1) then int v else int v - 2 ^ n)"

fun alu_exact :: "alu \<Rightarrow> u32 \<Rightarrow> u32 \<Rightarrow> int" where
  "alu_exact A_ADD a b = sint a + sint b"
| "alu_exact A_SUB a b = sint a - sint b"
| "alu_exact A_AND a b = uint (a AND b)"
| "alu_exact A_OR a b = uint (a OR b)"
| "alu_exact A_XOR a b = uint (a XOR b)"
| "alu_exact A_NOR a b = - 1 - uint (a OR b)"
| "alu_exact A_SLT a b = (if sint a < sint b then 1 else 0)"
| "alu_exact A_SLTU a b = (if uint a < uint b then 1 else 0)"
| "alu_exact A_SLL a b = uint a * 2 ^ (unat b mod 32)"
| "alu_exact A_SRL a b = uint a div 2 ^ (unat b mod 32)"
| "alu_exact A_SRA a b = sint a div 2 ^ (unat b mod 32)"

definition fits :: "int \<Rightarrow> bool" where
  "fits v \<longleftrightarrow> - (2 ^ 31) \<le> v \<and> v < 2 ^ 31"

fun holds :: "cond \<Rightarrow> u32 \<Rightarrow> u32 \<Rightarrow> bool" where
  "holds C_EQ a b \<longleftrightarrow> a = b"
| "holds C_NE a b \<longleftrightarrow> a \<noteq> b"
| "holds C_LEZ a b \<longleftrightarrow> sint a \<le> 0"
| "holds C_GTZ a b \<longleftrightarrow> 0 < sint a"
| "holds C_LTZ a b \<longleftrightarrow> sint a < 0"
| "holds C_GEZ a b \<longleftrightarrow> 0 \<le> sint a"

text \<open>Quotient and remainder, with the results the processor gives for the two odd cases.\<close>

definition divide :: "bool \<Rightarrow> u32 \<Rightarrow> u32 \<Rightarrow> u32 \<times> u32" where
  "divide sg a b =
     (if b = 0 then (if sg \<and> sint a < 0 then 1 else 0xFFFFFFFF, a)
      else if sg then (of_int (sint a sdiv sint b), of_int (sint a smod sint b))
      else (of_nat (unat a div unat b), of_nat (unat a mod unat b)))"

section \<open>Execution\<close>

definition put :: "nat \<Rightarrow> u32 \<Rightarrow> isa \<Rightarrow> isa" where
  "put r v m = (if r = 0 then m else m\<lparr>reg_file := (reg_file m)[r := v]\<rparr>)"

fun land :: "(nat \<times> u32) option \<Rightarrow> isa \<Rightarrow> isa" where
  "land None m = m"
| "land (Some (r, v)) m = put r v m"

text \<open>
  What an instruction leaves: a state, a state and a register written at once, or a state and
  a register that is written one instruction later.
\<close>

datatype outcome = Done isa | Result nat u32 isa | Loaded nat u32 isa

fun retire :: "(nat \<times> u32) option \<Rightarrow> outcome \<Rightarrow> isa" where
  "retire p (Done m) = land p m"
| "retire p (Result r v m) = put r v (land p m)"
| "retire p (Loaded r v m) =
     (if r = 0 then land p m
      else (if map_option fst p = Some r then m else land p m)\<lparr>arriving := Some (r, v)\<rparr>)"

text \<open>
  An exception saves the address of the instruction in register 14, pushes the three pairs of
  mode bits in register 12, and leaves its code above the pending interrupts in register 13.
\<close>

definition trap :: "nat \<Rightarrow> u32 \<Rightarrow> isa \<Rightarrow> isa" where
  "trap code here m = m\<lparr>sys_file := (sys_file m)
     [14 := here,
      12 := of_nat (64 * (unat (sys_file m ! 12) div 64) + 4 * (unat (sys_file m ! 12) mod 16)),
      13 := of_nat (256 * (unat (sys_file m ! 13) div 256 mod 256) + 4 * code)],
     now := 0x80, after := 0x84\<rparr>"

definition pop_modes :: "isa \<Rightarrow> isa" where
  "pop_modes m = m\<lparr>sys_file := (sys_file m)
     [12 := of_nat (16 * (unat (sys_file m ! 12) div 16) + unat (sys_file m ! 12) div 4 mod 16)]\<rparr>"

definition goto :: "u32 \<Rightarrow> isa \<Rightarrow> isa" where
  "goto target m = m\<lparr>after := target, in_slot := True\<rparr>"

definition isolated :: "isa \<Rightarrow> bool" where
  "isolated m \<longleftrightarrow> odd (unat (sys_file m ! 12) div 2 ^ 16)"

fun operand_of :: "isa \<Rightarrow> operand \<Rightarrow> u32" where
  "operand_of m (Reg r) = reg_file m ! r"
| "operand_of m (Const c) = c"

definition ea :: "isa \<Rightarrow> nat \<Rightarrow> int \<Rightarrow> u32" where
  "ea m base d = reg_file m ! base + of_int d"

text \<open>The value a partial load completes: it does see the previous load of its register.\<close>

definition newest :: "isa \<Rightarrow> nat \<Rightarrow> u32" where
  "newest m r = (case arriving m of
     Some (d, v) \<Rightarrow> if d = r then v else reg_file m ! r | None \<Rightarrow> reg_file m ! r)"

text \<open>The machine on its way to the next instruction.\<close>

definition advance :: "isa \<Rightarrow> isa" where
  "advance m = m\<lparr>now := after m, after := after m + 4, in_slot := False, arriving := None\<rparr>"

text \<open>The rightmost access covers the bytes from its address to the end of the aligned word,
  the leftmost one those from the start of the word to its address.\<close>

fun load_part :: "side \<Rightarrow> byte_store \<Rightarrow> u32 \<Rightarrow> nat \<Rightarrow> nat" where
  "load_part Rightmost m p v =
     (let n = 4 - unat p mod 4 in read_le m n p + 256 ^ n * (v div 256 ^ n))"
| "load_part Leftmost m p v =
     (let n = Suc (unat p mod 4)
      in v mod 256 ^ (4 - n) + 256 ^ (4 - n) * read_le m n (p - of_nat (unat p mod 4)))"

fun store_part :: "side \<Rightarrow> byte_store \<Rightarrow> u32 \<Rightarrow> nat \<Rightarrow> byte_store" where
  "store_part Rightmost m p v = write_le m (4 - unat p mod 4) p v"
| "store_part Leftmost m p v =
     (let n = Suc (unat p mod 4) in write_le m n (p - of_nat (unat p mod 4)) (v div 256 ^ (4 - n)))"

fun exec :: "insn \<Rightarrow> isa \<Rightarrow> outcome" where
  "exec (Compute f rd a b) m =
     Result rd (of_int (alu_exact f (operand_of m a) (operand_of m b))) (advance m)"
| "exec (Checked f rd a b) m =
     (let v = alu_exact f (operand_of m a) (operand_of m b)
      in if fits v then Result rd (of_int v) (advance m) else Done (trap 12 (now m) (advance m)))"
| "exec (Multiply sg rs rt) m =
     (let v = (if sg then sint (reg_file m ! rs) * sint (reg_file m ! rt)
               else uint (reg_file m ! rs) * uint (reg_file m ! rt))
      in Done ((advance m)\<lparr>low := of_int v, high := of_int (v div 2 ^ 32)\<rparr>))"
| "exec (Divide sg rs rt) m =
     (let (q, r) = divide sg (reg_file m ! rs) (reg_file m ! rt)
      in Done ((advance m)\<lparr>low := q, high := r\<rparr>))"
| "exec (From_Hi rd) m = Result rd (high m) (advance m)"
| "exec (From_Lo rd) m = Result rd (low m) (advance m)"
| "exec (To_Hi rs) m = Done ((advance m)\<lparr>high := reg_file m ! rs\<rparr>)"
| "exec (To_Lo rs) m = Done ((advance m)\<lparr>low := reg_file m ! rs\<rparr>)"
| "exec (Branch c rs rt d link) m =
     (let target = (if holds c (reg_file m ! rs) (reg_file m ! rt)
                    then now m + 4 + of_int (4 * d) else after m + 4);
          n = goto target (advance m)
      in if link then Result 31 (now m + 8) n else Done n)"
| "exec (Jump index link) m =
     (let n = goto (of_nat (2 ^ 28 * (unat (now m) div 2 ^ 28) + 4 * index)) (advance m)
      in if link then Result 31 (now m + 8) n else Done n)"
| "exec (Jump_Reg rs link) m =
     (let n = goto (reg_file m ! rs) (advance m)
      in case link of Some rd \<Rightarrow> Result rd (now m + 8) n | None \<Rightarrow> Done n)"
| "exec (Load n sg rt base d) m =
     (let p = translate (ea m base d); v = read_le (byte_at m) n p
      in if unat p mod n \<noteq> 0 then Done (trap 4 (now m) (advance m))
         else Loaded rt (if sg then of_int (to_signed (8 * n) v) else of_nat v) (advance m))"
| "exec (Load_Part s rt base d) m =
     Loaded rt (of_nat (load_part s (byte_at m) (translate (ea m base d)) (unat (newest m rt))))
       (advance m)"
| "exec (Store n rt base d) m =
     (let p = translate (ea m base d)
      in if unat p mod n \<noteq> 0 then Done (trap 5 (now m) (advance m))
         else if isolated m then Done (advance m)
         else Done ((advance m)\<lparr>byte_at := write_le (byte_at m) n p (unat (reg_file m ! rt))\<rparr>))"
| "exec (Store_Part s rt base d) m =
     (if isolated m then Done (advance m)
      else Done ((advance m)\<lparr>byte_at :=
        store_part s (byte_at m) (translate (ea m base d)) (unat (reg_file m ! rt))\<rparr>))"
| "exec (From_Sys rt rd) m = Result rt (sys_file m ! rd) (advance m)"
| "exec (To_Sys rt rd) m =
     Done ((advance m)\<lparr>sys_file := (sys_file m)[rd := reg_file m ! rt]\<rparr>)"
| "exec Return_Exc m = Done (pop_modes (advance m))"
| "exec System_Call m = Done (trap 8 (now m) (advance m))"
| "exec Breakpoint m = Done (trap 9 (now m) (advance m))"

definition fetched_word :: "isa \<Rightarrow> u32" where
  "fetched_word m = of_nat (read_le (byte_at m) 4 (translate (now m)))"

text \<open>No step from a reserved word: what the program does then is the host's business.\<close>

definition isa_step :: "isa \<Rightarrow> isa option" where
  "isa_step m = map_option (\<lambda>i. retire (arriving m) (exec i m)) (decode (fetched_word m))"

section \<open>Plain instructions\<close>

text \<open>
  Where the interpreter is known to part from this machine: misaligned fetches and \<^verbatim>\<open>JALR\<close>
  targets, branches in a delay slot or with an offset that does not fit after the shift,
  accesses a data breakpoint watches, addresses whose bits 20 to 23 the interpreter drops,
  halfword loads from the ROM, and stores other than aligned \<^verbatim>\<open>SW\<close> while the cache is isolated.
\<close>

definition watched :: "isa \<Rightarrow> u32 \<Rightarrow> bool" where
  "watched m a \<longleftrightarrow> (bit (sys_file m ! 7) 23 \<or> bit (sys_file m ! 7) 25)
     \<and> (a XOR sys_file m ! 5) AND sys_file m ! 9 = 0"

definition plain_access :: "isa \<Rightarrow> u32 \<Rightarrow> bool" where
  "plain_access m a \<longleftrightarrow> \<not> watched m a \<and> (unat a < 0x100000 \<or> 0x1000000 \<le> unat a)"

fun plain_insn :: "insn \<Rightarrow> isa \<Rightarrow> bool" where
  "plain_insn (Branch c rs rt d link) m \<longleftrightarrow> \<not> in_slot m \<and> - 8192 \<le> d \<and> d < 8192"
| "plain_insn (Jump_Reg rs (Some rd)) m \<longleftrightarrow> 4 dvd unat (reg_file m ! rs)"
| "plain_insn (Load n s rt base d) m \<longleftrightarrow> plain_access m (ea m base d)
     \<and> (n = 2 \<longrightarrow> \<not> rom (translate (ea m base d)))"
| "plain_insn (Load_Part s rt base d) m \<longleftrightarrow> plain_access m (ea m base d)"
| "plain_insn (Store n rt base d) m \<longleftrightarrow> plain_access m (ea m base d)
     \<and> (isolated m \<longrightarrow> n = 4 \<and> 4 dvd unat (ea m base d))"
| "plain_insn (Store_Part s rt base d) m \<longleftrightarrow> plain_access m (ea m base d) \<and> \<not> isolated m"
| "plain_insn _ m \<longleftrightarrow> True"

definition plain :: "isa \<Rightarrow> bool" where
  "plain m \<longleftrightarrow> 4 dvd unat (now m)
     \<and> (case decode (fetched_word m) of Some i \<Rightarrow> plain_insn i m | None \<Rightarrow> False)"

text \<open>
  The emulator's buffers end one byte before the ranges they stand for (and the range of the RAM
  ends one byte behind it). An access that touches one of these three bytes is outside every
  buffer; the machine here knows nothing of that.
\<close>

definition clear_of_gaps :: "u32 \<Rightarrow> nat \<Rightarrow> bool" where
  "clear_of_gaps p n \<longleftrightarrow>
     (\<forall>g \<in> {0x200000, 0x1F8003FF, 0x1FC7FFFF}. g < unat p \<or> unat p + n \<le> g)"

fun data_span :: "insn \<Rightarrow> isa \<Rightarrow> (u32 \<times> nat) option" where
  "data_span (Load n s rt base d) m = Some (translate (ea m base d), n)"
| "data_span (Store n rt base d) m = Some (translate (ea m base d), n)"
| "data_span (Load_Part s rt base d) m =
     (let p = translate (ea m base d) in Some (p - of_nat (unat p mod 4), 4))"
| "data_span (Store_Part s rt base d) m =
     (let p = translate (ea m base d) in Some (p - of_nat (unat p mod 4), 4))"
| "data_span _ m = None"

definition in_bounds :: "isa \<Rightarrow> bool" where
  "in_bounds m \<longleftrightarrow> clear_of_gaps (translate (now m)) 4
     \<and> (case decode (fetched_word m) of
          Some i \<Rightarrow> (case data_span i m of Some (p, n) \<Rightarrow> clear_of_gaps p n | None \<Rightarrow> True)
        | None \<Rightarrow> True)"

text \<open>The machine on plain instructions, and on those that stay in bounds too.\<close>

definition plain_step :: "isa \<Rightarrow> isa option" where
  "plain_step m = (if plain m then isa_step m else None)"

definition bounded_step :: "isa \<Rightarrow> isa option" where
  "bounded_step m = (if in_bounds m then plain_step m else None)"

end
