(* ===== verification/Psycho_Disasm.thy ===== *)
theory Psycho_Disasm
  imports Cpu_Exec
begin

text \<open>
  \<^verbatim>\<open>core/disasm.c\<close>: the text of an instruction and the two hooks that trace execution. A
  \<^verbatim>\<open>return\<close> in the source keeps the text set so far, a \<^verbatim>\<open>break\<close> falls through to the line
  that replaces it by "illegal". Printing a null pointer with \<^verbatim>\<open>%s\<close> is undefined.
\<close>

section \<open>Register names\<close>

definition gpr_names :: "string list" where
  "gpr_names =
    [''$zero'', ''$at'', ''$v0'', ''$v1'', ''$a0'', ''$a1'', ''$a2'', ''$a3'',
     ''$t0'', ''$t1'', ''$t2'', ''$t3'', ''$t4'', ''$t5'', ''$t6'', ''$t7'',
     ''$s0'', ''$s1'', ''$s2'', ''$s3'', ''$s4'', ''$s5'', ''$s6'', ''$s7'',
     ''$t8'', ''$t9'', ''$k0'', ''$k1'', ''$gp'', ''$sp'', ''$fp'', ''$ra'']"

primrec cop0_name :: "psycho_cpu_cop0_regs \<Rightarrow> string" where
  "cop0_name CPU_COP0_BPC = ''BPC''"
| "cop0_name CPU_COP0_BDA = ''BDA''"
| "cop0_name CPU_COP0_TAR = ''TAR''"
| "cop0_name CPU_COP0_DCIC = ''DCIC''"
| "cop0_name CPU_COP0_BADA = ''BadA''"
| "cop0_name CPU_COP0_BDAM = ''BDAM''"
| "cop0_name CPU_COP0_BPCM = ''BPCM''"
| "cop0_name CPU_COP0_SR = ''SR''"
| "cop0_name CPU_COP0_CAUSE = ''CAUSE''"
| "cop0_name CPU_COP0_EPC = ''EPC''"
| "cop0_name CPU_COP0_PRID = ''PRID''"

definition all_cop0_regs :: "psycho_cpu_cop0_regs list" where
  "all_cop0_regs =
    [CPU_COP0_BPC, CPU_COP0_BDA, CPU_COP0_TAR, CPU_COP0_DCIC, CPU_COP0_BADA, CPU_COP0_BDAM,
     CPU_COP0_BPCM, CPU_COP0_SR, CPU_COP0_CAUSE, CPU_COP0_EPC, CPU_COP0_PRID]"

text \<open>The entries the initialiser does not name are null pointers.\<close>

definition cop0_cpr :: "nat \<Rightarrow> string option" where
  "cop0_cpr n = map_option cop0_name (List.find (\<lambda>r. cop0_index r = n) all_cop0_regs)"

section \<open>Formats\<close>

abbreviation DISASM where "DISASM \<equiv> PSYCHO_LOG_MODULE_ID_DISASM"

abbreviation n_rs :: "u32 \<Rightarrow> string" where "n_rs i \<equiv> gpr_names ! unat (instr_rs i)"
abbreviation n_rt :: "u32 \<Rightarrow> string" where "n_rt i \<equiv> gpr_names ! unat (instr_rt i)"
abbreviation n_rd :: "u32 \<Rightarrow> string" where "n_rd i \<equiv> gpr_names ! unat (instr_rd i)"
abbreviation n_shamt :: "u32 \<Rightarrow> string" where "n_shamt i \<equiv> fmt_u (unat (instr_shamt i))"
abbreviation n_imm :: "u32 \<Rightarrow> string" where
  "n_imm i \<equiv> ''0x'' @ fmt_0X 4 (unat (instr_imm i))"
abbreviation n_addr :: "u32 \<Rightarrow> string" where "n_addr a \<equiv> ''0x'' @ fmt_0X 8 (unat a)"

definition text1 :: "string \<Rightarrow> string \<Rightarrow> string" where
  "text1 m a = m @ '' '' @ a"

definition text2 :: "string \<Rightarrow> string \<Rightarrow> string \<Rightarrow> string" where
  "text2 m a b = m @ '' '' @ a @ '', '' @ b"

definition text3 :: "string \<Rightarrow> string \<Rightarrow> string \<Rightarrow> string \<Rightarrow> string" where
  "text3 m a b c = m @ '' '' @ a @ '', '' @ b @ '', '' @ c"

definition text_mem :: "string \<Rightarrow> u32 \<Rightarrow> string" where
  "text_mem m i = m @ '' '' @ n_rt i @ '', '' @ n_imm i @ ''('' @ n_rs i @ '')''"

section \<open>Operations\<close>

definition psycho_disasm_trace_instruction_enable :: "psycho_ctx \<Rightarrow> bool \<Rightarrow> psycho_ctx" where
  "psycho_disasm_trace_instruction_enable ctx enable =
     disasm_update (\<lambda>d. d\<lparr>trace_instruction := enable\<rparr>) ctx"

definition set_result :: "psycho_ctx \<Rightarrow> string \<Rightarrow> psycho_ctx option" where
  "set_result ctx s =
     (if length s + 1 \<le> PSYCHO_DISASM_LEN_MAX
      then Some (disasm_update (\<lambda>d. d\<lparr>result := (result d)\<lparr>res_str := s, res_len := length s\<rparr>\<rparr>) ctx)
      else None)"

fun special_text :: "instr_group_special \<Rightarrow> u32 \<Rightarrow> (flow \<times> string) option" where
  "special_text INSTR_SLL i = Some (Return, if i = 0x00000000 then ''nop''
     else text3 ''sll'' (n_rd i) (n_rt i) (n_shamt i))"
| "special_text INSTR_SRL i = Some (Return, text3 ''srl'' (n_rd i) (n_rt i) (n_shamt i))"
| "special_text INSTR_SRA i = Some (Return, text3 ''sra'' (n_rd i) (n_rt i) (n_shamt i))"
| "special_text INSTR_SLLV i = Some (Return, text3 ''sllv'' (n_rd i) (n_rt i) (n_rs i))"
| "special_text INSTR_SRLV i = Some (Break, text3 ''srlv'' (n_rd i) (n_rt i) (n_rs i))"
| "special_text INSTR_SRAV i = Some (Break, text3 ''srav'' (n_rd i) (n_rt i) (n_rs i))"
| "special_text INSTR_JR i = Some (Return, text1 ''jr'' (n_rs i))"
| "special_text INSTR_JALR i = Some (Return, text2 ''jalr'' (n_rd i) (n_rs i))"
| "special_text INSTR_MFHI i = Some (Return, text1 ''mfhi'' (n_rd i))"
| "special_text INSTR_MTHI i = Some (Return, text1 ''mthi'' (n_rs i))"
| "special_text INSTR_MFLO i = Some (Return, text1 ''mflo'' (n_rd i))"
| "special_text INSTR_MTLO i = Some (Return, text1 ''mtlo'' (n_rs i))"
| "special_text INSTR_MULT i = Some (Return, text2 ''mult'' (n_rs i) (n_rt i))"
| "special_text INSTR_MULTU i = Some (Return, text2 ''multu'' (n_rs i) (n_rt i))"
| "special_text INSTR_DIV i = Some (Return, text2 ''div'' (n_rs i) (n_rt i))"
| "special_text INSTR_DIVU i = Some (Return, text2 ''div'' (n_rs i) (n_rt i))"
| "special_text INSTR_ADD i = Some (Return, text3 ''add'' (n_rd i) (n_rs i) (n_rt i))"
| "special_text INSTR_ADDU i = Some (Return, text3 ''addu'' (n_rd i) (n_rs i) (n_rt i))"
| "special_text INSTR_SUB i = Some (Return, text3 ''sub'' (n_rd i) (n_rs i) (n_rt i))"
| "special_text INSTR_SUBU i = Some (Return, text3 ''subu'' (n_rd i) (n_rs i) (n_rt i))"
| "special_text INSTR_AND i = Some (Return, text3 ''and'' (n_rd i) (n_rs i) (n_rt i))"
| "special_text INSTR_OR i = Some (Return, text3 ''or'' (n_rd i) (n_rs i) (n_rt i))"
| "special_text INSTR_XOR i = Some (Return, text3 ''xor'' (n_rd i) (n_rs i) (n_rt i))"
| "special_text INSTR_NOR i = Some (Return, text3 ''nor'' (n_rd i) (n_rs i) (n_rt i))"
| "special_text INSTR_SLT i = Some (Return, text3 ''slt'' (n_rd i) (n_rs i) (n_rt i))"
| "special_text INSTR_SLTU i = Some (Return, text3 ''sltu'' (n_rd i) (n_rs i) (n_rt i))"
| "special_text INSTR_SYSCALL i = None"
| "special_text INSTR_BREAK i = None"

definition disasm_special :: "psycho_ctx \<Rightarrow> u32 \<Rightarrow> (flow \<times> psycho_ctx) option" where
  "disasm_special ctx i =
     (case Option.bind (enum_of special_value all_specials (instr_funct i))
             (\<lambda>f. special_text f i) of
        Some (fl, s) \<Rightarrow> map_option (Pair fl) (set_result ctx s)
      | None \<Rightarrow> Some (Break, ctx))"

definition disasm_bcond :: "psycho_ctx \<Rightarrow> u32 \<Rightarrow> u32 \<Rightarrow> (flow \<times> psycho_ctx) option" where
  "disasm_bcond ctx i addr =
     (case enum_of bcond_value all_bconds (instr_rt i) of
        Some INSTR_BLTZ \<Rightarrow>
          return_after (set_result ctx (text2 ''bltz'' (n_rs i) (n_addr (calc_branch_addr i addr))))
      | Some INSTR_BGEZ \<Rightarrow>
          return_after (set_result ctx (text2 ''bgez'' (n_rs i) (n_addr (calc_branch_addr i addr))))
      | Some INSTR_BLTZAL \<Rightarrow>
          return_after (set_result ctx (text2 ''bltzal'' (n_rs i) (n_addr (calc_branch_addr i addr))))
      | None \<Rightarrow> Some (Break, ctx))"

definition disasm_cop0 :: "psycho_ctx \<Rightarrow> u32 \<Rightarrow> (flow \<times> psycho_ctx) option" where
  "disasm_cop0 ctx i =
     (let rd = unat (instr_rd i)
      in case enum_of cop_value all_cops (instr_rs i) of
        Some INSTR_COP_MF \<Rightarrow> do {
          ctx \<leftarrow> (if cop0_cpr rd = None then LOG_INFO DISASM ctx (''null rd='' @ fmt_u rd)
                 else Some ctx);
          name \<leftarrow> cop0_cpr rd;
          return_after (set_result ctx (text2 ''mfc0'' (n_rt i) name)) }
      | Some INSTR_COP_MT \<Rightarrow> do {
          name \<leftarrow> cop0_cpr rd;
          return_after (set_result ctx (text2 ''mtc0'' name (n_rt i))) }
      | None \<Rightarrow> Some (Break, ctx))"

fun group_text :: "instr_group_op \<Rightarrow> u32 \<Rightarrow> u32 \<Rightarrow> string option" where
  "group_text INSTR_J i addr = Some (text1 ''j'' (n_addr (calc_jmp_addr i addr)))"
| "group_text INSTR_JAL i addr = Some (text1 ''jal'' (n_addr (calc_jmp_addr i addr)))"
| "group_text INSTR_BEQ i addr =
     Some (text3 ''beq'' (n_rs i) (n_rt i) (n_addr (calc_branch_addr i addr)))"
| "group_text INSTR_BNE i addr =
     Some (text3 ''bne'' (n_rs i) (n_rt i) (n_addr (calc_branch_addr i addr)))"
| "group_text INSTR_BLEZ i addr =
     Some (text3 ''blez'' (n_rs i) (n_rt i) (n_addr (calc_branch_addr i addr)))"
| "group_text INSTR_BGTZ i addr =
     Some (text3 ''bgtz'' (n_rs i) (n_rt i) (n_addr (calc_branch_addr i addr)))"
| "group_text INSTR_ADDI i addr = Some (text3 ''addi'' (n_rt i) (n_rs i) (n_imm i))"
| "group_text INSTR_ADDIU i addr = Some (text3 ''addiu'' (n_rt i) (n_rs i) (n_imm i))"
| "group_text INSTR_SLTI i addr = Some (text3 ''slti'' (n_rt i) (n_rs i) (n_imm i))"
| "group_text INSTR_SLTIU i addr = Some (text3 ''sltiu'' (n_rt i) (n_rs i) (n_imm i))"
| "group_text INSTR_ANDI i addr = Some (text3 ''andi'' (n_rt i) (n_rs i) (n_imm i))"
| "group_text INSTR_ORI i addr = Some (text3 ''ori'' (n_rt i) (n_rs i) (n_imm i))"
| "group_text INSTR_XORI i addr = Some (text3 ''xori'' (n_rt i) (n_rs i) (n_imm i))"
| "group_text INSTR_LUI i addr = Some (text2 ''lui'' (n_rt i) (n_imm i))"
| "group_text INSTR_LB i addr = Some (text_mem ''lb'' i)"
| "group_text INSTR_LH i addr = Some (text_mem ''lh'' i)"
| "group_text INSTR_LWL i addr = Some (text_mem ''lwl'' i)"
| "group_text INSTR_LW i addr = Some (text_mem ''lw'' i)"
| "group_text INSTR_LBU i addr = Some (text_mem ''lbu'' i)"
| "group_text INSTR_LHU i addr = Some (text_mem ''lhu'' i)"
| "group_text INSTR_LWR i addr = Some (text_mem ''lwr'' i)"
| "group_text INSTR_SB i addr = Some (text_mem ''sb'' i)"
| "group_text INSTR_SH i addr = Some (text_mem ''sh'' i)"
| "group_text INSTR_SWL i addr = Some (text_mem ''swl'' i)"
| "group_text INSTR_SW i addr = Some (text_mem ''sw'' i)"
| "group_text INSTR_SWR i addr = Some (text_mem ''swr'' i)"
| "group_text _ i addr = None"

definition disasm_group :: "psycho_ctx \<Rightarrow> u32 \<Rightarrow> u32 \<Rightarrow> (flow \<times> psycho_ctx) option" where
  "disasm_group ctx i addr =
     (case enum_of op_value all_ops (instr_op i) of
        Some INSTR_GROUP_SPECIAL \<Rightarrow> disasm_special ctx i
      | Some INSTR_GROUP_BCOND \<Rightarrow> disasm_bcond ctx i addr
      | Some INSTR_GROUP_COP0 \<Rightarrow> disasm_cop0 ctx i
      | Some g \<Rightarrow> (case group_text g i addr of
          Some s \<Rightarrow> return_after (set_result ctx s) | None \<Rightarrow> Some (Break, ctx))
      | None \<Rightarrow> Some (Break, ctx))"

definition psycho_disasm_instr :: "psycho_ctx \<Rightarrow> u32 \<Rightarrow> u32 \<Rightarrow> psycho_ctx option" where
  "psycho_disasm_instr ctx i addr = do {
     (fl, ctx) \<leftarrow> disasm_group ctx i addr;
     case fl of
       Return \<Rightarrow> Some ctx
     | Break \<Rightarrow> set_result ctx (text1 ''illegal'' (n_addr i))
   }"

definition psycho_disasm_trace_begin :: "psycho_ctx \<Rightarrow> psycho_ctx option" where
  "psycho_disasm_trace_begin ctx = do {
     let ctx = disasm_update (\<lambda>d. d\<lparr>result := \<lparr>res_str = [], res_pc = 0, res_len = 0\<rparr>\<rparr>) ctx;
     let ctx = disasm_update (\<lambda>d. d\<lparr>result := (result d)\<lparr>res_pc := pc (cpu ctx)\<rparr>\<rparr>) ctx;
     let paddr = vaddr_to_paddr (pc (cpu ctx));
     (i, ctx) \<leftarrow> psycho_bus_peek_word ctx paddr;
     psycho_disasm_instr ctx i (pc (cpu ctx))
   }"

definition psycho_disasm_trace_end :: "psycho_ctx \<Rightarrow> psycho_ctx option" where
  "psycho_disasm_trace_end ctx = LOG_INFO DISASM ctx
     (''0x'' @ fmt_0X 8 (unat (res_pc (result (disasm ctx)))) @ '': ''
      @ c_str (res_str (result (disasm ctx))))"

section \<open>Lengths\<close>

lemma gpr_names_length: "k < 32 \<Longrightarrow> length (gpr_names ! k) \<le> 5"
proof -
  have "\<forall>s \<in> set gpr_names. length s \<le> 5" by (simp add: gpr_names_def)
  moreover have "length gpr_names = 32" by (simp add: gpr_names_def)
  ultimately show "k < 32 \<Longrightarrow> length (gpr_names ! k) \<le> 5" by (metis nth_mem)
qed

lemma name_lengths:
  "length (n_rs i) \<le> 5" "length (n_rt i) \<le> 5" "length (n_rd i) \<le> 5"
  "length (n_shamt i) \<le> 2"
  by (simp_all add: gpr_names_length length_fmt_u_32)

lemma cop0_cpr_length: "cop0_cpr n = Some s \<Longrightarrow> length s \<le> 5"
proof -
  have "length (cop0_name r) \<le> 5" for r by (cases r) simp_all
  then show "cop0_cpr n = Some s \<Longrightarrow> length s \<le> 5" by (auto simp: cop0_cpr_def)
qed

lemmas text_defs = text1_def text2_def text3_def text_mem_def

lemma special_text_length:
  assumes "special_text f i = Some (fl, s)"
  shows "length s \<le> 40"
  using assms name_lengths [of i]
  by (cases f) (auto simp: text_defs split: if_splits)

lemma group_text_length:
  assumes "group_text g i addr = Some s"
  shows "length s \<le> 40"
  using assms name_lengths [of i] by (cases g) (auto simp: text_defs)

lemma set_result_short [simp]:
  "length s \<le> 40 \<Longrightarrow> set_result ctx s = Some
     (disasm_update (\<lambda>d. d\<lparr>result := (result d)\<lparr>res_str := s, res_len := length s\<rparr>\<rparr>) ctx)"
  by (simp add: set_result_def PSYCHO_DISASM_LEN_MAX_def)

end
