(* ===== verification/Disasm_Facts.thy ===== *)
theory Disasm_Facts
  imports Psycho_Disasm Cpu_Invariant
begin

text \<open>
  The disassembler against the interpreter: which words it can print, how long the texts
  are, and for which words the CPU executes it prints "illegal".
\<close>

section \<open>What the interpreter decodes\<close>

definition decodes :: "u32 \<Rightarrow> bool" where
  "decodes i \<longleftrightarrow> (case enum_of op_value all_ops (instr_op i) of
     None \<Rightarrow> False
   | Some INSTR_GROUP_SPECIAL \<Rightarrow> enum_of special_value all_specials (instr_funct i) \<noteq> None
   | Some INSTR_GROUP_COP0 \<Rightarrow> enum_of cop_value all_cops (instr_rs i) \<noteq> None
       \<or> enum_of cop0_value all_cop0s (instr_funct i) \<noteq> None
   | Some _ \<Rightarrow> True)"

lemma execute_flow:
  assumes "cpu_execute ctx = Some (fl, ctx')"
  shows "fl = Break \<longleftrightarrow> decodes (instr (cpu ctx))"
proof (cases "enum_of op_value all_ops (instr_op (instr (cpu ctx)))")
  case None
  with assms show ?thesis by (auto simp: cpu_execute_def decodes_def return_after_def)
next
  case (Some g)
  with assms show ?thesis
    by (cases g) (auto simp: cpu_execute_def decodes_def return_after_def break_after_def
        exec_special_def exec_cop0_def
        split: option.splits instr_group_cop.splits instr_group_cop0.splits)
qed

section \<open>What the disassembler prints\<close>

definition illegal_text :: "u32 \<Rightarrow> string" where
  "illegal_text i = text1 ''illegal'' (n_addr i)"

text \<open>Words the CPU executes and the disassembler has no text for.\<close>

definition undisassembled :: "u32 \<Rightarrow> bool" where
  "undisassembled i \<longleftrightarrow> (case enum_of op_value all_ops (instr_op i) of
     Some INSTR_GROUP_SPECIAL \<Rightarrow>
       enum_of special_value all_specials (instr_funct i)
         \<in> {Some INSTR_SRLV, Some INSTR_SRAV, Some INSTR_SYSCALL, Some INSTR_BREAK}
   | Some INSTR_GROUP_BCOND \<Rightarrow> enum_of bcond_value all_bconds (instr_rt i) = None
   | Some INSTR_GROUP_COP0 \<Rightarrow> enum_of cop_value all_cops (instr_rs i) = None
       \<and> enum_of cop0_value all_cop0s (instr_funct i) \<noteq> None
   | _ \<Rightarrow> False)"

text \<open>Moves to or from a coprocessor register that has no name in the table.\<close>

definition unnamed_cop0 :: "u32 \<Rightarrow> bool" where
  "unnamed_cop0 i \<longleftrightarrow>
     enum_of op_value all_ops (instr_op i) = Some INSTR_GROUP_COP0
     \<and> enum_of cop_value all_cops (instr_rs i) \<noteq> None
     \<and> unat (instr_rd i) \<notin> {3, 5, 6, 7, 8, 9, 11, 12, 13, 14, 15}"

lemma cop0_cpr_None_iff:
  "cop0_cpr n = None \<longleftrightarrow> n \<notin> {3, 5, 6, 7, 8, 9, 11, 12, 13, 14, 15}"
  by (auto simp: cop0_cpr_def all_cop0_regs_def)

lemma unnamed_cop0_iff:
  "unnamed_cop0 i \<longleftrightarrow> enum_of op_value all_ops (instr_op i) = Some INSTR_GROUP_COP0
     \<and> enum_of cop_value all_cops (instr_rs i) \<noteq> None \<and> cop0_cpr (unat (instr_rd i)) = None"
  unfolding unnamed_cop0_def cop0_cpr_None_iff by (rule refl)

text \<open>A text the source returns with, as against the fall-through.\<close>

fun bcond_mnemonic :: "instr_group_bcond \<Rightarrow> string" where
  "bcond_mnemonic INSTR_BLTZ = ''bltz''"
| "bcond_mnemonic INSTR_BGEZ = ''bgez''"
| "bcond_mnemonic INSTR_BLTZAL = ''bltzal''"

fun cop_text :: "instr_group_cop \<Rightarrow> u32 \<Rightarrow> string" where
  "cop_text INSTR_COP_MF i = text2 ''mfc0'' (n_rt i) (the (cop0_cpr (unat (instr_rd i))))"
| "cop_text INSTR_COP_MT i = text2 ''mtc0'' (the (cop0_cpr (unat (instr_rd i)))) (n_rt i)"

definition disasm_text :: "u32 \<Rightarrow> u32 \<Rightarrow> string option" where
  "disasm_text i addr = (case enum_of op_value all_ops (instr_op i) of
     None \<Rightarrow> None
   | Some INSTR_GROUP_SPECIAL \<Rightarrow>
       (case Option.bind (enum_of special_value all_specials (instr_funct i))
               (\<lambda>f. special_text f i) of
          Some (Return, s) \<Rightarrow> Some s | _ \<Rightarrow> None)
   | Some INSTR_GROUP_BCOND \<Rightarrow>
       map_option (\<lambda>b. text2 (bcond_mnemonic b) (n_rs i) (n_addr (calc_branch_addr i addr)))
         (enum_of bcond_value all_bconds (instr_rt i))
   | Some INSTR_GROUP_COP0 \<Rightarrow>
       map_option (\<lambda>m. cop_text m i) (enum_of cop_value all_cops (instr_rs i))
   | Some g \<Rightarrow> group_text g i addr)"

definition shown_text :: "u32 \<Rightarrow> u32 \<Rightarrow> string" where
  "shown_text i addr = (case disasm_text i addr of Some s \<Rightarrow> s | None \<Rightarrow> illegal_text i)"

definition show_text :: "string \<Rightarrow> psycho_ctx \<Rightarrow> psycho_ctx" where
  "show_text s ctx =
     disasm_update (\<lambda>d. d\<lparr>result := (result d)\<lparr>res_str := s, res_len := length s\<rparr>\<rparr>) ctx"

lemma set_result_show: "length s \<le> 40 \<Longrightarrow> set_result ctx s = Some (show_text s ctx)"
  by (simp add: show_text_def)

lemma show_text_twice [simp]: "show_text s (show_text r ctx) = show_text s ctx"
  by (simp add: show_text_def)

lemma illegal_text_length: "length (illegal_text i) \<le> 40"
  by (simp add: illegal_text_def text_defs)

lemma bcond_text_length: "length m \<le> 6 \<Longrightarrow> length (text2 m (n_rs i) (n_addr a)) \<le> 40"
  using name_lengths [of i] by (simp add: text_defs)

lemma cop0_text_length:
  "cop0_cpr n = Some s \<Longrightarrow> length (text2 ''mfc0'' (n_rt i) s) \<le> 40"
  "cop0_cpr n = Some s \<Longrightarrow> length (text2 ''mtc0'' s (n_rt i)) \<le> 40"
  using name_lengths [of i] cop0_cpr_length [of n s] by (simp_all add: text_defs)

lemma disasm_special_eq:
  "Option.bind (disasm_special ctx i) (\<lambda>(fl, ctx). case fl of Return \<Rightarrow> Some ctx
     | Break \<Rightarrow> set_result ctx (illegal_text i)) =
   Some (show_text (case Option.bind (enum_of special_value all_specials (instr_funct i))
       (\<lambda>f. special_text f i) of Some (Return, s) \<Rightarrow> s | _ \<Rightarrow> illegal_text i) ctx)"
proof (cases "Option.bind (enum_of special_value all_specials (instr_funct i)) (\<lambda>f. special_text f i)")
  case None
  then show ?thesis
    by (simp add: disasm_special_def set_result_show illegal_text_length
        del: set_result_short)
next
  case (Some r)
  obtain fl s where r: "r = (fl, s)" by fastforce
  from Some r have len: "length s \<le> 40"
    by (auto elim!: bind_eq_SomeE dest: special_text_length)
  with Some r show ?thesis
    by (cases fl) (simp_all add: disasm_special_def set_result_show illegal_text_length
        del: set_result_short)
qed

lemma disasm_bcond_eq:
  "Option.bind (disasm_bcond ctx i addr) (\<lambda>(fl, ctx). case fl of Return \<Rightarrow> Some ctx
     | Break \<Rightarrow> set_result ctx (illegal_text i)) =
   Some (show_text (case enum_of bcond_value all_bconds (instr_rt i) of
       Some b \<Rightarrow> text2 (bcond_mnemonic b) (n_rs i) (n_addr (calc_branch_addr i addr))
     | None \<Rightarrow> illegal_text i) ctx)"
  using illegal_text_length [of i]
  by (auto simp: disasm_bcond_def return_after_def set_result_show
      bcond_text_length [simplified]
      simp del: set_result_short split: option.split instr_group_bcond.split)

lemma disasm_cop0_eq:
  "Option.bind (disasm_cop0 ctx i) (\<lambda>(fl, ctx). case fl of Return \<Rightarrow> Some ctx
     | Break \<Rightarrow> set_result ctx (illegal_text i)) =
   (case enum_of cop_value all_cops (instr_rs i) of
      Some m \<Rightarrow>
        (if cop0_cpr (unat (instr_rd i)) = None then None
         else Some (show_text (cop_text m i) ctx))
    | None \<Rightarrow> Some (show_text (illegal_text i) ctx))"
  using illegal_text_length [of i]
  by (cases "cop0_cpr (unat (instr_rd i))")
    (auto simp: disasm_cop0_def return_after_def set_result_show Let_def cop0_text_length
      bind_eq_None_conv simp del: set_result_short
      split: option.split instr_group_cop.split)

lemma group_text_eq:
  assumes "enum_of op_value all_ops (instr_op i) = Some g"
    and "g \<notin> {INSTR_GROUP_SPECIAL, INSTR_GROUP_BCOND, INSTR_GROUP_COP0}"
  obtains s where "group_text g i addr = Some s" "disasm_text i addr = Some s"
    "disasm_group ctx i addr = return_after (set_result ctx s)"
  using assms by (cases g) (auto simp: disasm_text_def disasm_group_def)

lemma psycho_disasm_instr_fold:
  "psycho_disasm_instr ctx i addr = Option.bind (disasm_group ctx i addr)
     (\<lambda>(fl, ctx). case fl of Return \<Rightarrow> Some ctx | Break \<Rightarrow> set_result ctx (illegal_text i))"
  unfolding psycho_disasm_instr_def illegal_text_def by (rule refl)

lemma psycho_disasm_instr_eq:
  "psycho_disasm_instr ctx i addr =
    (if unnamed_cop0 i then None else Some (show_text (shown_text i addr) ctx))"
proof (cases "enum_of op_value all_ops (instr_op i)")
  case None
  then show ?thesis
    using illegal_text_length [of i]
    by (simp add: psycho_disasm_instr_fold disasm_group_def unnamed_cop0_def shown_text_def
        disasm_text_def set_result_show del: set_result_short)
next
  case (Some g)
  consider "g = INSTR_GROUP_SPECIAL" | "g = INSTR_GROUP_BCOND" | "g = INSTR_GROUP_COP0"
    | (other) "g \<notin> {INSTR_GROUP_SPECIAL, INSTR_GROUP_BCOND, INSTR_GROUP_COP0}" by blast
  then show ?thesis
  proof cases
    case 1
    with Some show ?thesis
      using disasm_special_eq [of ctx i]
      by (auto simp: psycho_disasm_instr_fold disasm_group_def unnamed_cop0_def shown_text_def
          disasm_text_def split: option.splits flow.splits)
  next
    case 2
    with Some show ?thesis
      using disasm_bcond_eq [of ctx i addr]
      by (auto simp: psycho_disasm_instr_fold disasm_group_def unnamed_cop0_def shown_text_def
          disasm_text_def split: option.splits)
  next
    case 3
    with Some show ?thesis
      by (simp add: psycho_disasm_instr_fold disasm_group_def unnamed_cop0_iff shown_text_def
          disasm_text_def disasm_cop0_eq split: option.split)
  next
    case other
    obtain s where s: "group_text g i addr = Some s" "disasm_text i addr = Some s"
      "disasm_group ctx i addr = return_after (set_result ctx s)"
      using group_text_eq [OF Some other] by blast
    have "\<not> unnamed_cop0 i" using Some other by (auto simp: unnamed_cop0_def)
    with s group_text_length [OF s(1)] show ?thesis
      by (simp add: psycho_disasm_instr_fold shown_text_def return_after_def set_result_show
          del: set_result_short)
  qed
qed

lemma disasm_text_None_iff:
  "disasm_text i addr = None \<longleftrightarrow> \<not> decodes i \<or> undisassembled i"
proof (cases "enum_of op_value all_ops (instr_op i)")
  case None
  then show ?thesis by (simp add: disasm_text_def decodes_def)
next
  case (Some g)
  have sp: "special_text f i = None \<or> (\<exists>s. special_text f i = Some (Break, s)) \<longleftrightarrow>
      f \<in> {INSTR_SRLV, INSTR_SRAV, INSTR_SYSCALL, INSTR_BREAK}" for f
    by (cases f) auto
  show ?thesis
  proof (cases g)
    case INSTR_GROUP_SPECIAL
    show ?thesis
    proof (cases "enum_of special_value all_specials (instr_funct i)")
      case None
      with Some INSTR_GROUP_SPECIAL show ?thesis
        by (simp add: disasm_text_def decodes_def undisassembled_def)
    next
      case f: (Some f)
      with Some INSTR_GROUP_SPECIAL sp [of f] show ?thesis
        by (auto simp: disasm_text_def decodes_def undisassembled_def
            split: option.splits flow.splits)
    qed
  qed (use Some in \<open>auto simp: disasm_text_def decodes_def undisassembled_def\<close>)
qed

text \<open>No text of the tables is the text of an illegal instruction.\<close>

lemma not_i:
  "special_text f i = Some (Return, r) \<Longrightarrow> hd r \<noteq> CHR ''i''"
  "group_text g i addr = Some r \<Longrightarrow> hd r \<noteq> CHR ''i''"
  "hd (text2 (bcond_mnemonic b) x y) \<noteq> CHR ''i''" "hd (cop_text m i) \<noteq> CHR ''i''"
proof -
  show "special_text f i = Some (Return, r) \<Longrightarrow> hd r \<noteq> CHR ''i''"
    by (cases f) (auto simp: text_defs split: if_splits)
  show "group_text g i addr = Some r \<Longrightarrow> hd r \<noteq> CHR ''i''"
    by (cases g) (auto simp: text_defs)
  show "hd (text2 (bcond_mnemonic b) x y) \<noteq> CHR ''i''"
    by (cases b) (auto simp: text_defs)
  show "hd (cop_text m i) \<noteq> CHR ''i''" by (cases m) (auto simp: text_defs)
qed

text \<open>Where a text comes from.\<close>

lemma disasm_text_cases:
  assumes "disasm_text i addr = Some s"
  obtains f where "special_text f i = Some (Return, s)"
  | b where "s = text2 (bcond_mnemonic b) (n_rs i) (n_addr (calc_branch_addr i addr))"
  | m where "s = cop_text m i" "enum_of op_value all_ops (instr_op i) = Some INSTR_GROUP_COP0"
      "enum_of cop_value all_cops (instr_rs i) = Some m"
  | g where "group_text g i addr = Some s"
proof (cases "enum_of op_value all_ops (instr_op i)")
  case None
  with assms show ?thesis by (simp add: disasm_text_def)
next
  case g: (Some g)
  consider "g = INSTR_GROUP_SPECIAL" | "g = INSTR_GROUP_BCOND" | "g = INSTR_GROUP_COP0"
    | (other) "g \<notin> {INSTR_GROUP_SPECIAL, INSTR_GROUP_BCOND, INSTR_GROUP_COP0}" by blast
  then show ?thesis
  proof cases
    case 1
    with assms g that(1) show ?thesis
      by (auto simp: disasm_text_def elim!: bind_eq_SomeE split: option.splits flow.splits)
  next
    case 2
    with assms g that(2) show ?thesis by (auto simp: disasm_text_def)
  next
    case 3
    with assms g that(3) show ?thesis by (auto simp: disasm_text_def)
  next
    case other
    with assms g that(4) show ?thesis
      using group_text_eq [OF g other, of addr] by (metis option.inject)
  qed
qed

lemma disasm_text_not_illegal:
  assumes "disasm_text i addr = Some s"
  shows "s \<noteq> illegal_text i"
proof -
  have "hd s \<noteq> CHR ''i''"
    by (rule disasm_text_cases [OF assms]) (use not_i in blast)+
  then show ?thesis by (auto simp: illegal_text_def text1_def)
qed

lemma shown_text_illegal_iff:
  "shown_text i addr = illegal_text i \<longleftrightarrow> \<not> decodes i \<or> undisassembled i"
  using disasm_text_None_iff [of i addr] disasm_text_not_illegal [of i addr]
  by (auto simp: shown_text_def split: option.splits)

lemma shown_text_length:
  assumes "\<not> unnamed_cop0 i"
  shows "length (shown_text i addr) \<le> 40"
proof (cases "disasm_text i addr")
  case None
  then show ?thesis by (simp add: shown_text_def illegal_text_length)
next
  case (Some s)
  have "length s \<le> 40"
  proof (rule disasm_text_cases [OF Some])
    fix f assume "special_text f i = Some (Return, s)"
    then show "length s \<le> 40" by (rule special_text_length)
  next
    fix b assume s: "s = text2 (bcond_mnemonic b) (n_rs i) (n_addr (calc_branch_addr i addr))"
    have "length (bcond_mnemonic b) \<le> 6" by (cases b) simp_all
    then show "length s \<le> 40" unfolding s by (rule bcond_text_length)
  next
    fix m assume s: "s = cop_text m i"
      and op: "enum_of op_value all_ops (instr_op i) = Some INSTR_GROUP_COP0"
        "enum_of cop_value all_cops (instr_rs i) = Some m"
    then have "cop0_cpr (unat (instr_rd i)) \<noteq> None"
      using assms cop0_cpr_None_iff by (auto simp: unnamed_cop0_def)
    then show "length s \<le> 40" unfolding s by (cases m) (auto dest: cop0_text_length)
  next
    fix g assume "group_text g i addr = Some s"
    then show "length s \<le> 40" by (rule group_text_length)
  qed
  with Some show ?thesis by (simp add: shown_text_def)
qed

end
