(* ===== verification/Cpu_Events.thy ===== *)
theory Cpu_Events
  imports Cpu_Invariant Disasm_Facts
begin

text \<open>
  The calls of the host's callback during a step of the CPU: log messages only, followed by
  one report of an illegal instruction exactly when the fetched word does not decode. The
  disassembler's lines are told from all other messages.
\<close>

definition is_log :: "psycho_event \<Rightarrow> bool" where
  "is_log ev \<longleftrightarrow> (\<exists>msg. ev = PSYCHO_EVENT_LOG_MESSAGE msg \<and> msg_id msg \<noteq> DISASM)"

definition logs_only :: "psycho_ctx \<Rightarrow> psycho_ctx \<Rightarrow> bool" where
  "logs_only s t \<longleftrightarrow> (\<exists>evs. event_trace t = event_trace s @ evs \<and> (\<forall>ev \<in> set evs. is_log ev))"

lemma logs_only_eq: "event_trace t = event_trace s \<Longrightarrow> logs_only s t"
  by (simp add: logs_only_def)

lemma logs_only_refl [simp, intro]: "logs_only s s"
  by (rule logs_only_eq) simp

lemma logs_only_trans: "logs_only s t \<Longrightarrow> logs_only t u \<Longrightarrow> logs_only s u"
  by (fastforce simp: logs_only_def)

lemma is_log_event [simp]: "is_log (log_event m l b) \<longleftrightarrow> m \<noteq> DISASM" "\<not> is_log PSYCHO_EVENT_CPU_ILLEGAL"
  "\<not> is_log (PSYCHO_EVENT_TTY_MESSAGE d)"
  by (simp_all add: is_log_def log_event_def)

lemma logs_only_event: "is_log ev \<Longrightarrow> logs_only s t \<Longrightarrow> logs_only s (event_cb t ev)"
  by (fastforce simp: logs_only_def)

lemma logs_only_log_emit [simp, intro]: "m \<noteq> DISASM \<Longrightarrow> logs_only s t \<Longrightarrow> logs_only s (log_emit m l t b)"
  by (simp add: log_emit_def logs_only_event)

lemma logs_only_warn_if [simp, intro]: "logs_only s t \<Longrightarrow> logs_only s (warn_if w t b)"
  by (simp add: warn_if_def)

lemma logs_only_cpu_update [simp]: "logs_only s (cpu_update f t) = logs_only s t"
  "logs_only (cpu_update f s) t = logs_only s t"
  by (simp_all add: logs_only_def)

lemma logs_only_bp_check [simp]: "logs_only s t \<Longrightarrow> logs_only s (bp_check t v)"
  by (simp add: bp_check_def)

section \<open>Handlers\<close>

lemma special_op_logs: "special_op f ctx = Some ctx' \<Longrightarrow> logs_only ctx ctx'"
  by (cases f) (auto simp: op_defs helper_eqs Let_def split: if_splits prod.splits)

lemma imm_op_logs:
  "op_BCOND ctx = Some ctx' \<Longrightarrow> logs_only ctx ctx'" "op_MFC0 ctx = Some ctx' \<Longrightarrow> logs_only ctx ctx'"
  "op_MTC0 ctx = Some ctx' \<Longrightarrow> logs_only ctx ctx'" "op_RFE ctx = Some ctx' \<Longrightarrow> logs_only ctx ctx'"
  "op_J ctx = Some ctx' \<Longrightarrow> logs_only ctx ctx'" "op_JAL ctx = Some ctx' \<Longrightarrow> logs_only ctx ctx'"
  "op_BEQ ctx = Some ctx' \<Longrightarrow> logs_only ctx ctx'" "op_BNE ctx = Some ctx' \<Longrightarrow> logs_only ctx ctx'"
  "op_BLEZ ctx = Some ctx' \<Longrightarrow> logs_only ctx ctx'" "op_BGTZ ctx = Some ctx' \<Longrightarrow> logs_only ctx ctx'"
  "op_ADDI ctx = Some ctx' \<Longrightarrow> logs_only ctx ctx'" "op_ADDIU ctx = Some ctx' \<Longrightarrow> logs_only ctx ctx'"
  "op_SLTI ctx = Some ctx' \<Longrightarrow> logs_only ctx ctx'" "op_SLTIU ctx = Some ctx' \<Longrightarrow> logs_only ctx ctx'"
  "op_ANDI ctx = Some ctx' \<Longrightarrow> logs_only ctx ctx'" "op_ORI ctx = Some ctx' \<Longrightarrow> logs_only ctx ctx'"
  "op_XORI ctx = Some ctx' \<Longrightarrow> logs_only ctx ctx'" "op_LUI ctx = Some ctx' \<Longrightarrow> logs_only ctx ctx'"
  by (auto simp: imm_op_defs helper_eqs Let_def split: if_splits prod.splits)

context bus_reader begin

lemma load_logs:
  assumes "load ctx p = Some (x, ctx')"
  shows "logs_only ctx ctx'"
  by (rule load_ctx [OF assms]) auto

end

context bus_writer begin

lemma store_logs:
  assumes "store ctx p x = Some ctx'"
  shows "logs_only ctx ctx'"
  by (rule store_ctx [OF assms]) (auto intro: logs_only_eq)

end

lemma reg_load_logs: "gpr_set_delayed ctx r x = Some ctx' \<Longrightarrow> logs_only ctx ctx'"
  by (auto simp: gpr_set_delayed_eq split: if_splits)

lemma raise_logs: "raise_exception ctx e = Some ctx' \<Longrightarrow> logs_only ctx ctx'"
  by (auto simp: raise_exception_eq)

lemma bp_check_logs [dest!]: "logs_only (bp_check s v) t \<Longrightarrow> logs_only s t"
  using logs_only_trans [OF logs_only_bp_check [OF logs_only_refl]] by blast

lemma mem_op_logs:
  "op_LB ctx = Some ctx' \<Longrightarrow> logs_only ctx ctx'" "op_LH ctx = Some ctx' \<Longrightarrow> logs_only ctx ctx'"
  "op_LWL ctx = Some ctx' \<Longrightarrow> logs_only ctx ctx'" "op_LW ctx = Some ctx' \<Longrightarrow> logs_only ctx ctx'"
  "op_LBU ctx = Some ctx' \<Longrightarrow> logs_only ctx ctx'" "op_LHU ctx = Some ctx' \<Longrightarrow> logs_only ctx ctx'"
  "op_LWR ctx = Some ctx' \<Longrightarrow> logs_only ctx ctx'" "op_SB ctx = Some ctx' \<Longrightarrow> logs_only ctx ctx'"
  "op_SH ctx = Some ctx' \<Longrightarrow> logs_only ctx ctx'" "op_SWL ctx = Some ctx' \<Longrightarrow> logs_only ctx ctx'"
  "op_SW ctx = Some ctx' \<Longrightarrow> logs_only ctx ctx'" "op_SWR ctx = Some ctx' \<Longrightarrow> logs_only ctx ctx'"
  by (auto simp: mem_op_defs get_phys_addr_eq Let_def elim!: bind_eq_SomeE split: if_splits
      dest!: byte_port.load_logs half_port.load_logs word_port.load_logs byte_port.store_logs
        half_port.store_logs word_port.store_logs reg_load_logs raise_logs
      elim: logs_only_trans)

section \<open>The step\<close>

text \<open>Log messages, then the report of an illegal instruction if \<open>b\<close>.\<close>

definition reports :: "bool \<Rightarrow> psycho_ctx \<Rightarrow> psycho_ctx \<Rightarrow> bool" where
  "reports b s t \<longleftrightarrow> (\<exists>evs. event_trace t =
     event_trace s @ evs @ (if b then [PSYCHO_EVENT_CPU_ILLEGAL] else [])
     \<and> (\<forall>ev \<in> set evs. is_log ev))"

lemma reports_False: "reports False s t = logs_only s t"
  by (simp add: reports_def logs_only_def)

lemma logs_only_reports: "logs_only s t \<Longrightarrow> reports b t u \<Longrightarrow> reports b s u"
  by (fastforce simp: reports_def logs_only_def)

lemma illegal_reports:
  assumes "illegal ctx = Some ctx'"
  shows "reports True ctx ctx'"
proof -
  have "logs_only ctx (log_emit CPU PSYCHO_LOG_LEVEL_ERROR ctx
    (''Illegal instruction trapped: 0x'' @ fmt_0X 8 (unat (instr (cpu ctx)))))" by auto
  then show ?thesis using assms by (auto simp: illegal_eq reports_def logs_only_def)
qed

lemma execute_logs:
  assumes "cpu_execute ctx = Some (Break, ctx')"
  shows "logs_only ctx ctx'"
proof -
  have g: "group_op g ctx = Some (Break, ctx') \<Longrightarrow> logs_only ctx ctx'" for g
    by (cases g) (auto simp: break_after_def return_after_def exec_special_def exec_cop0_def
        split: option.splits instr_group_cop.splits instr_group_cop0.splits
        intro: special_op_logs imm_op_logs mem_op_logs)
  show ?thesis
    using g assms by (auto simp: cpu_execute_def return_after_def split: option.splits)
qed

lemma fetch_logs:
  assumes "cpu_shape (cpu ctx)" "cpu_fetch ctx = Some ctx'"
  shows "logs_only ctx ctx'"
proof -
  obtain w ctx1 where
    ld: "psycho_bus_load_word (pre_fetch ctx) (vaddr_to_paddr (fetch_pc (cpu ctx))) = Some (w, ctx1)"
    and ctx': "ctx' = cpu_update (after_fetch w) ctx1"
    using cpu_fetch_Some [OF assms] by blast
  have "logs_only ctx (pre_fetch ctx)" by (auto simp: pre_fetch_def Let_def)
  with word_port.load_logs [OF ld] show ?thesis unfolding ctx'
    by (auto intro: logs_only_trans)
qed

definition fetched_instr :: "psycho_ctx \<Rightarrow> u32" where
  "fetched_instr ctx = (case cpu_fetch ctx of Some c \<Rightarrow> instr (cpu c) | None \<Rightarrow> 0)"

lemma cpu_step_reports:
  assumes "cpu_inv ctx" "psycho_cpu_step ctx = Some ctx'"
  shows "reports (\<not> decodes (fetched_instr ctx)) ctx ctx'"
proof -
  have sh: "cpu_shape (cpu ctx)" using assms(1) by (simp add: cpu_inv_def)
  from assms(2) obtain c fl d where f: "cpu_fetch ctx = Some c"
    and e: "cpu_execute c = Some (fl, d)" and r: "ctx' = (case fl of Return \<Rightarrow> d
      | Break \<Rightarrow> cpu_update (\<lambda>c. c\<lparr>gpr := (gpr c)[0 := 0]\<rparr>) d)"
    by (auto simp: psycho_cpu_step_def elim!: bind_eq_SomeE split: flow.splits)
  have "decodes (fetched_instr ctx) \<longleftrightarrow> fl = Break"
    using execute_flow [OF e] by (simp add: fetched_instr_def f)
  moreover have "reports (fl \<noteq> Break) c ctx'"
  proof (cases fl)
    case Break
    with e r show ?thesis by (auto simp: reports_False dest: execute_logs)
  next
    case Return
    with e r execute_Return [of c d] show ?thesis by (simp add: illegal_reports)
  qed
  ultimately show ?thesis
    using logs_only_reports [OF fetch_logs [OF sh f]] by simp
qed

end
