(* ===== verification/Cpu_Control.thy ===== *)
theory Cpu_Control
  imports Cpu_Events
begin

text \<open>
  Control flow of the interpreter: branch targets and conditions, jumps and links,
  exceptions and the return from them, and the load delay slot.
\<close>

section \<open>Branch targets\<close>

lemma scast_u16_u32: "(scast (w :: u16) :: u32) = word_of_int (sint w)"
  by (metis of_int_sint)

lemma shifted_imm: "ucast (push_bit 2 (ucast w :: u32)) = (word_of_int (4 * sint w) :: u16)"
  for w :: u16
proof -
  have "word_of_int (4 * sint w) = (4 :: u16) * w"
    by (metis of_int_mult of_int_numeral of_int_sint scast_id)
  moreover have "(4 :: u16) * w = push_bit 2 w" by (simp add: push_bit_eq_mult mult.commute)
  moreover have "ucast (push_bit 2 (ucast w :: u32)) = (push_bit 2 w :: u16)"
    by (rule bit_word_eqI) (auto simp: bit_simps)
  ultimately show ?thesis by simp
qed

lemma small_word_of_int_eq:
  assumes "- (2 ^ 30) \<le> a" "a < 2 ^ 30" "- (2 ^ 30) \<le> b" "b < 2 ^ 30"
  shows "(word_of_int a :: u32) = word_of_int b \<longleftrightarrow> a = b"
proof -
  have "sint (word_of_int x :: u32) = x" if "- (2 ^ 30) \<le> x" "x < 2 ^ 30" for x
    unfolding sint_sbintrunc' using that by (intro signed_take_bit_int_eq_self) simp_all
  then show ?thesis using assms by metis
qed

lemma calc_branch_addr_value:
  "calc_branch_addr i addr =
     word_of_int (sint (word_of_int (4 * sint (instr_imm i)) :: u16)) + addr + 4"
  by (simp only: calc_branch_addr_def Let_def sign_ext_16_32_def shifted_imm scast_u16_u32)

lemma sint_shifted_iff:
  "sint (word_of_int (4 * s) :: u16) = 4 * s \<longleftrightarrow> - 8192 \<le> s \<and> s < 8192"
proof
  assume "sint (word_of_int (4 * s) :: u16) = 4 * s"
  then show "- 8192 \<le> s \<and> s < 8192"
    using sint_ge [of "word_of_int (4 * s) :: u16"] sint_less [of "word_of_int (4 * s) :: u16"]
    by simp
next
  assume "- 8192 \<le> s \<and> s < 8192"
  then show "sint (word_of_int (4 * s) :: u16) = 4 * s"
    unfolding sint_sbintrunc' by (intro signed_take_bit_int_eq_self) simp_all
qed

text \<open>
  C17: the target of a conditional branch is four times the immediate behind the delay slot
  exactly when the shifted immediate still fits 16 bits.
\<close>

theorem branch_target_iff:
  "calc_branch_addr i addr = addr + 4 + word_of_int (4 * sint (instr_imm i))
     \<longleftrightarrow> - 8192 \<le> sint (instr_imm i) \<and> sint (instr_imm i) < 8192"
proof -
  let ?s = "sint (instr_imm i)"
  let ?x = "word_of_int (4 * ?s) :: u16"
  have s: "- 32768 \<le> ?s" "?s < 32768"
    using sint_ge [of "instr_imm i"] sint_less [of "instr_imm i"] by simp_all
  have x: "- 32768 \<le> sint ?x" "sint ?x < 32768"
    using sint_ge [of ?x] sint_less [of ?x] by simp_all
  have "calc_branch_addr i addr = addr + 4 + word_of_int (4 * ?s)
      \<longleftrightarrow> (word_of_int (sint ?x) :: u32) = word_of_int (4 * ?s)"
    unfolding calc_branch_addr_value by (simp add: algebra_simps)
  also have "\<dots> \<longleftrightarrow> sint ?x = 4 * ?s"
    using s x by (intro small_word_of_int_eq) simp_all
  finally show ?thesis by (simp only: sint_shifted_iff)
qed

section \<open>Branches\<close>

text \<open>The conditions of the branches, over the integers; nothing for other instructions.\<close>

fun branch_cond :: "instr_group_op \<Rightarrow> psycho_ctx \<Rightarrow> bool option" where
  "branch_cond INSTR_BEQ ctx = Some (unat (gpr_rs ctx) = unat (gpr_rt ctx))"
| "branch_cond INSTR_BNE ctx = Some (unat (gpr_rs ctx) \<noteq> unat (gpr_rt ctx))"
| "branch_cond INSTR_BLEZ ctx = Some (sint (gpr_rs ctx) \<le> 0)"
| "branch_cond INSTR_BGTZ ctx = Some (0 < sint (gpr_rs ctx))"
| "branch_cond INSTR_GROUP_BCOND ctx =
     Some (if odd (m_rt ctx) then 0 \<le> sint (gpr_rs ctx) else sint (gpr_rs ctx) < 0)"
| "branch_cond _ ctx = None"

definition branch_links :: "instr_group_op \<Rightarrow> psycho_ctx \<Rightarrow> bool" where
  "branch_links g ctx \<longleftrightarrow> g = INSTR_GROUP_BCOND \<and> (m_rt ctx = 16 \<or> m_rt ctx = 17)"

lemma sign_bit_xor: "(a XOR push_bit 31 b) <s 0 \<longleftrightarrow> bit a 31 \<noteq> bit b 0" for a b :: u32
proof -
  have s: "w <s 0 \<longleftrightarrow> bit w 31" for w :: u32
    using bit_last_iff [of w] by (simp add: word_sless_alt)
  show ?thesis unfolding s by (simp add: bit_xor_iff bit_push_bit_iff del: bit_0)
qed

lemma bcond_taken:
  "(gpr_rs ctx XOR push_bit 31 (instr_rt (instr (cpu ctx)))) <s 0 \<longleftrightarrow>
     (if odd (m_rt ctx) then 0 \<le> sint (gpr_rs ctx) else sint (gpr_rs ctx) < 0)"
proof -
  have "bit w 31 \<longleftrightarrow> sint w < 0" for w :: u32 using bit_last_iff [of w] by simp
  moreover have "bit w 0 \<longleftrightarrow> odd (unat w)" for w :: u32
    using bit_unsigned_iff [of w 0, where ?'a = nat] by (simp add: bit_0)
  ultimately show ?thesis by (auto simp: sign_bit_xor simp del: bit_0)
qed

lemma link_field: "w AND 0x1E = 0x10 \<longleftrightarrow> unat w = 16 \<or> unat w = 17"
  if "unat w < 32" for w :: u32
proof -
  have w: "w = word_of_nat (unat w)" by simp
  show ?thesis
    by (subst w, rule nat_less_32_cases [OF that, of "\<lambda>n. (word_of_nat n :: u32) AND 0x1E = 0x10
      \<longleftrightarrow> n = 16 \<or> n = 17"]) simp_all
qed

lemma branch_if_result:
  "\<exists>c. branch_if ctx b = Some c \<and> cpu c = branch_entry b (cpu ctx)"
  by (auto simp: branch_if_eq branch_entry_def warn_if_def intro!: psycho_cpu.equality)

text \<open>
  C16: a conditional branch decides by the signed or unsigned values of its registers, leaves
  the delay slot next, and links only in the two encodings that say so. In a delay slot the
  target is 12 bytes further.
\<close>

theorem branch_semantics:
  assumes "branch_cond g ctx = Some b" "cpu_shape (cpu ctx)"
  shows "\<exists>c. group_op g ctx = Some (Break, c) \<and> next_in_branch_delay_slot (cpu c)
    \<and> pc (cpu c) = pc (cpu ctx)
    \<and> next_pc (cpu c) = (if b then calc_branch_addr (instr (cpu ctx))
          (curr_pc (cpu ctx) + (if in_branch_delay_slot (cpu ctx) then 12 else 0))
        else next_pc (cpu ctx))
    \<and> gpr (cpu c) = (if branch_links g ctx
        then (gpr (cpu ctx))[31 := curr_pc (cpu ctx) + 8] else gpr (cpu ctx))"
proof -
  have link: "instr_rt (instr (cpu ctx)) AND 0x1E = 0x10 \<longleftrightarrow> m_rt ctx = 16 \<or> m_rt ctx = 17"
    by (rule link_field) simp
  have simple: "\<exists>c. break_after (branch_if ctx b') = Some (Break, c)
      \<and> cpu c = branch_entry b' (cpu ctx)" for b'
    using branch_if_result [of ctx b'] by (auto simp: break_after_def)
  show ?thesis
  proof (cases "g = INSTR_GROUP_BCOND")
    case True
    then have b: "b = ((gpr_rs ctx XOR push_bit 31 (instr_rt (instr (cpu ctx)))) <s 0)"
      using assms(1) by (simp add: bcond_taken)
    let ?l = "m_rt ctx = 16 \<or> m_rt ctx = 17"
    define d where "d = (if ?l then gpr_set ctx (gpr_index CPU_GPR_RA) (curr_pc (cpu ctx) + 4 * 2) else ctx)"
    have "op_BCOND ctx = branch_if d b"
      unfolding op_BCOND_def Let_def b link d_def by (rule refl)
    moreover obtain c where "branch_if d b = Some c" "cpu c = branch_entry b (cpu d)"
      using branch_if_result by blast
    ultimately show ?thesis
      using True by (auto simp: break_after_def branch_entry_def d_def gpr_set_eq reg_write_def
          branch_links_def)
  next
    case False
    then have "group_op g ctx = break_after (branch_if ctx b)"
      using assms(1) by (cases g) (auto simp: op_BEQ_def op_BNE_def op_BLEZ_def op_BGTZ_def
          word_sle_eq word_sless_alt word_unat_eq_iff)
    with simple [of b] False show ?thesis by (auto simp: branch_entry_def branch_links_def)
  qed
qed

text \<open>\<^verbatim>\<open>bgezal $a0, -1\<close> with \<^verbatim>\<open>$a0 = 7\<close>.\<close>

lemma branch_semantics_witness:
  "\<exists>c. group_op INSTR_GROUP_BCOND (instr_ctx 0x0491FFFF ((replicate 32 0)[4 := 7])) = Some (Break, c)
     \<and> next_pc (cpu c) = 0xBFC00000 \<and> gpr (cpu c) ! 31 = 0xBFC00008"
proof -
  let ?ctx = "instr_ctx 0x0491FFFF ((replicate 32 0)[4 := 7])"
  have b: "branch_cond INSTR_GROUP_BCOND ?ctx = Some True"
    by (simp add: instr_rs_def instr_rt_def)
  have sh: "cpu_shape (cpu ?ctx)" by (simp add: cpu_shape_def CPU_GPR_NUM_def CPU_COP0_NUM_def)
  have l: "branch_links INSTR_GROUP_BCOND ?ctx" by (simp add: branch_links_def instr_rt_def)
  have t: "calc_branch_addr 0x0491FFFF 0xBFC00000 = 0xBFC00000"
    by (simp add: calc_branch_addr_def instr_imm_def sign_ext_16_32_def)
  show ?thesis
    using branch_semantics [OF b sh] by (force simp: l t RESET_PC_def simp del: group_op.simps)
qed

section \<open>Jumps\<close>

text \<open>
  A jump leaves the delay slot next and the target behind it, with the upper four bits of
  the jump's own address for the immediate forms; the linking forms write the address behind
  the delay slot; \<^verbatim>\<open>JALR\<close> reads its target before it links and traps a misaligned one.
\<close>

lemma jump_semantics:
  "(\<exists>c. op_J ctx = Some c
      \<and> cpu c = jump_entry (calc_jmp_addr (instr (cpu ctx)) (curr_pc (cpu ctx))) (cpu ctx))
    \<and> (\<exists>c. op_JAL ctx = Some c
      \<and> cpu c = jump_entry (calc_jmp_addr (instr (cpu ctx)) (curr_pc (cpu ctx)))
          (reg_write 31 (curr_pc (cpu ctx) + 8) (cpu ctx)))
    \<and> (\<exists>c. op_JR ctx = Some c \<and> cpu c = jump_entry (gpr_rs ctx) (cpu ctx))
    \<and> (\<exists>c. op_JALR ctx = Some c \<and> cpu c =
        (let linked = reg_write (m_rd ctx) (curr_pc (cpu ctx) + 8) (cpu ctx)
         in if 4 dvd unat (gpr_rs ctx) then jump_entry (gpr_rs ctx) linked
            else exception_entry EXCEPTION_ADEL linked))"
proof -
  have al: "w AND 3 = 0 \<longleftrightarrow> 4 dvd unat w" for w :: u32
    by (simp add: and_3_eq_0_iff dvd_eq_mod_eq_0)
  have rw: "instr (reg_write r x c) = instr c" "curr_pc (reg_write r x c) = curr_pc c" for r x c
    by (simp_all add: reg_write_def)
  show ?thesis
    by (simp add: op_J_def op_JAL_def op_JR_def op_JALR_def jmp_eq gpr_set_eq raise_exception_eq
        Let_def al rw)
qed

lemma fetch_fields:
  assumes "cpu_shape (cpu ctx)" "cpu_fetch ctx = Some c" "pc (cpu ctx) AND 3 = 0"
  shows "curr_pc (cpu c) = pc (cpu ctx)" "pc (cpu c) = next_pc (cpu ctx)"
    "next_pc (cpu c) = next_pc (cpu ctx) + 4" "ld_next (cpu c) = ld_pend (cpu ctx)"
    "gpr (cpu c) = (gpr (cpu ctx))[ld_dst (ld_next (cpu ctx)) := ld_val (ld_next (cpu ctx))]"
    "in_branch_delay_slot (cpu c) = next_in_branch_delay_slot (cpu ctx)"
    "cop0 (cpu c) = cop0 (cpu ctx)" "bus c = bus ctx"
  by (rule cpu_fetch_Some [OF assms(1,2)]; simp add: after_fetch_def assms(3) fetch_pc_def)+

lemma step_after_fetch:
  assumes "cpu_fetch ctx = Some c" "cpu_execute c = Some (Break, d)"
  shows "psycho_cpu_step ctx = Some (cpu_update (\<lambda>c. c\<lparr>gpr := (gpr c)[0 := 0]\<rparr>) d)"
  using assms by (simp add: psycho_cpu_step_def)

text \<open>
  After a step that executes \<^verbatim>\<open>J\<close> or \<^verbatim>\<open>JAL\<close> the next instruction is the one behind it, in
  its delay slot, and the one after that is the target.
\<close>

lemma jump_delay_slot:
  assumes "cpu_inv ctx" "pc (cpu ctx) AND 3 = 0" "psycho_cpu_step ctx = Some c1"
    and "instr_op (fetched_instr ctx) = op_value INSTR_J \<or> instr_op (fetched_instr ctx) = op_value INSTR_JAL"
  shows "pc (cpu c1) = next_pc (cpu ctx)
    \<and> next_pc (cpu c1) = calc_jmp_addr (fetched_instr ctx) (pc (cpu ctx))
    \<and> next_in_branch_delay_slot (cpu c1)"
proof -
  have sh: "cpu_shape (cpu ctx)" using assms(1) by (simp add: cpu_inv_def)
  obtain c where c: "cpu_fetch ctx = Some c"
    using assms(3) by (auto simp: psycho_cpu_step_def elim!: bind_eq_SomeE)
  note f = fetch_fields [OF sh c assms(2)]
  have i: "instr (cpu c) = fetched_instr ctx" by (simp add: fetched_instr_def c)
  obtain d where d: "cpu_execute c = Some (Break, d)" "pc (cpu d) = pc (cpu c)"
    "next_pc (cpu d) = calc_jmp_addr (instr (cpu c)) (curr_pc (cpu c))"
    "next_in_branch_delay_slot (cpu d)"
  proof (cases "instr_op (fetched_instr ctx) = op_value INSTR_J")
    case True
    then have "cpu_execute c = break_after (op_J c)"
      by (simp add: cpu_execute_def i group_op.enum_of_value del: op_value.simps)
    then show thesis using that by (simp add: op_J_def jmp_eq break_after_def jump_entry_def)
  next
    case False
    then have "cpu_execute c = break_after (op_JAL c)"
      using assms(4) by (simp add: cpu_execute_def i group_op.enum_of_value del: op_value.simps)
    then show thesis
      using that by (simp add: op_JAL_def jmp_eq break_after_def jump_entry_def gpr_set_eq
          reg_write_def)
  qed
  then show ?thesis
    using step_after_fetch [OF c d(1)] assms(3) f i by simp
qed

text \<open>\<^verbatim>\<open>j 0x100\<close> at address 0.\<close>

lemma fetch_program:
  assumes "cpu_shape (cpu ctx)" "ram (bus ctx) = \<lparr>buf_size = 0x200000, buf_byte = ram_words ws\<rparr>"
    and "k < length ws" "4 * k + 4 \<le> 0x200000" "unat (pc (cpu ctx)) = 4 * k"
  shows "cpu_fetch ctx = Some (cpu_update (after_fetch (ws ! k)) (pre_fetch ctx))"
proof -
  let ?pc = "pc (cpu ctx)"
  have aligned: "?pc AND 3 = 0" using assms(5) by (simp add: and_3_eq_0_iff)
  have "unat (?pc AND 0x1FFFFFFF) = unat ?pc mod 2 ^ 29"
    using and_mask_take_bit [of ?pc 29] unat_take_bit [of 29 ?pc]
    by (simp add: mask_numerals(11) take_bit_eq_mod)
  also have "\<dots> = unat ?pc" using assms(4,5) by simp
  finally have "unat (?pc AND 0x1FFFFFFF) = unat ?pc" .
  then have "vaddr_to_paddr ?pc = ?pc" by (simp add: vaddr_to_paddr_def word_unat_eq_iff)
  then have "psycho_bus_load_word (pre_fetch ctx) (vaddr_to_paddr (fetch_pc (cpu ctx)))
      = Some (ws ! k, pre_fetch ctx)"
    using assms aligned load_word_program [of "pre_fetch ctx" ws k] by (simp add: fetch_pc_def)
  then show ?thesis by (simp add: cpu_fetch_eq [OF assms(1)])
qed

lemma fetch_program_first:
  assumes "length regs = 32" "regs ! 0 = 0"
  shows "cpu_fetch (program_ctx (w # ws) regs) = Some (cpu_update (after_fetch w)
    (pre_fetch (program_ctx (w # ws) regs)))"
proof -
  have "cpu_shape (cpu (program_ctx (w # ws) regs))"
    using program_inv [OF assms] by (simp only: cpu_inv_def)
  then show ?thesis
    using fetch_program [of "program_ctx (w # ws) regs" "w # ws" 0] by simp
qed

lemma fetched_program_first [simp]:
  "length regs = 32 \<Longrightarrow> regs ! 0 = 0 \<Longrightarrow> fetched_instr (program_ctx (w # ws) regs) = w"
  by (simp add: fetched_instr_def fetch_program_first after_fetch_def)

text \<open>A program whose first word neither fetches nor loads out of bounds takes its step.\<close>

lemma program_step_total:
  assumes "length regs = 32" "regs ! 0 = 0"
    and "\<not> exec_faults (cpu (cpu_update (after_fetch w) (pre_fetch (program_ctx (w # ws) regs))))"
  obtains c where "psycho_cpu_step (program_ctx (w # ws) regs) = Some c"
proof -
  have "\<not> word_hole (vaddr_to_paddr (fetch_pc (cpu (program_ctx (w # ws) regs))))"
    by (simp add: word_hole_def vaddr_to_paddr_def fetch_pc_def)
  then show thesis
    using that step_None_iff [OF program_inv [OF assms(1,2)], of "w # ws"] assms(3)
    by (cases "psycho_cpu_step (program_ctx (w # ws) regs)")
      (auto simp: fetch_program_first [OF assms(1,2)])
qed

lemma no_data_faults:
  "enum_of op_value all_ops (instr_op (instr c)) = Some g \<Longrightarrow> data_faults g c = False
    \<Longrightarrow> \<not> exec_faults c"
  by (simp add: exec_faults_def)

lemma jump_delay_slot_witness:
  "\<exists>c1. psycho_cpu_step (program_ctx [0x08000040, 0] (replicate 32 0)) = Some c1
    \<and> pc (cpu c1) = 4 \<and> next_pc (cpu c1) = 0x100"
proof -
  let ?ctx = "program_ctx [0x08000040, 0] (replicate 32 0)"
  have inv: "cpu_inv ?ctx" by simp
  have g: "enum_of op_value all_ops (instr_op 0x08000040) = Some INSTR_J"
    by (simp add: group_op.enum_of_Some_iff instr_op_def)
  have "\<not> exec_faults (cpu (cpu_update (after_fetch 0x08000040) (pre_fetch ?ctx)))"
    by (rule no_data_faults [of _ INSTR_J]) (use g in \<open>simp_all add: after_fetch_def\<close>)
  then obtain c1 where c1: "psycho_cpu_step ?ctx = Some c1"
    by (rule program_step_total [rotated 2]) simp_all
  have "pc (cpu c1) = next_pc (cpu ?ctx)
    \<and> next_pc (cpu c1) = calc_jmp_addr (fetched_instr ?ctx) (pc (cpu ?ctx))
    \<and> next_in_branch_delay_slot (cpu c1)"
    by (rule jump_delay_slot [OF inv _ c1]) (simp_all add: instr_op_def)
  with c1 show ?thesis by (simp add: calc_jmp_addr_def instr_target_def)
qed

section \<open>Exceptions\<close>

text \<open>What happens to SR and CAUSE, as functions of their old values.\<close>

definition sr_push :: "u32 \<Rightarrow> u32" where
  "sr_push s = (s AND 0xFFFFFFC0) OR push_bit 2 (s AND 0x0000000F)"

definition sr_pop :: "u32 \<Rightarrow> u32" where
  "sr_pop s = (s AND 0xFFFFFFF0) OR drop_bit 2 (s AND 0x0000003C)"

definition cause_with :: "cpu_exc_code \<Rightarrow> u32 \<Rightarrow> u32" where
  "cause_with exc s = (s AND NOT 0xFFFF00FF) OR push_bit 2 (exc_value exc)"

lemma bit_sr_push:
  "n < 32 \<Longrightarrow> bit (sr_push s) n =
    (if n < 2 then False else if n < 6 then bit s (n - 2) else bit s n)"
  by (erule nat_less_32_cases) (simp_all add: sr_push_def bit_simps)

lemma bit_sr_pop:
  "n < 32 \<Longrightarrow> bit (sr_pop s) n = (if n < 4 then bit s (n + 2) else bit s n)"
  by (erule nat_less_32_cases)
    (simp_all add: sr_pop_def bit_simps numeral_2_eq_2 numeral_3_eq_3)

lemma bit_cause_with:
  "n < 32 \<Longrightarrow> bit (cause_with exc s) n = (if n < 2 then False
    else if n < 8 then bit (exc_value exc) (n - 2) else n < 16 \<and> bit s n)"
  by (erule nat_less_32_cases; cases exc) (simp_all add: cause_with_def bit_simps)

lemma exception_entry_regs:
  assumes "length (cop0 c) = 32"
  shows "cop0 (exception_entry exc c) ! 14 = curr_pc c"
    "cop0 (exception_entry exc c) ! 12 = sr_push (cop0 c ! 12)"
    "cop0 (exception_entry exc c) ! 13 = cause_with exc (cop0 c ! 13)"
    "pc (exception_entry exc c) = 0x80" "next_pc (exception_entry exc c) = 0x84"
    "gpr (exception_entry exc c) = gpr c" "hi (exception_entry exc c) = hi c"
    "lo (exception_entry exc c) = lo c"
  using assms by (simp_all add: exception_entry_def sr_push_def cause_with_def)

text \<open>
  C18: an exception saves the address of the current instruction, pushes the interrupt and mode
  stack of SR, leaves its code and the pending interrupts in CAUSE, and continues at the
  vector. Nothing else of the context changes: no other coprocessor register, no general
  register, HI, LO, pending load, delay slot flag, memory or setting; the one warning aside.
\<close>

theorem exception_effect:
  assumes "cpu_shape (cpu ctx)"
  shows "\<exists>c. raise_exception ctx exc = Some c
    \<and> cop0_reg c CPU_COP0_EPC = curr_pc (cpu ctx)
    \<and> (\<forall>n < 32. bit (cop0_reg c CPU_COP0_SR) n =
        (if n < 2 then False else if n < 6 then bit (cop0_reg ctx CPU_COP0_SR) (n - 2)
         else bit (cop0_reg ctx CPU_COP0_SR) n))
    \<and> (\<forall>n < 32. bit (cop0_reg c CPU_COP0_CAUSE) n =
        (if n < 2 then False else if n < 8 then bit (exc_value exc) (n - 2)
         else n < 16 \<and> bit (cop0_reg ctx CPU_COP0_CAUSE) n))
    \<and> length (cop0 (cpu c)) = 32
    \<and> (\<forall>k. k \<noteq> 12 \<and> k \<noteq> 13 \<and> k \<noteq> 14 \<longrightarrow> cop0 (cpu c) ! k = cop0 (cpu ctx) ! k)
    \<and> cpu c = (cpu ctx)\<lparr>pc := 0x80, next_pc := 0x84, cop0 := cop0 (cpu c)\<rparr>
    \<and> bus c = bus ctx \<and> disasm c = disasm ctx \<and> log c = log ctx \<and> bios_trace c = bios_trace ctx
    \<and> event_trace c \<in> {event_trace ctx, event_trace ctx
        @ [log_event CPU PSYCHO_LOG_LEVEL_WARN (exc_name exc @ '' exception raised'')]}"
proof -
  have len: "length (cop0 (cpu ctx)) = 32"
    using assms by (simp add: cpu_shape_def CPU_COP0_NUM_def)
  let ?c = "cpu_update (exception_entry exc)
    (log_emit CPU PSYCHO_LOG_LEVEL_WARN ctx (exc_name exc @ '' exception raised''))"
  have "cop0 (exception_entry exc (cpu ctx)) ! k = cop0 (cpu ctx) ! k" "length (cop0 (exception_entry exc (cpu ctx))) = 32"
    if "k \<noteq> 12 \<and> k \<noteq> 13 \<and> k \<noteq> 14" for k
    using that len by (simp_all add: exception_entry_def)
  moreover from this(2) [of 0] have "length (cop0 (exception_entry exc (cpu ctx))) = 32" by simp
  moreover have "exception_entry exc (cpu ctx) = (cpu ctx)\<lparr>pc := 0x80, next_pc := 0x84,
      cop0 := cop0 (exception_entry exc (cpu ctx))\<rparr>"
    by (simp add: exception_entry_def)
  moreover have "event_trace ?c \<in> {event_trace ctx, event_trace ctx
      @ [log_event CPU PSYCHO_LOG_LEVEL_WARN (exc_name exc @ '' exception raised'')]}"
    by (simp add: log_emit_def)
  ultimately show ?thesis
    unfolding raise_exception_eq
    by (intro exI [of _ ?c]) (simp add: exception_entry_regs [OF len] bit_sr_push bit_cause_with
        del: bit_numeral_word_iff)
qed

text \<open>A system call at the reset vector.\<close>

lemma exception_effect_witness:
  "\<exists>c. raise_exception (instr_ctx 0xC (replicate 32 0)) EXCEPTION_SYS = Some c
    \<and> pc (cpu c) = 0x80 \<and> cop0_reg c CPU_COP0_EPC = 0xBFC00000
    \<and> bit (cop0_reg c CPU_COP0_CAUSE) 5"
proof -
  let ?ctx = "instr_ctx 0xC (replicate 32 0)"
  have "cpu_shape (cpu ?ctx)" by (simp add: cpu_shape_def CPU_GPR_NUM_def CPU_COP0_NUM_def)
  from exception_effect [OF this, of EXCEPTION_SYS] obtain c where
    c: "raise_exception ?ctx EXCEPTION_SYS = Some c" "cop0_reg c CPU_COP0_EPC = curr_pc (cpu ?ctx)"
    and cause: "\<forall>n < 32. bit (cop0_reg c CPU_COP0_CAUSE) n =
        (if n < 2 then False else if n < 8 then bit (exc_value EXCEPTION_SYS) (n - 2)
         else n < 16 \<and> bit (cop0_reg ?ctx CPU_COP0_CAUSE) n)"
    and same: "cpu c = (cpu ?ctx)\<lparr>pc := 0x80, next_pc := 0x84, cop0 := cop0 (cpu c)\<rparr>" by blast
  have "bit (cop0_reg c CPU_COP0_CAUSE) 5" using cause [rule_format, of 5] by simp
  moreover have "pc (cpu c) = 0x80" using arg_cong [OF same, of pc] by simp
  moreover have "curr_pc (cpu ?ctx) = 0xBFC00000" by (simp add: RESET_PC_def)
  ultimately show ?thesis using c by metis
qed

text \<open>
  \<^verbatim>\<open>RFE\<close> behind an exception restores the current and previous entries of SR's stack and
  every bit above it; the oldest entry keeps the value of the previous one.
\<close>

lemma rfe_undoes_exception:
  assumes "cpu_shape (cpu ctx)"
  shows "\<exists>c d. raise_exception ctx exc = Some c \<and> op_RFE c = Some d
    \<and> (\<forall>n < 32. bit (cop0_reg d CPU_COP0_SR) n =
        (if n = 4 \<or> n = 5 then bit (cop0_reg ctx CPU_COP0_SR) (n - 2)
         else bit (cop0_reg ctx CPU_COP0_SR) n))
    \<and> cop0_reg d CPU_COP0_EPC = curr_pc (cpu ctx) \<and> pc (cpu d) = 0x80"
proof -
  have len: "length (cop0 (cpu ctx)) = 32"
    using assms by (simp add: cpu_shape_def CPU_COP0_NUM_def)
  obtain c where c: "raise_exception ctx exc = Some c" "cpu c = exception_entry exc (cpu ctx)"
    by (simp add: raise_exception_eq)
  have lc: "length (cop0 (cpu c)) = 32" by (simp add: c(2) exception_entry_def len)
  obtain d where d: "op_RFE c = Some d" "cop0 (cpu d) = (cop0 (cpu c))[12 := sr_pop (cop0 (cpu c) ! 12)]"
    "pc (cpu d) = pc (cpu c)"
    by (simp add: op_RFE_def sr_pop_def Let_def)
  have sr: "cop0 (cpu d) ! 12 = sr_pop (sr_push (cop0 (cpu ctx) ! 12))"
    using lc by (simp add: d(2) c(2) exception_entry_regs [OF len])
  have "bit (sr_pop (sr_push s)) n = (if n = 4 \<or> n = 5 then bit s (n - 2) else bit s n)"
    if "n < 32" for n s
    using that by (auto simp: bit_sr_pop bit_sr_push)
  moreover have "cop0 (cpu d) ! 14 = curr_pc (cpu ctx)"
    using lc by (simp add: d(2) c(2) exception_entry_regs [OF len])
  moreover have "pc (cpu d) = 0x80" by (simp add: d(3) c(2) exception_entry_regs [OF len])
  ultimately show ?thesis
    by (intro exI [of _ c] exI [of _ d]) (simp add: c(1) d(1) sr)
qed

text \<open>
  C21: a fetch from a misaligned program counter raises an address error and goes on with the
  instruction at the vector in the same step: the four bytes from \<^verbatim>\<open>0x80\<close> of the RAM are the fetched
  word. EPC receives the address of the instruction executed before, not the misaligned one.
\<close>

theorem misaligned_fetch:
  assumes "cpu_inv ctx" "pc (cpu ctx) AND 3 \<noteq> 0" "cpu_fetch ctx = Some c"
  shows "instr (cpu c) = le_word (map (\<lambda>i. buf_byte (ram (bus ctx)) (0x80 + i)) [0..<4])
    \<and> curr_pc (cpu c) = 0x80 \<and> pc (cpu c) = 0x84 \<and> next_pc (cpu c) = 0x88
    \<and> cop0_reg c CPU_COP0_EPC = curr_pc (cpu ctx)
    \<and> cop0_reg c CPU_COP0_CAUSE = cause_with EXCEPTION_ADEL (cop0_reg ctx CPU_COP0_CAUSE)
    \<and> cop0_reg c CPU_COP0_SR = sr_push (cop0_reg ctx CPU_COP0_SR)"
proof -
  have sh: "cpu_shape (cpu ctx)" and sized: "bus_sized (bus ctx)" using assms(1) by (simp_all add: cpu_inv_def)
  then have len: "length (cop0 (enter_slot (cpu ctx))) = 32"
    by (simp add: cpu_shape_def CPU_COP0_NUM_def enter_slot_def load_delay_shift_def)
  have pre: "cpu (pre_fetch ctx) =
      (exception_entry EXCEPTION_ADEL (enter_slot (cpu ctx)))\<lparr>curr_pc := 0x80\<rparr>"
    using assms(2) by (simp add: pre_fetch_def Let_def exception_entry_def)
  have ram: "ram (bus (pre_fetch ctx)) = ram (bus ctx)" "buf_size (ram (bus ctx)) = 0x200000"
    using sized by (simp_all add: bus_sized_iff pre_fetch_frame)
  have addr: "vaddr_to_paddr (fetch_pc (cpu ctx)) = 0x80"
    using assms(2) by (simp add: fetch_pc_def vaddr_to_paddr_def)
  show ?thesis
  proof (rule cpu_fetch_Some [OF sh assms(3)])
    fix w ctx1
    assume ld: "psycho_bus_load_word (pre_fetch ctx) (vaddr_to_paddr (fetch_pc (cpu ctx))) = Some (w, ctx1)"
      and c: "c = cpu_update (after_fetch w) ctx1" "cpu ctx1 = cpu (pre_fetch ctx)"
    have "w = le_word (map (\<lambda>i. buf_byte (ram (bus ctx)) (0x80 + i)) [0..<4])"
      using ld [unfolded addr] ram by (simp add: psycho_bus_load_word_def ram_bounds memcpy_from_def)
    with c show ?thesis
      using exception_entry_regs [OF len, of EXCEPTION_ADEL]
      by (simp add: after_fetch_def pre) (simp add: enter_slot_def load_delay_shift_def)
  qed
qed

lemma misaligned_fetch_witness:
  "\<exists>c. cpu_fetch (cpu_update (\<lambda>c. c\<lparr>pc := 0x1002\<rparr>) (program_ctx [] (replicate 32 0))) = Some c
    \<and> curr_pc (cpu c) = 0x80 \<and> cop0_reg c CPU_COP0_EPC = 0xBFC00000"
proof -
  let ?ctx = "cpu_update (\<lambda>c. c\<lparr>pc := 0x1002\<rparr>) (program_ctx [] (replicate 32 0))"
  have inv: "cpu_inv ?ctx"
    by (simp add: cpu_inv_def cpu_shape_def CPU_GPR_NUM_def CPU_COP0_NUM_def)
  then obtain c where c: "cpu_fetch ?ctx = Some c"
    using cpu_fetch_None_iff [of ?ctx]
    by (cases "cpu_fetch ?ctx") (auto simp: cpu_inv_def fetch_pc_def vaddr_to_paddr_def word_hole_def)
  from misaligned_fetch [OF inv _ c] c show ?thesis by (simp add: RESET_PC_def)
qed

section \<open>The load delay slot\<close>

text \<open>
  C15: a loaded value is not visible to the instruction behind the load and is visible to the
  one after it; a write to the same register by the instruction behind the load wins.
\<close>

theorem load_delay_slot:
  assumes "cpu_inv ctx" "0 < r" "r < 32"
    and "gpr_set_delayed ctx r v = Some c0" "cpu_fetch c0 = Some c1"
    and "cpu_fetch c1 = Some c2" "cpu_fetch (gpr_set c1 r x) = Some c3"
  shows "gpr (cpu c1) ! r = gpr (cpu ctx) ! r \<and> gpr (cpu c2) ! r = v \<and> gpr (cpu c3) ! r = x"
proof -
  have len: "length (gpr (cpu ctx)) = 32" and sh: "cpu_shape (cpu ctx)"
    using assms(1) by (simp_all add: cpu_inv_def cpu_shape_def CPU_GPR_NUM_def)
  have c0: "c0 = cpu_update (reg_load r v) ctx"
    using assms(2,4) by (simp add: gpr_set_delayed_eq)
  have sh0: "cpu_shape (cpu c0)" using sh assms(2,3) by (simp add: c0)
  have load: "gpr (cpu b) = (gpr (cpu a))[ld_dst (ld_next (cpu a)) := ld_val (ld_next (cpu a))]
      \<and> ld_next (cpu b) = ld_pend (cpu a)" if "cpu_shape (cpu a)" "cpu_fetch a = Some b" for a b
    by (rule cpu_fetch_Some [OF that]) (simp add: after_fetch_def)
  have sh1: "cpu_shape (cpu c1)"
    using cpu_fetch_keeps [OF sh0 assms(5)] sh0 by (simp add: keeps_def)
  note l1 = load [OF sh0 assms(5)] and l2 = load [OF sh1 assms(6)]
  have sh1': "cpu_shape (cpu (gpr_set c1 r x))" using sh1 by (simp add: gpr_set_eq)
  note l3 = load [OF sh1' assms(7)]
  have next1: "ld_next (cpu c1) = \<lparr>ld_dst = r, ld_val = v\<rparr>" using l1 by (simp add: c0 reg_load_def)
  have "gpr (cpu c1) ! r = gpr (cpu ctx) ! r"
    using l1 assms(2) by (cases "ld_dst (ld_next (cpu ctx)) = r") (simp_all add: c0 reg_load_def)
  moreover have len1: "length (gpr (cpu c1)) = 32" using l1 len by (simp add: c0 reg_load_def)
  then have "gpr (cpu c2) ! r = v" using l2 next1 assms(3) by simp
  moreover have "gpr (cpu c3) ! r = x"
    using l3 len1 next1 assms(2,3) by (simp add: gpr_set_eq reg_write_def)
  ultimately show ?thesis by blast
qed

lemma fetch_at:
  assumes "cpu_shape (cpu ctx)" "bus_sized (bus ctx)" "pc (cpu ctx) AND 3 = 0"
    and "\<not> word_hole (vaddr_to_paddr (pc (cpu ctx)))"
  obtains c where "cpu_fetch ctx = Some c" "cpu_shape (cpu c)" "bus c = bus ctx"
    "pc (cpu c) = next_pc (cpu ctx)"
proof -
  obtain c where c: "cpu_fetch ctx = Some c"
    using cpu_fetch_None_iff [OF assms(1,2)] assms(3,4)
    by (cases "cpu_fetch ctx") (auto simp: fetch_pc_def)
  show thesis
    using that [OF c] cpu_fetch_keeps [OF assms(1) c] fetch_fields [OF assms(1) c assms(3)] assms(1)
    by (simp add: keeps_def)
qed

text \<open>Register 5 loaded with 9 and overwritten with 7, in a RAM of zeroes.\<close>

lemma load_delay_slot_witness:
  "\<exists>c0 c1 c2 c3. gpr_set_delayed (program_ctx [] (replicate 32 0)) 5 9 = Some c0
    \<and> cpu_fetch c0 = Some c1 \<and> cpu_fetch c1 = Some c2 \<and> cpu_fetch (gpr_set c1 5 7) = Some c3
    \<and> gpr (cpu c1) ! 5 = 0 \<and> gpr (cpu c2) ! 5 = 9 \<and> gpr (cpu c3) ! 5 = 7"
proof -
  let ?ctx = "program_ctx [] (replicate 32 0)"
  have inv: "cpu_inv ?ctx" by simp
  obtain c0 where c0: "gpr_set_delayed ?ctx 5 9 = Some c0" "c0 = cpu_update (reg_load 5 9) ?ctx"
    by (simp add: gpr_set_delayed_eq)
  have sh: "cpu_shape (cpu ?ctx)" using inv by (simp only: cpu_inv_def)
  obtain c1 where c1: "cpu_fetch c0 = Some c1" "cpu_shape (cpu c1)" "bus c1 = bus c0" "pc (cpu c1) = 4"
  proof (rule fetch_at [of c0])
    show "cpu_shape (cpu c0)" using cpu_shape_effects(3) [OF sh] by (simp add: c0(2))
  qed (simp_all add: c0(2) reg_load_def vaddr_to_paddr_def word_hole_def)
  have b1: "bus_sized (bus c1)" by (simp add: c1(3) c0(2))
  obtain c2 where c2: "cpu_fetch c1 = Some c2"
    by (rule fetch_at [OF c1(2) b1]) (simp_all add: c1(4) vaddr_to_paddr_def word_hole_def)
  obtain c3 where c3: "cpu_fetch (gpr_set c1 5 7) = Some c3"
  proof (rule fetch_at [of "gpr_set c1 5 7"])
    show "cpu_shape (cpu (gpr_set c1 5 7))" using c1(2) by (simp add: gpr_set_eq)
    show "bus_sized (bus (gpr_set c1 5 7))" using b1 by (simp add: gpr_set_eq)
  qed (simp_all add: gpr_set_eq reg_write_def c1(4) vaddr_to_paddr_def word_hole_def)
  have "gpr (cpu c1) ! 5 = gpr (cpu ?ctx) ! 5 \<and> gpr (cpu c2) ! 5 = 9 \<and> gpr (cpu c3) ! 5 = 7"
    by (rule load_delay_slot [OF inv _ _ c0(1) c1(1) c2 c3]) simp_all
  with c0(1) c1(1) c2 c3 show ?thesis by auto
qed

end
