(* ===== verification/Cpu_Memory.thy ===== *)
theory Cpu_Memory
  imports Cpu_Control
begin

text \<open>
  The memory accesses of the interpreter against the abstract memory of the bus: addresses,
  the sub-word loads, and the pairs of instructions that access a word at any address.
\<close>

section \<open>Words in memory\<close>

text \<open>The four bytes of a word at consecutive addresses.\<close>

definition word_at :: "psycho_bus \<Rightarrow> u32 \<Rightarrow> u32 \<Rightarrow> bool" where
  "word_at b p w \<longleftrightarrow> (\<forall>i < 4. mem_view b (p + of_nat i) = Some (ucast (drop_bit (8 * i) w)))"

lemma word_atD:
  "word_at b p w \<Longrightarrow> i < 4 \<Longrightarrow> mem_view b (p + of_nat i) = Some (ucast (drop_bit (8 * i) w))"
  by (simp add: word_at_def)

lemma less_4_cases: "i < (4 :: nat) \<Longrightarrow> i = 0 \<or> i = 1 \<or> i = 2 \<or> i = 3"
  by auto

lemma load_word_at:
  assumes "bus_sized (bus ctx)" "mapped p" "psycho_bus_load_word ctx p = Some (w, c)"
  shows "c = ctx \<and> word_at (bus ctx) p w"
proof -
  obtain bs where bs: "w = le_word bs" "length bs = 4" "c = ctx"
    and view: "\<And>i. i < 4 \<Longrightarrow> mem_view (bus ctx) (p + of_nat i) = Some (bs ! i)"
    using word_port.load_bytes [OF assms] by metis
  have "bs ! i = ucast (drop_bit (8 * i) w)" if "i < 4" for i
  proof (rule bit_word_eqI)
    fix n assume "n < LENGTH(8)"
    with that bs(2) show "bit (bs ! i) n = bit (ucast (drop_bit (8 * i) w) :: u8) n"
      by (simp add: bs(1) bit_simps bit_le_word)
  qed
  with view bs(3) show ?thesis by (simp add: word_at_def)
qed

lemma unat_and_3: "unat (p AND 3) = unat p mod 4" for p :: u32
  using and_mask_take_bit [of p 2] unat_take_bit [of 2 p]
  by (simp add: mask_numerals(2) take_bit_eq_mod)

lemma double_suc: "2 \<le> n \<Longrightarrow> Suc (Suc (n - 2)) = n"
  by simp

lemma align_sub: "p AND - 4 = p - (p AND 3)" for p :: u32
proof -
  have not3: "(- 4 :: u32) = NOT (mask 2)" by (simp add: mask_eq_exp_minus_1)
  have "p AND - 4 = push_bit 2 (drop_bit 2 p)"
    unfolding not3 by (rule bit_word_eqI) (auto simp: bit_simps double_suc not_less)
  moreover have "push_bit 2 (drop_bit 2 p) + take_bit 2 p = p" by (rule bits_ident)
  moreover have "take_bit 2 p = p AND 3" by (simp add: take_bit_eq_mask mask_numerals(2))
  ultimately show ?thesis by (simp add: eq_diff_eq)
qed

lemma unat_align: "unat (p AND - 4) = unat p - unat p mod 4" for p :: u32
proof -
  have "unat (p AND 3) \<le> unat p" by (simp add: unat_and_3)
  then have "p AND 3 \<le> p" by (simp add: word_le_nat_alt)
  then show ?thesis by (simp add: align_sub unat_sub unat_and_3)
qed

section \<open>The merges\<close>

definition lwl_merge :: "u32 \<Rightarrow> u32 \<Rightarrow> nat \<Rightarrow> u32" where
  "lwl_merge x w s = (x AND drop_bit (s * 8) 0x00FFFFFF) OR push_bit (24 - s * 8) w"

definition lwr_merge :: "u32 \<Rightarrow> u32 \<Rightarrow> nat \<Rightarrow> u32" where
  "lwr_merge x w s = (x AND push_bit (24 - s * 8) 0xFFFFFF00) OR drop_bit (s * 8) w"

definition swl_merge :: "u32 \<Rightarrow> u32 \<Rightarrow> nat \<Rightarrow> u32" where
  "swl_merge r w s = (w AND push_bit (s * 8) 0xFFFFFF00) OR drop_bit (24 - s * 8) r"

definition swr_merge :: "u32 \<Rightarrow> u32 \<Rightarrow> nat \<Rightarrow> u32" where
  "swr_merge r w s = (w AND drop_bit (24 - s * 8) 0x00FFFFFF) OR push_bit (s * 8) r"

lemma mask_24: "(0x00FFFFFF :: u32) = mask 24" and not_mask_8: "(0xFFFFFF00 :: u32) = NOT (mask 8)"
  by (simp_all add: mask_eq_exp_minus_1)

lemma bit_lwr_merge:
  "s < 4 \<Longrightarrow> n < 32 \<Longrightarrow>
    bit (lwr_merge x w s) n = (if n + s * 8 < 32 then bit w (n + s * 8) else bit x n)"
  unfolding lwr_merge_def not_mask_8
  by (auto simp: bit_simps ac_simps dest: bit_imp_le_length)

lemma bit_lwl_merge:
  "s < 4 \<Longrightarrow> n < 32 \<Longrightarrow>
    bit (lwl_merge x w s) n = (if n < 24 - s * 8 then bit x n else bit w (n - (24 - s * 8)))"
  unfolding lwl_merge_def mask_24 by (auto simp: bit_simps ac_simps)

lemma bit_swr_merge:
  "s < 4 \<Longrightarrow> n < 32 \<Longrightarrow> bit (swr_merge r w s) n = (if n < s * 8 then bit w n else bit r (n - s * 8))"
  unfolding swr_merge_def mask_24 by (auto simp: bit_simps ac_simps)

lemma bit_swl_merge:
  "s < 4 \<Longrightarrow> n < 32 \<Longrightarrow>
    bit (swl_merge r w s) n = (if n < s * 8 + 8 then bit r (n + (24 - s * 8)) else bit w n)"
  unfolding swl_merge_def not_mask_8
  by (auto simp: bit_simps ac_simps dest: bit_imp_le_length)

text \<open>The bytes of a word that starts \<open>s\<close> bytes into the aligned word \<open>w0\<close>, \<open>w1\<close> behind it.\<close>

lemma byte_ext: "(\<And>n. n < 8 \<Longrightarrow> bit v (8 * k + n) = bit w (8 * j + n)) \<Longrightarrow>
    (ucast (drop_bit (8 * k) v) :: u8) = ucast (drop_bit (8 * j) w)" for v w :: u32
  by (rule bit_word_eqI) (simp add: bit_simps)

lemma load_pair_bytes:
  assumes "s < 4" "k < 4" "s = 0 \<Longrightarrow> w1 = w0"
  shows "(ucast (drop_bit (8 * k) (lwl_merge (lwr_merge x w0 s) w1 ((s + 3) mod 4))) :: u8) =
    (if s + k < 4 then ucast (drop_bit (8 * (s + k)) w0) else ucast (drop_bit (8 * (s + k - 4)) w1))"
proof -
  let ?t = "(s + 3) mod 4"
  have t: "?t < 4" "s = 0 \<Longrightarrow> ?t = 3" "s \<noteq> 0 \<Longrightarrow> ?t = s - 1"
    using assms(1) by (auto dest: less_4_cases)
  have b: "bit (lwl_merge (lwr_merge x w0 s) w1 ?t) n =
      (if n + s * 8 < 32 then bit w0 (n + s * 8) else bit w1 (n + s * 8 - 32))" if "n < 32" for n
  proof (cases "s = 0")
    case True
    with that t assms(3) show ?thesis by (simp add: bit_lwl_merge)
  next
    case False
    with t(3) assms(1) have e: "24 - ?t * 8 = 32 - s * 8" by simp
    have "n - (32 - s * 8) = n + s * 8 - 32" using assms(1) by simp
    with that t(1) assms(1) show ?thesis
      by (auto simp: bit_lwl_merge e bit_lwr_merge)
  qed
  show ?thesis
  proof (cases "s + k < 4")
    case True
    have "bit (lwl_merge (lwr_merge x w0 s) w1 ?t) (8 * k + n) = bit w0 (8 * (s + k) + n)"
      if "n < 8" for n
      using that True assms(2) b [of "8 * k + n"] by (simp add: algebra_simps)
    then have "(ucast (drop_bit (8 * k) (lwl_merge (lwr_merge x w0 s) w1 ?t)) :: u8)
        = ucast (drop_bit (8 * (s + k)) w0)" by (rule byte_ext)
    with True show ?thesis by simp
  next
    case False
    have "bit (lwl_merge (lwr_merge x w0 s) w1 ?t) (8 * k + n) = bit w1 (8 * (s + k - 4) + n)"
      if "n < 8" for n
    proof -
      have "8 * k + n + s * 8 - 32 = 8 * (s + k - 4) + n" using False by simp
      with that False assms(2) b [of "8 * k + n"] show ?thesis by simp
    qed
    then have "(ucast (drop_bit (8 * k) (lwl_merge (lwr_merge x w0 s) w1 ?t)) :: u8)
        = ucast (drop_bit (8 * (s + k - 4)) w1)" by (rule byte_ext)
    with False show ?thesis by simp
  qed
qed

section \<open>The handlers of the pairs\<close>

text \<open>The value a partial load merges into: the pending one for its register, or the register.\<close>

definition merge_base :: "psycho_cpu \<Rightarrow> u32" where
  "merge_base c = (let r = unat (instr_rt (instr c))
     in if ld_dst (ld_next c) = r then ld_val (ld_next c) else gpr c ! r)"

lemma merge_base_bp [simp]: "merge_base (cpu (bp_check ctx v)) = merge_base (cpu ctx)"
  by (simp add: merge_base_def Let_def)

lemma partial_load:
  assumes "bus_sized (bus ctx)" "m_rt ctx \<noteq> 0" "mapped (data_paddr (cpu ctx) AND NOT 3)"
    and "op = op_LWR \<and> merge = lwr_merge \<or> op = op_LWL \<and> merge = lwl_merge"
    and "op ctx = Some c"
  shows "\<exists>w. word_at (bus ctx) (data_paddr (cpu ctx) AND NOT 3) w \<and> bus c = bus ctx
    \<and> ld_pend (cpu c) = \<lparr>ld_dst = m_rt ctx,
        ld_val = merge (merge_base (cpu ctx)) w (unat (data_paddr (cpu ctx)) mod 4)\<rparr>"
proof -
  let ?p = "data_paddr (cpu ctx)" and ?b = "bp_check ctx (data_vaddr (cpu ctx))"
  obtain w c' where ld: "psycho_bus_load_word ?b (?p AND NOT 3) = Some (w, c')"
    using assms(4,5) by (auto simp: mem_op_defs bind_phys_addr Let_def elim!: bind_eq_SomeE)
  have sized: "bus_sized (bus ?b)" using assms(1) by simp
  have c': "c' = ?b" "word_at (bus ctx) (?p AND NOT 3) w"
    using load_word_at [OF sized assms(3) ld] by simp_all
  have "c = cpu_update (reg_load (m_rt ctx) (merge (merge_base (cpu ctx)) w (unat ?p mod 4))) ?b"
    using assms(2,4,5) ld
    by (auto simp: mem_op_defs bind_phys_addr Let_def c' gpr_set_delayed_eq lwr_merge_def
        lwl_merge_def merge_base_def unat_and_3)
  then show ?thesis using c'(2) by (intro exI [of _ w]) (simp add: reg_load_def)
qed

lemma and_3_of_nat: "p AND 3 = of_nat (unat p mod 4)" for p :: u32
  using unat_and_3 [of p] by (metis of_nat_unat ucast_id)

lemma unat_plus_3_mod: "unat (p + 3) mod 4 = (unat p mod 4 + 3) mod 4" for p :: u32
proof -
  have "unat (p + 3) = (unat p + 3) mod 2 ^ 32" by (simp add: unat_word_ariths)
  then have "unat (p + 3) mod 4 = (unat p + 3) mod 4" by (simp add: mod_mod_cancel)
  then show ?thesis by presburger
qed

lemma align_next:
  fixes p :: u32
  shows "unat p mod 4 \<noteq> 0 \<Longrightarrow> (p + 3) AND - 4 = (p AND - 4) + 4"
    "unat p mod 4 = 0 \<Longrightarrow> (p + 3) AND - 4 = p AND - 4"
proof -
  have s: "unat p mod 4 < 4" by simp
  have e: "(p + 3) AND - 4 = p + 3 - of_nat ((unat p mod 4 + 3) mod 4)"
    and d: "p AND - 4 = p - of_nat (unat p mod 4)"
    by (simp_all only: align_sub and_3_of_nat unat_plus_3_mod)
  show "unat p mod 4 \<noteq> 0 \<Longrightarrow> (p + 3) AND - 4 = (p AND - 4) + 4"
    unfolding e d using less_4_cases [OF s] by auto
  show "unat p mod 4 = 0 \<Longrightarrow> (p + 3) AND - 4 = p AND - 4"
    unfolding e d by simp
qed

lemma addr_split:
  fixes p :: u32
  assumes "k < 4"
  shows "p + of_nat k = (let s = unat p mod 4 in if s + k < 4 then (p AND - 4) + of_nat (s + k)
    else ((p + 3) AND - 4) + of_nat (s + k - 4))"
proof -
  let ?s = "unat p mod 4"
  have d: "p AND - 4 = p - of_nat ?s" by (simp only: align_sub and_3_of_nat)
  show ?thesis
  proof (cases "?s + k < 4")
    case True
    then show ?thesis by (simp add: Let_def d)
  next
    case False
    with assms have "?s \<noteq> 0" by auto
    then have "(p + 3) AND - 4 = p - of_nat ?s + 4" using align_next(1) d by simp
    moreover have "(of_nat (?s + k - 4) :: u32) = of_nat (?s + k) - 4"
      using False by (simp add: of_nat_diff)
    ultimately show ?thesis using False by (simp add: Let_def)
  qed
qed

lemma word_at_unique:
  assumes "word_at b a v" "word_at b a w"
  shows "v = w"
proof (rule u32_bit_eqI)
  fix n :: nat
  assume n: "n < 32"
  then have "n div 8 < 4" by simp
  then have "(ucast (drop_bit (8 * (n div 8)) v) :: u8) = ucast (drop_bit (8 * (n div 8)) w)"
    using assms by (auto simp: word_at_def)
  then have "bit (ucast (drop_bit (8 * (n div 8)) v) :: u8) (n mod 8)
      = bit (ucast (drop_bit (8 * (n div 8)) w) :: u8) (n mod 8)" by simp
  then show "bit v n = bit w n" by (simp add: bit_simps)
qed

text \<open>Two merges of the aligned words around an address make the word at the address.\<close>

lemma merged_word_at:
  assumes "word_at b (p AND NOT 3) w0" "word_at b ((p + 3) AND NOT 3) w1"
  shows "word_at b p (lwl_merge (lwr_merge x w0 (unat p mod 4)) w1 ((unat p mod 4 + 3) mod 4))"
    (is "word_at b p ?w")
  unfolding word_at_def
proof (intro allI impI)
  fix k :: nat
  assume k: "k < 4"
  let ?s = "unat p mod 4"
  have s: "?s < 4" by simp
  have same: "w1 = w0" if "?s = 0"
    by (rule word_at_unique [OF _ assms(1)]) (use assms(2) align_next(2) [OF that] in simp)
  show "mem_view b (p + of_nat k) = Some (ucast (drop_bit (8 * k) ?w))"
  proof (cases "?s + k < 4")
    case True
    then have addr: "p + of_nat k = (p AND NOT 3) + of_nat (?s + k)"
      using addr_split [OF k, of p] by (simp add: Let_def)
    have "mem_view b (p + of_nat k) = Some (ucast (drop_bit (8 * (?s + k)) w0))"
      unfolding addr by (rule word_atD [OF assms(1) True])
    with True show ?thesis by (simp add: load_pair_bytes [OF s k same])
  next
    case False
    then have addr: "p + of_nat k = ((p + 3) AND NOT 3) + of_nat (?s + k - 4)"
      using addr_split [OF k, of p] by (simp add: Let_def)
    have "?s + k - 4 < 4" using k s by simp
    then have "mem_view b (p + of_nat k) = Some (ucast (drop_bit (8 * (?s + k - 4)) w1))"
      unfolding addr by (rule word_atD [OF assms(2)])
    with False show ?thesis by (simp add: load_pair_bytes [OF s k same])
  qed
qed

text \<open>
  C13: \<^verbatim>\<open>LWR\<close> of an address followed by \<^verbatim>\<open>LWL\<close> of the address three further, the pair
  compilers emit, loads the word that starts at the address, whatever its alignment; the
  second instruction merges with the pending result of the first.
\<close>

theorem unaligned_load:
  assumes inv: "cpu_inv ctx" and rt: "m_rt ctx \<noteq> 0"
    and mapped: "mapped (data_paddr (cpu ctx) AND NOT 3)"
      "mapped ((data_paddr (cpu ctx) + 3) AND NOT 3)"
    and ops: "op_LWR ctx = Some c1" "cpu_fetch c1 = Some c2" "op_LWL c2 = Some c3"
    and second: "m_rt c2 = m_rt ctx" "data_paddr (cpu c2) = data_paddr (cpu ctx) + 3"
  shows "ld_dst (ld_pend (cpu c3)) = m_rt ctx
    \<and> word_at (bus ctx) (data_paddr (cpu ctx)) (ld_val (ld_pend (cpu c3)))"
proof -
  let ?p = "data_paddr (cpu ctx)"
  let ?s = "unat ?p mod 4"
  have sized: "bus_sized (bus ctx)" and sh: "cpu_shape (cpu ctx)"
    using inv by (simp_all add: cpu_inv_def)
  obtain w0 where w0: "word_at (bus ctx) (?p AND NOT 3) w0" "bus c1 = bus ctx"
    "ld_pend (cpu c1) = \<lparr>ld_dst = m_rt ctx, ld_val = lwr_merge (merge_base (cpu ctx)) w0 ?s\<rparr>"
    using partial_load [OF sized rt mapped(1), of op_LWR lwr_merge c1] ops(1) by auto
  have sh1: "cpu_shape (cpu c1)"
    using mem_op_keeps(7) [OF ops(1)] sh by (simp add: keeps_def)
  have c2: "bus c2 = bus ctx" "ld_next (cpu c2) = ld_pend (cpu c1)"
    by (rule cpu_fetch_Some [OF sh1 ops(2)]; simp add: after_fetch_def w0(2))+
  have "merge_base (cpu c2) = lwr_merge (merge_base (cpu ctx)) w0 ?s"
    by (simp add: merge_base_def c2(2) w0(3) second(1) Let_def)
  moreover obtain w1 where w1: "word_at (bus ctx) ((?p + 3) AND NOT 3) w1"
    "ld_pend (cpu c3) = \<lparr>ld_dst = m_rt ctx,
      ld_val = lwl_merge (merge_base (cpu c2)) w1 (unat (?p + 3) mod 4)\<rparr>"
    using partial_load [of c2 op_LWL lwl_merge c3] sized rt mapped(2) ops(3) second c2(1) by auto
  ultimately have r: "ld_pend (cpu c3) = \<lparr>ld_dst = m_rt ctx,
      ld_val = lwl_merge (lwr_merge (merge_base (cpu ctx)) w0 ?s) w1 ((?s + 3) mod 4)\<rparr>"
    by (simp add: unat_plus_3_mod)
  show ?thesis using merged_word_at [OF w0(1) w1(1)] by (simp add: r)
qed

text \<open>
  The pair at a program's start: words 2 and 3 hold the data, the address is 9. The same
  context serves the load and the store.
\<close>

definition pair_ctx :: "u32 \<Rightarrow> u32 \<Rightarrow> psycho_ctx" where
  "pair_ctx i j = cpu_update (after_fetch i) (pre_fetch
     (program_ctx [i, j, 0x44332211, 0x88776655] ((replicate 32 0)[2 := 0xDDCCBBAA])))"

lemma fetch_inv: "cpu_inv ctx \<Longrightarrow> cpu_fetch ctx = Some c \<Longrightarrow> cpu_inv c"
  using cpu_fetch_keeps [of ctx c] fetch_zero [of ctx c] by (simp add: cpu_inv_def keeps_def)

lemma zero_entry: "(replicate 32 0)[0 := 0] = replicate 32 (0 :: u32)"
  using list_update_id [of "replicate 32 (0 :: u32)" 0] by simp

lemma pair_ctx_facts:
  "cpu_inv (pair_ctx i j)" "bus (pair_ctx i j) = bus (program_ctx [i, j, 0x44332211, 0x88776655] [])"
  "cpu (pair_ctx i j) = zero_cpu\<lparr>pc := 4, next_pc := 8, curr_pc := 0, instr := i,
     gpr := (replicate 32 0)[2 := 0xDDCCBBAA]\<rparr>"
proof -
  let ?p = "program_ctx [i, j, 0x44332211, 0x88776655] ((replicate 32 0)[2 := 0xDDCCBBAA])"
  have "cpu_fetch ?p = Some (pair_ctx i j)"
    by (simp add: pair_ctx_def fetch_program_first)
  moreover have "cpu_inv ?p" by simp
  ultimately show "cpu_inv (pair_ctx i j)" using fetch_inv by blast
  show "bus (pair_ctx i j) = bus (program_ctx [i, j, 0x44332211, 0x88776655] [])"
    by (simp add: pair_ctx_def program_ctx_def)
  show "cpu (pair_ctx i j) = zero_cpu\<lparr>pc := 4, next_pc := 8, curr_pc := 0, instr := i,
     gpr := (replicate 32 0)[2 := 0xDDCCBBAA]\<rparr>"
    by (simp add: pair_ctx_def pre_fetch_def enter_slot_def load_delay_shift_def after_fetch_def)
      (simp add: zero_cpu_def CPU_GPR_NUM_def CPU_COP0_NUM_def list_update_swap zero_entry)
qed

lemma no_bp: "cop0 (cpu ctx) = replicate 32 0 \<Longrightarrow> bp_check ctx v = ctx"
  by (simp add: bp_check_def bp_hit_def)

text \<open>\<^verbatim>\<open>lwr $v0, 9($zero)\<close> and \<^verbatim>\<open>lwl $v0, 12($zero)\<close>.\<close>

lemma unaligned_load_witness:
  "\<exists>c1 c2 c3. op_LWR (pair_ctx 0x98020009 0x8802000C) = Some c1 \<and> cpu_fetch c1 = Some c2
    \<and> op_LWL c2 = Some c3 \<and> word_at (bus (pair_ctx 0x98020009 0x8802000C)) 9 (ld_val (ld_pend (cpu c3)))"
proof -
  let ?c = "pair_ctx 0x98020009 0x8802000C"
  let ?ws = "[0x98020009, 0x8802000C, 0x44332211, 0x88776655]"
  note f = pair_ctx_facts [of "0x98020009" "0x8802000C"]
  have p: "data_paddr (cpu ?c) = 9" and rt: "m_rt ?c = 2"
    by (simp_all add: f(3) data_paddr_def data_vaddr_def get_vaddr_def instr_off_def instr_imm_def
        sign_ext_16_32_def vaddr_to_paddr_def instr_rs_def instr_rt_def)
  have sized: "bus_sized (bus ?c)" using f(1) by (simp add: cpu_inv_def)
  have "op_LWR ?c \<noteq> None"
    by (simp add: load_op_None_iff(7) [OF sized] p word_hole_def del: not_None_eq)
  then obtain c1 where c1: "op_LWR ?c = Some c1" by blast
  obtain v where v: "c1 = cpu_update (reg_load 2 v) ?c"
  proof -
    have "psycho_bus_load_word ?c 8 = Some (0x44332211, ?c)"
      using load_word_program [of ?c ?ws 2 8] by (simp add: f(2))
    then show thesis
      using that c1 rt by (auto simp: op_LWR_def bind_phys_addr no_bp f(3) p [unfolded f(3)] Let_def
          gpr_set_delayed_eq instr_rt_def)
  qed
  have sh1: "cpu_shape (cpu c1)"
    using mem_op_keeps(7) [OF c1] f(1) by (simp add: keeps_def cpu_inv_def)
  have "cpu_fetch c1 = Some (cpu_update (after_fetch (?ws ! 1)) (pre_fetch c1))"
    by (rule fetch_program [OF sh1]) (simp_all add: v f reg_load_def)
  then obtain c2 where c2: "cpu_fetch c1 = Some c2"
    and c2': "c2 = cpu_update (after_fetch 0x8802000C) (pre_fetch c1)" by simp
  have g2: "gpr (cpu c2) ! 0 = 0" "instr (cpu c2) = 0x8802000C" "bus c2 = bus ?c"
    by (simp_all add: c2' after_fetch_def v reg_load_def f(3))
  have p2: "data_paddr (cpu c2) = data_paddr (cpu ?c) + 3" "m_rt c2 = m_rt ?c"
    unfolding p rt
    by (simp_all add: g2 data_paddr_def data_vaddr_def get_vaddr_def instr_off_def instr_imm_def
        sign_ext_16_32_def vaddr_to_paddr_def instr_rs_def instr_rt_def)
  have "op_LWL c2 \<noteq> None"
    using sized by (simp add: load_op_None_iff(6) g2(3) p2(1) p word_hole_def del: not_None_eq)
  then obtain c3 where c3: "op_LWL c2 = Some c3" by blast
  have m: "mapped (data_paddr (cpu ?c) AND NOT 3)" "mapped ((data_paddr (cpu ?c) + 3) AND NOT 3)"
    by (simp_all add: p mapped_def writable_def in_range_def region_consts)
  have "m_rt ?c \<noteq> 0" by (simp add: rt)
  from unaligned_load [OF f(1) this m c1 c2 c3 p2(2) p2(1)] show ?thesis
    using c1 c2 c3 by (auto simp: p)
qed

section \<open>Partial stores\<close>

lemma swr_merge_byte:
  assumes "s < 4" "i < 4"
  shows "(ucast (drop_bit (8 * i) (swr_merge r w s)) :: u8) =
    (if i < s then ucast (drop_bit (8 * i) w) else ucast (drop_bit (8 * (i - s)) r))"
proof (cases "i < s")
  case True
  have "(ucast (drop_bit (8 * i) (swr_merge r w s)) :: u8) = ucast (drop_bit (8 * i) w)"
    using assms True by (intro byte_ext) (simp add: bit_swr_merge)
  with True show ?thesis by simp
next
  case False
  have "8 * i + n - s * 8 = 8 * (i - s) + n" for n using False by simp
  then have "(ucast (drop_bit (8 * i) (swr_merge r w s)) :: u8) = ucast (drop_bit (8 * (i - s)) r)"
    using assms False by (intro byte_ext) (simp add: bit_swr_merge)
  with False show ?thesis by simp
qed

lemma swl_merge_byte:
  assumes "s < 4" "i < 4"
  shows "(ucast (drop_bit (8 * i) (swl_merge r w s)) :: u8) =
    (if i \<le> s then ucast (drop_bit (8 * (i + (3 - s))) r) else ucast (drop_bit (8 * i) w))"
proof (cases "i \<le> s")
  case True
  have "(ucast (drop_bit (8 * i) (swl_merge r w s)) :: u8) = ucast (drop_bit (8 * (i + (3 - s))) r)"
    using assms True by (intro byte_ext) (simp add: bit_swl_merge algebra_simps)
  with True show ?thesis by simp
next
  case False
  have "(ucast (drop_bit (8 * i) (swl_merge r w s)) :: u8) = ucast (drop_bit (8 * i) w)"
    using assms False by (intro byte_ext) (simp add: bit_swl_merge)
  with False show ?thesis by simp
qed

lemma partial_store:
  assumes "bus_sized (bus ctx)" "writable (data_paddr (cpu ctx) AND NOT 3)"
    and "op = op_SWR \<and> merge = swr_merge \<or> op = op_SWL \<and> merge = swl_merge"
    and "op ctx = Some c"
  shows "\<exists>w. word_at (bus ctx) (data_paddr (cpu ctx) AND NOT 3) w \<and> bus_sized (bus c)
    \<and> mem_view (bus c) = mem_write (mem_view (bus ctx)) (data_paddr (cpu ctx) AND NOT 3)
        (le_bytes 4 (merge (gpr_rt ctx) w (unat (data_paddr (cpu ctx)) mod 4)))"
proof -
  let ?p = "data_paddr (cpu ctx)" and ?b = "bp_check ctx (data_vaddr (cpu ctx))"
  obtain w c' where ld: "psycho_bus_load_word ?b (?p AND NOT 3) = Some (w, c')"
    using assms(3,4) by (auto simp: mem_op_defs bind_phys_addr Let_def elim!: bind_eq_SomeE)
  have sized: "bus_sized (bus ?b)" and mapped: "mapped (?p AND NOT 3)"
    using assms(1,2) by (simp_all add: mapped_def)
  have c': "c' = ?b" "word_at (bus ctx) (?p AND NOT 3) w"
    using load_word_at [OF sized mapped ld] by simp_all
  have st: "psycho_bus_store_word ?b (?p AND NOT 3)
      (merge (gpr_rt ctx) w (unat ?p mod 4)) = Some c"
    using assms(3,4) ld
    by (auto simp: mem_op_defs bind_phys_addr Let_def c' swr_merge_def swl_merge_def unat_and_3)
  show ?thesis
    using word_port.store_refines [OF sized st] word_port.store_frame(6) [OF st] assms(1,2) c'(2)
    by auto
qed

lemma aligned_room: "unat (p AND - 4) + 4 \<le> 2 ^ 32" for p :: u32
proof -
  have "unat p < 2 ^ 30 * 4" using unsigned_less [of p, where ?'a = nat] by simp
  then have "unat p div 4 < 2 ^ 30" by (rule less_mult_imp_div_less)
  then show ?thesis by (simp add: unat_align minus_mod_eq_mult_div)
qed

lemma unat_align_add:
  "i < 4 \<Longrightarrow> unat ((p AND - 4) + of_nat i) = unat (p AND - 4) + i" for p :: u32
  using aligned_room [of p] by (simp add: unat_word_ariths unat_of_nat)

text \<open>The first store writes the word's front, from the address to the end of its word.\<close>

lemma swr_view:
  fixes p :: u32
  assumes word: "\<And>i. i < 4 \<Longrightarrow> m ((p AND - 4) + of_nat i) = Some (ucast (drop_bit (8 * i) w))"
  shows "mem_write m (p AND - 4) (le_bytes 4 (swr_merge r w (unat p mod 4)))
    = mem_write m p (take (4 - unat p mod 4) (le_bytes 4 r))"
proof
  fix q
  let ?s = "unat p mod 4"
  have up: "unat p = unat (p AND - 4) + ?s" by (simp add: unat_align)
  show "mem_write m (p AND - 4) (le_bytes 4 (swr_merge r w ?s)) q
      = mem_write m p (take (4 - ?s) (le_bytes 4 r)) q"
  proof (cases "unat (p AND - 4) \<le> unat q \<and> unat q < unat (p AND - 4) + 4")
    case True
    define i where "i = unat q - unat (p AND - 4)"
    have i: "i < 4" "unat q = unat (p AND - 4) + i" using True by (auto simp: i_def)
    then have q: "q = (p AND - 4) + of_nat i" by (simp add: word_unat_eq_iff unat_align_add)
    have s: "?s < 4" by simp
    have mq: "m q = Some (ucast (drop_bit (8 * i) w))" unfolding q by (rule word [OF i(1)])
    have lhs: "mem_write m (p AND - 4) (le_bytes 4 (swr_merge r w ?s)) q
        = Some (ucast (drop_bit (8 * i) (swr_merge r w ?s)))"
      using i by (simp add: mem_write_def)
    have "unat p \<le> unat q \<longleftrightarrow> ?s \<le> i" "unat q - unat p = i - ?s" "unat q < unat p + (4 - ?s)"
      using up i s by linarith+
    then have "mem_write m p (take (4 - ?s) (le_bytes 4 r)) q
        = (if ?s \<le> i then Some (ucast (drop_bit (8 * (i - ?s)) r)) else m q)"
      using i(1) by (auto simp: mem_write_def diff_less_mono)
    then show ?thesis unfolding lhs swr_merge_byte [OF s i(1)] mq by simp
  next
    case False
    then have "\<not> (unat p \<le> unat q \<and> unat q < unat p + (4 - ?s))" using up by linarith
    with False show ?thesis by (auto simp: mem_write_def)
  qed
qed

text \<open>The second one writes the word's end, up to its address.\<close>

lemma swl_view:
  fixes p :: u32
  assumes word: "\<And>i. i < 4 \<Longrightarrow> m ((p AND - 4) + of_nat i) = Some (ucast (drop_bit (8 * i) w))"
  shows "mem_write m (p AND - 4) (le_bytes 4 (swl_merge r w (unat p mod 4)))
    = mem_write m (p AND - 4) (drop (3 - unat p mod 4) (le_bytes 4 r))"
proof
  fix q
  let ?s = "unat p mod 4"
  show "mem_write m (p AND - 4) (le_bytes 4 (swl_merge r w ?s)) q
      = mem_write m (p AND - 4) (drop (3 - ?s) (le_bytes 4 r)) q"
  proof (cases "unat (p AND - 4) \<le> unat q \<and> unat q < unat (p AND - 4) + 4")
    case True
    define i where "i = unat q - unat (p AND - 4)"
    have i: "i < 4" "unat q = unat (p AND - 4) + i" using True by (auto simp: i_def)
    then have q: "q = (p AND - 4) + of_nat i" by (simp add: word_unat_eq_iff unat_align_add)
    have s: "?s < 4" by simp
    have mq: "m q = Some (ucast (drop_bit (8 * i) w))" unfolding q by (rule word [OF i(1)])
    have lhs: "mem_write m (p AND - 4) (le_bytes 4 (swl_merge r w ?s)) q
        = Some (ucast (drop_bit (8 * i) (swl_merge r w ?s)))"
      using i by (simp add: mem_write_def)
    have "mem_write m (p AND - 4) (drop (3 - ?s) (le_bytes 4 r)) q
        = (if i \<le> ?s then Some (ucast (drop_bit (8 * (i + (3 - ?s))) r)) else m q)"
      using i s by (auto simp: mem_write_def add.commute)
    then show ?thesis unfolding lhs swl_merge_byte [OF s i(1)] mq by simp
  next
    case False
    then show ?thesis by (auto simp: mem_write_def)
  qed
qed

lemma pair_view:
  fixes p :: u32
  assumes "unat p + 3 < 2 ^ 32" "length bs = 4"
  shows "mem_write (mem_write m p (take (4 - unat p mod 4) bs)) ((p + 3) AND - 4)
      (drop (3 - unat (p + 3) mod 4) bs) = mem_write m p bs"
proof
  fix q
  have p3: "unat (p + 3) = unat p + 3" using assms(1) by (simp add: unat_word_ariths)
  define a t s where "a = unat ((p + 3) AND - 4)" and "t = (unat p + 3) mod 4" and "s = unat p mod 4"
  have at: "a + t = unat p + 3" "t < 4" "s < 4" by (simp_all add: a_def t_def s_def unat_align p3)
  have st: "s = 0 \<and> t = 3 \<or> s = Suc t" unfolding s_def t_def by presburger
  show "mem_write (mem_write m p (take (4 - unat p mod 4) bs)) ((p + 3) AND - 4)
      (drop (3 - unat (p + 3) mod 4) bs) q = mem_write m p bs q"
  proof (cases "a \<le> unat q \<and> unat q < a + t + 1")
    case True
    then have "3 - t + (unat q - a) = unat q - unat p" "unat p \<le> unat q" "unat q < unat p + 4"
      using at by linarith+
    with True at assms(2) show ?thesis
      by (simp add: mem_write_def p3 a_def [symmetric] t_def [symmetric] s_def [symmetric])
  next
    case False
    then have "\<not> (a \<le> unat q \<and> unat q < a + (4 - (3 - t)))" using at(2) by linarith
    moreover have "unat p \<le> unat q \<and> unat q < unat p + (4 - s) \<longleftrightarrow>
        unat p \<le> unat q \<and> unat q < unat p + 4"
      using False at st by linarith
    ultimately show ?thesis using assms(2) at
      by (auto simp: mem_write_def p3 a_def [symmetric] t_def [symmetric] s_def [symmetric])
  qed
qed

text \<open>
  C14: \<^verbatim>\<open>SWR\<close> of an address followed by \<^verbatim>\<open>SWL\<close> of the same register at the address three
  further writes exactly the four bytes from that address on, whatever its alignment.
\<close>

theorem unaligned_store:
  assumes inv: "cpu_inv ctx"
    and wr: "writable (data_paddr (cpu ctx) AND NOT 3)"
      "writable ((data_paddr (cpu ctx) + 3) AND NOT 3)"
    and ops: "op_SWR ctx = Some c1" "cpu_fetch c1 = Some c2" "op_SWL c2 = Some c3"
    and second: "gpr_rt c2 = gpr_rt ctx" "data_paddr (cpu c2) = data_paddr (cpu ctx) + 3"
  shows "mem_view (bus c3) =
    mem_write (mem_view (bus ctx)) (data_paddr (cpu ctx)) (le_bytes 4 (gpr_rt ctx))"
proof -
  let ?p = "data_paddr (cpu ctx)" and ?m = "mem_view (bus ctx)" and ?r = "gpr_rt ctx"
  have sized: "bus_sized (bus ctx)" and sh: "cpu_shape (cpu ctx)"
    using inv by (simp_all add: cpu_inv_def)
  obtain w0 where w0: "word_at (bus ctx) (?p AND NOT 3) w0" "bus_sized (bus c1)"
    "mem_view (bus c1) = mem_write ?m (?p AND NOT 3) (le_bytes 4 (swr_merge ?r w0 (unat ?p mod 4)))"
    using partial_store [OF sized wr(1), of op_SWR swr_merge c1] ops(1) by auto
  have m1: "mem_view (bus c1) = mem_write ?m ?p (take (4 - unat ?p mod 4) (le_bytes 4 ?r))"
    using swr_view [of ?m ?p w0] word_atD [OF w0(1)] by (simp add: w0(3))
  have sh1: "cpu_shape (cpu c1)"
    using mem_op_keeps(12) [OF ops(1)] sh by (simp add: keeps_def)
  have c2: "bus c2 = bus c1" by (rule cpu_fetch_Some [OF sh1 ops(2)]) simp
  obtain w1 where w1: "word_at (bus c2) ((?p + 3) AND NOT 3) w1"
    "mem_view (bus c3) = mem_write (mem_view (bus c2)) ((?p + 3) AND NOT 3)
       (le_bytes 4 (swl_merge ?r w1 (unat (?p + 3) mod 4)))"
    using partial_store [of c2 op_SWL swl_merge c3] w0(2) wr(2) ops(3) second c2 by auto
  have "mem_view (bus c3) = mem_write (mem_view (bus c2)) ((?p + 3) AND NOT 3)
      (drop (3 - unat (?p + 3) mod 4) (le_bytes 4 ?r))"
    using swl_view [of "mem_view (bus c2)" "?p + 3" w1] word_atD [OF w1(1)] by (simp add: w1(2))
  moreover have "unat ?p + 3 < 2 ^ 32"
  proof -
    have "unat (?p AND - 4) \<le> 0x1F8003FF" using wr(1) by (auto simp: writable_def region_bounds)
    then show ?thesis unfolding unat_align by (simp add: le_diff_conv)
  qed
  ultimately show ?thesis using pair_view [of ?p "le_bytes 4 ?r" ?m] by (simp add: c2 m1)
qed


lemma load_after_distant_store:
  assumes "psycho_bus_store_word ctx p x = Some c" "unat p \<le> 0x200000"
    and "unat q + 4 \<le> unat p" "psycho_bus_load_word ctx q = Some (w, ctx)"
    and "bus d = bus c"
  shows "psycho_bus_load_word d q = Some (w, d)"
proof -
  obtain r where r: "memcpy_to (ram (bus ctx)) (unat p) (le_bytes 4 x) = Some r"
    "c = bus_update (ram_update (\<lambda>_. r)) ctx"
    using assms(1,2) by (auto simp: psycho_bus_store_word_def ram_bounds elim!: bind_eq_SomeE)
  have "memcpy_from r (unat q) 4 = memcpy_from (ram (bus ctx)) (unat q) 4"
    using buf.rd_wr_disjoint [OF r(1), of "unat q" 4] assms(3) by simp
  with assms show ?thesis
    by (auto simp: psycho_bus_load_word_def ram_bounds r(2) elim!: bind_eq_SomeE)
qed

text \<open>\<^verbatim>\<open>swr $v0, 9($zero)\<close> and \<^verbatim>\<open>swl $v0, 12($zero)\<close>.\<close>

lemma store_pair_data:
  "data_paddr (cpu (pair_ctx 0xB8020009 0xA802000C)) = 9"
  "gpr c = (replicate 32 0)[2 := 0xDDCCBBAA] \<Longrightarrow> instr c = 0xA802000C \<Longrightarrow> data_paddr c = 12"
  by (simp_all add: pair_ctx_facts(3) data_paddr_def data_vaddr_def get_vaddr_def instr_off_def
      instr_imm_def sign_ext_16_32_def vaddr_to_paddr_def instr_rs_def)

lemma store_pair_runs:
  obtains c1 c2 c3 where "op_SWR (pair_ctx 0xB8020009 0xA802000C) = Some c1"
    "cpu_fetch c1 = Some c2" "op_SWL c2 = Some c3"
    "gpr (cpu c2) = (replicate 32 0)[2 := 0xDDCCBBAA]" "instr (cpu c2) = 0xA802000C"
    "data_paddr (cpu c2) = 12"
proof -
  let ?c = "pair_ctx 0xB8020009 0xA802000C"
  let ?ws = "[0xB8020009, 0xA802000C, 0x44332211, 0x88776655]"
  note f = pair_ctx_facts [of "0xB8020009" "0xA802000C"]
  have sized: "bus_sized (bus ?c)" using f(1) by (simp add: cpu_inv_def)
  have words: "psycho_bus_load_word ?c 8 = Some (0x44332211, ?c)"
    "psycho_bus_load_word ?c 4 = Some (0xA802000C, ?c)"
    using load_word_program [of ?c ?ws 2 8] load_word_program [of ?c ?ws 1 4] by (simp_all add: f(2))
  obtain c1 where c1: "op_SWR ?c = Some c1"
    using merge_op_None_iff(2) [OF sized] by (auto simp: store_pair_data(1) word_hole_def)
  have bp: "bp_check ?c v = ?c" for v by (rule no_bp) (simp add: f(3))
  obtain x where st: "psycho_bus_store_word ?c 8 x = Some c1"
    using c1 words(1) by (auto simp: op_SWR_def bind_phys_addr bp store_pair_data(1) Let_def)
  have cpu1: "cpu c1 = cpu ?c" by (rule word_port.store_frame(1) [OF st])
  have sh1: "cpu_shape (cpu c1)" using f(1) by (simp add: cpu1 cpu_inv_def)
  have "psycho_bus_load_word (pre_fetch c1) 4 = Some (0xA802000C, pre_fetch c1)"
    by (rule load_after_distant_store [OF st _ _ words(2)]) simp_all
  then obtain c2 where c2: "cpu_fetch c1 = Some c2"
    and c2': "c2 = cpu_update (after_fetch 0xA802000C) (pre_fetch c1)"
    by (simp add: cpu_fetch_eq [OF sh1] cpu1 f(3) fetch_pc_def vaddr_to_paddr_def)
  have g2: "gpr (cpu c2) = (replicate 32 0)[2 := 0xDDCCBBAA]" "instr (cpu c2) = 0xA802000C"
    "bus c2 = bus c1"
    by (simp_all add: c2' after_fetch_def cpu1 f(3) list_update_swap [of 2 0] zero_entry)
  note p2 = store_pair_data(2) [OF g2(1,2)]
  have "bus_sized (bus c2)" using word_port.store_frame(6) [OF st] sized by (simp add: g2(3))
  then obtain c3 where "op_SWL c2 = Some c3"
    using merge_op_None_iff(1) [of c2] by (auto simp: p2 word_hole_def)
  with c1 c2 g2(1,2) p2 show thesis by (intro that)
qed

lemma unaligned_store_witness:
  "\<exists>c1 c2 c3. op_SWR (pair_ctx 0xB8020009 0xA802000C) = Some c1 \<and> cpu_fetch c1 = Some c2
    \<and> op_SWL c2 = Some c3 \<and> mem_view (bus c3) =
      mem_write (mem_view (bus (pair_ctx 0xB8020009 0xA802000C))) 9 [0xAA, 0xBB, 0xCC, 0xDD]"
proof -
  let ?c = "pair_ctx 0xB8020009 0xA802000C"
  note f = pair_ctx_facts [of "0xB8020009" "0xA802000C"] and p = store_pair_data(1)
  obtain c1 c2 c3 where c: "op_SWR ?c = Some c1" "cpu_fetch c1 = Some c2" "op_SWL c2 = Some c3"
    and c2: "gpr (cpu c2) = (replicate 32 0)[2 := 0xDDCCBBAA]" "instr (cpu c2) = 0xA802000C"
      "data_paddr (cpu c2) = 12"
    by (rule store_pair_runs)
  have r2: "gpr_rt c2 = gpr_rt ?c" and rv: "gpr_rt ?c = 0xDDCCBBAA"
    by (simp_all only: c2 f(3)) (simp_all add: instr_rt_def)
  have "mem_view (bus c3) = mem_write (mem_view (bus ?c)) (data_paddr (cpu ?c)) (le_bytes 4 (gpr_rt ?c))"
    by (rule unaligned_store [OF f(1) _ _ c r2])
      (simp_all add: p c2(3) writable_def in_range_def region_consts)
  moreover have "le_bytes 4 (0xDDCCBBAA :: u32) = [0xAA, 0xBB, 0xCC, 0xDD]"
    by (simp add: le_bytes_4 word_unat_eq_iff)
  ultimately show ?thesis using c unfolding p rv by auto
qed

end
