(* ===== verification/Memory_Map.thy ===== *)
theory Memory_Map
  imports Cpu_Memory
begin

text \<open>
  The memory map as a program sees it: what the bus promises at its three widths, where its
  buffers are too short for its ranges, the address mirrors, the sub-word loads and the data
  breakpoint.
\<close>

section \<open>The bus\<close>

text \<open>
  C12: on buffers of the declared sizes an aligned access leaves its buffer exactly at the
  addresses behind the last byte of a region that the ranges of the bus still include;
  everywhere else it returns.
\<close>

theorem bus_bounds:
  assumes "bus_sized (bus ctx)"
  shows "(psycho_bus_load_byte ctx p = None \<longleftrightarrow> p \<in> {0x00200000, 0x1F8003FF, 0x1FC7FFFF})
    \<and> (psycho_bus_load_halfword ctx (p AND NOT 1) = None \<longleftrightarrow> p AND NOT 1 \<in> {0x00200000, 0x1F8003FE})
    \<and> (psycho_bus_load_word ctx (p AND NOT 3) = None
        \<longleftrightarrow> p AND NOT 3 \<in> {0x00200000, 0x1F8003FC, 0x1FC7FFFC})
    \<and> (psycho_bus_store_byte ctx p b = None \<longleftrightarrow> p \<in> {0x00200000, 0x1F8003FF})
    \<and> (psycho_bus_store_halfword ctx (p AND NOT 1) h = None
        \<longleftrightarrow> p AND NOT 1 \<in> {0x00200000, 0x1F8003FE})
    \<and> (psycho_bus_store_word ctx (p AND NOT 3) w = None
        \<longleftrightarrow> p AND NOT 3 \<in> {0x00200000, 0x1F8003FC})"
proof -
  have a1: "(p AND NOT 1) AND 1 = 0" and a3: "(p AND NOT 3) AND 3 = 0"
    by (simp_all add: and.assoc)
  show ?thesis
    unfolding load_None_hole(1) [OF assms] load_None_hole(2) [OF assms a1]
      load_None_hole(3) [OF assms a3] store_None_hole(1) [OF assms]
      store_None_hole(2) [OF assms a1] store_None_hole(3) [OF assms a3]
      word_hole_def halfword_hole_def byte_hole_def by auto
qed

lemma bus_bounds_witness:
  "psycho_bus_load_word (boot_ctx (\<lambda>_. 0)) 0x00200000 = None
   \<and> psycho_bus_load_word (boot_ctx (\<lambda>_. 0)) 0x001FFFFC \<noteq> None"
  using bus_bounds [OF booted_sized(1), of "\<lambda>_. 0" "0x00200000"]
    bus_bounds [OF booted_sized(1), of "\<lambda>_. 0" "0x001FFFFC"] by simp

text \<open>
  C35: what is stored at an address of RAM or scratchpad is what the next load of the same
  width there returns, without a message.
\<close>

theorem store_load_roundtrip:
  assumes "bus_sized (bus ctx)" "writable p"
  shows "(psycho_bus_store_byte ctx p b = Some c \<longrightarrow> psycho_bus_load_byte c p = Some (b, c))
    \<and> (psycho_bus_store_halfword ctx p h = Some c \<longrightarrow> psycho_bus_load_halfword c p = Some (h, c))
    \<and> (psycho_bus_store_word ctx p w = Some c \<longrightarrow> psycho_bus_load_word c p = Some (w, c))"
  using byte_port.load_after_store [OF assms] half_port.load_after_store [OF assms]
    word_port.load_after_store [OF assms] by blast

lemma store_load_roundtrip_witness:
  "\<exists>c. psycho_bus_store_word (boot_ctx (\<lambda>_. 0)) 0x1F800010 0xCAFEBABE = Some c
    \<and> psycho_bus_load_word c 0x1F800010 = Some (0xCAFEBABE, c)"
proof -
  have w: "writable 0x1F800010" by (simp add: writable_def in_range_def region_consts)
  have "psycho_bus_store_word (boot_ctx (\<lambda>_. 0)) 0x1F800010 0xCAFEBABE \<noteq> None"
    by (simp add: store_None_hole(3) word_hole_def del: not_None_eq)
  then show ?thesis using store_load_roundtrip [OF booted_sized(1) w] by blast
qed

text \<open>
  C9: the bus implements a memory of bytes: a store of any width is a write of its
  little-endian bytes at consecutive addresses of RAM and scratchpad and leaves the memory
  alone elsewhere, the BIOS included.
\<close>

theorem stores_refine_memory:
  assumes "bus_sized (bus ctx)"
  shows "(psycho_bus_store_byte ctx p b = Some c \<longrightarrow> mem_view (bus c) =
        (if writable p then mem_write (mem_view (bus ctx)) p [b] else mem_view (bus ctx)))
    \<and> (psycho_bus_store_halfword ctx p h = Some c \<longrightarrow> mem_view (bus c) =
        (if writable p then mem_write (mem_view (bus ctx)) p (le_bytes 2 h) else mem_view (bus ctx)))
    \<and> (psycho_bus_store_word ctx p w = Some c \<longrightarrow> mem_view (bus c) =
        (if writable p then mem_write (mem_view (bus ctx)) p (le_bytes 4 w) else mem_view (bus ctx)))"
  using byte_port.store_refines [OF assms, of p b c] half_port.store_refines [OF assms, of p h c]
    word_port.store_refines [OF assms, of p w c] by blast

lemma stores_refine_memory_witness:
  "\<exists>c. psycho_bus_store_byte (boot_ctx (\<lambda>_. 0)) 0x10 7 = Some c \<and> mem_view (bus c) 0x10 = Some 7
    \<and> mem_view (bus c) 0x11 = Some 0"
proof -
  have w: "writable 0x10" by (simp add: writable_def in_range_def region_consts)
  have "psycho_bus_store_byte (boot_ctx (\<lambda>_. 0)) 0x10 7 \<noteq> None"
    by (simp add: store_None_hole(1) byte_hole_def del: not_None_eq)
  then obtain c where c: "psycho_bus_store_byte (boot_ctx (\<lambda>_. 0)) 0x10 7 = Some c" by blast
  then have "mem_view (bus c) = mem_write (mem_view (bus (boot_ctx (\<lambda>_. 0)))) 0x10 [7]"
    using stores_refine_memory [OF booted_sized(1), of "\<lambda>_. 0" "0x10" 7 c] w by simp
  with c show ?thesis by (auto simp: mem_write_def mem_view_eq)
qed

text \<open>
  A word load returns the little-endian word of the bytes the memory holds at its address
  and the three behind it; at an address of no region it returns all ones and only logs.
\<close>

lemma load_word_reads_memory:
  assumes "bus_sized (bus ctx)" "psycho_bus_load_word ctx p = Some (w, c)"
  shows "bus c = bus ctx \<and> cpu c = cpu ctx \<and> (if mapped p then word_at (bus ctx) p w else w = 0xFFFFFFFF)"
  using load_word_at [OF assms(1) _ assms(2)] word_port.load_default [OF _ assms(2)]
    word_port.load_frame [OF assms(2)] by simp

lemma load_word_reads_memory_witness:
  "psycho_bus_load_word (program_ctx [0x11223344] []) 0 = Some (0x11223344, program_ctx [0x11223344] [])
    \<and> word_at (bus (program_ctx [0x11223344] [])) 0 0x11223344"
proof -
  have l: "psycho_bus_load_word (program_ctx [0x11223344] []) 0 = Some (0x11223344, program_ctx [0x11223344] [])"
    using load_word_program [of "program_ctx [0x11223344] []" "[0x11223344]" 0] by simp
  have "mapped 0" by (simp add: mapped_def writable_def in_range_def region_consts)
  with load_word_reads_memory [OF booted_sized(2) l] l show ?thesis by simp
qed

text \<open>
  The BIOS cannot be written, and although bytes and words of it can be read, a halfword
  read there returns all ones.
\<close>

lemma bios_accesses:
  assumes "bus_sized (bus ctx)" "in_range p BIOS_ADDR_START BIOS_ADDR_END"
  shows "(\<exists>c. psycho_bus_store_byte ctx p b = Some c \<and> bus c = bus ctx)
    \<and> (\<exists>c. psycho_bus_store_halfword ctx p h = Some c \<and> bus c = bus ctx)
    \<and> (\<exists>c. psycho_bus_store_word ctx p w = Some c \<and> bus c = bus ctx)
    \<and> (\<exists>c. psycho_bus_load_halfword ctx p = Some (0xFFFF, c) \<and> bus c = bus ctx)
    \<and> (p \<noteq> BIOS_ADDR_END \<longrightarrow> psycho_bus_load_byte ctx p =
        Some (buf_byte (bios (bus ctx)) (unat p - 0x1FC00000), ctx))"
proof -
  have nw: "\<not> writable p" and m: "mapped p"
    using assms(2) region_disjoint [of p] by (auto simp: writable_def mapped_def)
  have "\<exists>c. psycho_bus_store_byte ctx p b = Some c \<and> bus c = bus ctx"
    using byte_port.store_other [OF nw] by fastforce
  moreover have "\<exists>c. psycho_bus_store_halfword ctx p h = Some c \<and> bus c = bus ctx"
    using half_port.store_other [OF nw] by fastforce
  moreover have "\<exists>c. psycho_bus_store_word ctx p w = Some c \<and> bus c = bus ctx"
    using word_port.store_other [OF nw] by fastforce
  moreover have "\<exists>c. psycho_bus_load_halfword ctx p = Some (0xFFFF, c) \<and> bus c = bus ctx"
    using half_port.load_unmapped [OF nw] by fastforce
  moreover have "psycho_bus_load_byte ctx p = Some (buf_byte (bios (bus ctx)) (unat p - 0x1FC00000), ctx)"
    if "p \<noteq> BIOS_ADDR_END"
  proof -
    have "unat p \<noteq> unat BIOS_ADDR_END" using that word_unat_eq_iff by blast
    then have "unat p \<noteq> 0x1FC7FFFF" by (simp add: BIOS_ADDR_END_def)
    then have "unat p - 0x1FC00000 < 0x7FFFF"
      using assms(2) unfolding bios_bounds by linarith
    then show ?thesis
      using assms region_disjoint [of p] bios_offset [OF assms(2)]
      by (auto simp: psycho_bus_load_byte_def buf_get_def bus_sized_iff)
  qed
  ultimately show ?thesis by blast
qed

lemma bios_accesses_witness:
  "\<exists>c. psycho_bus_load_halfword (boot_ctx (\<lambda>_. 0)) 0x1FC00000 = Some (0xFFFF, c)"
proof -
  have "in_range 0x1FC00000 BIOS_ADDR_START BIOS_ADDR_END" by (simp add: in_range_def region_consts)
  from bios_accesses [OF booted_sized(1) this] show ?thesis by blast
qed

section \<open>Addresses\<close>

lemma not_cache_control: "\<not> bit a 30 \<Longrightarrow> vaddr_to_paddr a = a AND mask 29"
  by (auto simp: vaddr_to_paddr_def mask_numerals(11))

text \<open>
  The cached and uncached segments mirror physical memory, physical addresses stand for
  themselves, and apart from the cache control register every address is below 512 MB.
\<close>

lemma address_mirrors:
  "vaddr_to_paddr (0x80000000 OR (p AND 0x1FFFFFFF)) = p AND 0x1FFFFFFF
   \<and> vaddr_to_paddr (0xA0000000 OR (p AND 0x1FFFFFFF)) = p AND 0x1FFFFFFF
   \<and> vaddr_to_paddr (p AND 0x1FFFFFFF) = p AND 0x1FFFFFFF
   \<and> (if a = 0xFFFE0130 then vaddr_to_paddr a = a else unat (vaddr_to_paddr a) < 2 ^ 29)"
proof -
  have mirror: "vaddr_to_paddr (b OR (p AND 0x1FFFFFFF)) = p AND 0x1FFFFFFF"
    if "\<not> bit b 30" "b AND mask 29 = 0" for b
  proof -
    have "\<not> bit (b OR (p AND 0x1FFFFFFF)) 30"
      using that(1) by (simp add: bit_simps mask_numerals(11) del: bit_numeral_word_iff)
    then have "vaddr_to_paddr (b OR (p AND 0x1FFFFFFF)) = (b OR (p AND mask 29)) AND mask 29"
      using not_cache_control by (simp add: mask_numerals(11))
    also have "\<dots> = p AND mask 29"
      using that(2) by (simp add: bit.conj_disj_distrib2 and.assoc)
    finally show ?thesis by (simp add: mask_numerals(11))
  qed
  have "unat (a AND 0x1FFFFFFF) < 2 ^ 29"
    using unat_and_mask_less [of a 29] by (simp only: mask_numerals(11))
  then have low: "if a = 0xFFFE0130 then vaddr_to_paddr a = a else unat (vaddr_to_paddr a) < 2 ^ 29"
    by (simp add: vaddr_to_paddr_def)
  show ?thesis
    using mirror [of "0x80000000"] mirror [of "0xA0000000"] mirror [of 0] low
    by (simp add: mask_eq_exp_minus_1)
qed

text \<open>
  C27: the physical address of a load or store is that of its virtual address except from 1 MB
  to 16 MB, where data accesses are folded into the first megabyte, unlike fetches.
\<close>

theorem data_address_iff:
  "map_option fst (get_phys_addr ctx) = Some (vaddr_to_paddr (data_vaddr (cpu ctx)))
   \<longleftrightarrow> unat (data_vaddr (cpu ctx)) < 0x00100000 \<or> 0x00FFFFFF < unat (data_vaddr (cpu ctx))"
proof -
  let ?v = "data_vaddr (cpu ctx)"
  have "data_paddr (cpu ctx) = vaddr_to_paddr ?v \<longleftrightarrow> unat ?v < 0x00100000 \<or> 0x00FFFFFF < unat ?v"
  proof (cases "?v \<le> 0x00FFFFFF")
    case False
    then show ?thesis by (simp add: data_paddr_def word_le_nat_alt)
  next
    case True
    then have small: "unat ?v < 2 ^ 24" by (simp add: word_le_nat_alt)
    have id: "vaddr_to_paddr w = w" if "unat w < 2 ^ 24" for w
    proof -
      have "unat (w AND mask 29) = unat w"
        using that by (simp add: and_mask_take_bit unat_take_bit take_bit_nat_eq_self)
      then have "w AND mask 29 = w" by (simp add: word_unat_eq_iff)
      then show ?thesis by (simp add: vaddr_to_paddr_def mask_numerals(11))
    qed
    have f: "unat (?v AND 0xFFFFF) = unat ?v mod 0x100000"
      by (rule unat_and_FFFFF [simplified])
    then have "unat (?v AND 0xFFFFF) < 2 ^ 24" by simp
    then have "data_paddr (cpu ctx) = vaddr_to_paddr ?v \<longleftrightarrow> ?v AND 0xFFFFF = ?v"
      using True small id by (simp add: data_paddr_def)
    also have "\<dots> \<longleftrightarrow> unat ?v mod 0x100000 = unat ?v" by (simp add: word_unat_eq_iff f)
    also have "\<dots> \<longleftrightarrow> unat ?v < 0x100000" using mod_eq_self_iff_div_eq_0 by force
    finally show ?thesis using small by simp
  qed
  then show ?thesis by (simp add: get_phys_addr_eq)
qed

section \<open>Narrow loads\<close>

lemma load_byte_view:
  "mem_view (bus ctx) p = Some b \<Longrightarrow> psycho_bus_load_byte ctx p = Some (b, ctx)"
  by (auto simp: mem_view_def byte_port.load_mapped split: if_splits)

lemma load_halfword_view:
  assumes "bus_sized (bus ctx)" "writable p" "p AND 1 = 0"
    and "mem_view (bus ctx) p = Some b0" "mem_view (bus ctx) (p + 1) = Some b1"
  shows "psycho_bus_load_halfword ctx p = Some (word_cat b1 b0, ctx)"
proof -
  have even: "unat p mod 2 = 0" using assms(3) by (simp add: and_1_eq_0_iff)
  have "mem_view (bus ctx) 0x00200000 = None" "mem_view (bus ctx) 0x1F8003FF = None"
    using assms(1) by (simp_all add: mem_view_eq)
  then have "p \<noteq> 0x00200000" "p + 1 \<noteq> 0x1F8003FF" using assms(4,5) by auto
  then have "\<not> halfword_hole p" by (auto simp: halfword_hole_def)
  then obtain h c where l: "psycho_bus_load_halfword ctx p = Some (h, c)"
    using load_None_hole(2) [OF assms(1,3)] by (cases "psycho_bus_load_halfword ctx p") auto
  obtain bs where bs: "h = le_word bs" "length bs = 2" "c = ctx"
    "\<And>i. i < 2 \<Longrightarrow> mem_view (bus ctx) (p + of_nat i) = Some (bs ! i)"
    using half_port.load_bytes [OF assms(1,2) l] by metis
  have "bs = [b0, b1]"
    using bs(2) bs(4) [of 0] bs(4) [of 1] assms(4,5) by (cases bs; cases "tl bs") auto
  then have "h = word_cat b1 b0"
    by (intro bit_word_eqI)
      (auto simp: bs(1) bit_simps bit_word_cat_iff dest: bit_imp_le_length)
  with l bs(3) show ?thesis by simp
qed

text \<open>
  \<^verbatim>\<open>LB\<close>, \<^verbatim>\<open>LBU\<close>, \<^verbatim>\<open>LH\<close> and \<^verbatim>\<open>LHU\<close> put the signed or unsigned value of the byte or
  little-endian halfword at their address behind the load delay slot.
\<close>

lemma narrow_loads:
  assumes "bus_sized (bus ctx)" "m_rt ctx \<noteq> 0" "writable (data_paddr (cpu ctx))"
    and "data_paddr (cpu ctx) AND 1 = 0"
    and "mem_view (bus ctx) (data_paddr (cpu ctx)) = Some b0"
    and "mem_view (bus ctx) (data_paddr (cpu ctx) + 1) = Some b1"
  shows "(\<exists>c. op_LB ctx = Some c \<and>
        ld_pend (cpu c) = \<lparr>ld_dst = m_rt ctx, ld_val = word_of_int (sint b0)\<rparr>)
    \<and> (\<exists>c. op_LBU ctx = Some c \<and>
        ld_pend (cpu c) = \<lparr>ld_dst = m_rt ctx, ld_val = word_of_nat (unat b0)\<rparr>)
    \<and> (\<exists>c. op_LH ctx = Some c \<and> ld_pend (cpu c) =
        \<lparr>ld_dst = m_rt ctx, ld_val = word_of_int (sint (word_cat b1 b0 :: u16))\<rparr>)
    \<and> (\<exists>c. op_LHU ctx = Some c \<and> ld_pend (cpu c) =
        \<lparr>ld_dst = m_rt ctx, ld_val = word_of_nat (unat b0 + 256 * unat b1)\<rparr>)"
proof -
  let ?b = "bp_check ctx (data_vaddr (cpu ctx))" and ?p = "data_paddr (cpu ctx)"
  have lb: "psycho_bus_load_byte ?b ?p = Some (b0, ?b)"
    using assms(5) by (intro load_byte_view) simp
  have lh: "psycho_bus_load_halfword ?b ?p = Some (word_cat b1 b0, ?b)"
    using assms by (intro load_halfword_view) simp_all
  have "(word_cat b1 b0 :: u16) = word_of_nat (unat b0 + 256 * unat b1)"
    by (simp add: word_cat_eq push_bit_eq_mult mult.commute add.commute)
  moreover have "unat b0 + 256 * unat b1 < 2 ^ 16"
    using unsigned_less [of b0, where ?'a = nat] unsigned_less [of b1, where ?'a = nat] by simp
  ultimately have "unat (word_cat b1 b0 :: u16) = unat b0 + 256 * unat b1"
    by (simp only: unat_of_nat) simp
  then have u16: "(ucast (word_cat b1 b0 :: u16) :: u32) = word_of_nat (unat b0 + 256 * unat b1)"
    by (metis of_nat_unat)
  show ?thesis
    using assms(2,4) lb lh
    by (simp add: mem_op_defs bind_phys_addr Let_def gpr_set_delayed_eq reg_load_def sign_ext_8_32_def
        sign_ext_16_32_def u16
        del: of_nat_add of_nat_mult)
qed

text \<open>\<^verbatim>\<open>lh $v0, 8($zero)\<close> with \<^verbatim>\<open>0x11, 0x22\<close> at address 8; the other three read the same.\<close>

lemma narrow_loads_witness:
  "\<exists>c. op_LH (pair_ctx 0x84020008 0) = Some c
    \<and> ld_pend (cpu c) = \<lparr>ld_dst = 2, ld_val = 0x2211\<rparr>"
proof -
  let ?c = "pair_ctx 0x84020008 0"
  note f = pair_ctx_facts [of "0x84020008" 0]
  have p: "data_paddr (cpu ?c) = 8" and rt: "m_rt ?c = 2"
    by (simp_all add: f(3) data_paddr_def data_vaddr_def get_vaddr_def instr_off_def instr_imm_def
        sign_ext_16_32_def vaddr_to_paddr_def instr_rs_def instr_rt_def)
  have sized: "bus_sized (bus ?c)" by (simp add: f(2))
  have w: "writable 8" by (simp add: writable_def in_range_def region_consts)
  have b: "mem_view (bus ?c) 8 = Some 0x11" "mem_view (bus ?c) (8 + 1) = Some 0x22"
    by (simp_all add: f(2) mem_view_eq ram_words_def word_unat_eq_iff)
  have v: "scast (word_cat (0x22 :: u8) (0x11 :: u8) :: u16) = (0x2211 :: u32)"
    by (simp add: word_cat_eq)
  have "m_rt ?c \<noteq> 0" by (simp add: rt)
  from narrow_loads [OF sized this] w b show ?thesis by (simp add: p rt v)
qed

section \<open>Data breakpoints\<close>

text \<open>
  C36: a store that hits the data breakpoint raises the exception, and is nevertheless carried
  out: memory holds the new value when the handler starts.
\<close>

theorem breakpoint_does_not_suppress:
  assumes "bus_sized (bus ctx)" "bp_hit (cpu ctx) (data_vaddr (cpu ctx))"
    and "cop0_reg ctx CPU_COP0_SR AND CPU_SR_ISC = 0" "data_paddr (cpu ctx) AND 3 = 0"
    and "writable (data_paddr (cpu ctx))" "op_SW ctx = Some c"
  shows "pc (cpu c) = 0x80000040 \<and> cop0 (cpu c) = cop0 (exception_entry EXCEPTION_BP (cpu ctx))
    \<and> mem_view (bus c) =
        mem_write (mem_view (bus ctx)) (data_paddr (cpu ctx)) (le_bytes 4 (gpr_rt ctx))"
proof -
  let ?b = "bp_check ctx (data_vaddr (cpu ctx))"
  have st: "psycho_bus_store_word ?b (data_paddr (cpu ctx)) (gpr_rt ctx) = Some c"
    using assms(3,4,6) by (simp add: op_SW_def bind_phys_addr)
  have "cpu ?b = bp_entry (cpu ctx)" using assms(2) by (simp add: bp_check_def)
  moreover have "bus_sized (bus ?b)" using assms(1) by simp
  ultimately show ?thesis
    using word_port.store_frame(1) [OF st] word_port.store_refines [OF _ st] assms(5)
    by (simp add: bp_entry_def)
qed

text \<open>\<^verbatim>\<open>sw $v0, 16($zero)\<close> with the breakpoint armed at address 16.\<close>

lemma breakpoint_does_not_suppress_witness:
  "\<exists>c. op_SW (cpu_update (\<lambda>c. c\<lparr>cop0 := (replicate 32 0)[7 := 0x00800000, 5 := 0x10, 9 := 0xFFFFFFFF]\<rparr>)
      (instr_ctx 0xAC020010 ((replicate 32 0)[2 := 7]))) = Some c
    \<and> pc (cpu c) = 0x80000040 \<and> mem_view (bus c) 0x10 = Some 7"
proof -
  let ?c = "cpu_update (\<lambda>c. c\<lparr>cop0 := (replicate 32 0)[7 := 0x00800000, 5 := 0x10, 9 := 0xFFFFFFFF]\<rparr>)
      (instr_ctx 0xAC020010 ((replicate 32 0)[2 := 7]))"
  have sized: "bus_sized (bus ?c)" by simp
  have v: "data_vaddr (cpu ?c) = 0x10" and rt: "gpr_rt ?c = 7"
    by (simp_all add: data_vaddr_def get_vaddr_def instr_off_def instr_imm_def
        sign_ext_16_32_def instr_rs_def instr_rt_def)
  have p: "data_paddr (cpu ?c) = 0x10" unfolding data_paddr_def v by (simp add: vaddr_to_paddr_def)
  have bp: "bp_hit (cpu ?c) (data_vaddr (cpu ?c))"
    unfolding v by (simp add: bp_hit_def CPU_DCIC_DE_def CPU_DCIC_DAE_def)
  have sr: "cop0_reg ?c CPU_COP0_SR AND CPU_SR_ISC = 0" by simp
  have w: "writable (data_paddr (cpu ?c))"
    unfolding p by (simp add: writable_def in_range_def region_consts)
  have al: "data_paddr (cpu ?c) AND 3 = 0" unfolding p by simp
  have "op_SW ?c \<noteq> None"
    unfolding store_op_None_iff(3) [OF sized] data_faults.simps p by (simp add: word_hole_def)
  then obtain c where c: "op_SW ?c = Some c" by blast
  from breakpoint_does_not_suppress [OF sized bp sr al w c] have
    "pc (cpu c) = 0x80000040" "mem_view (bus c) = mem_write (mem_view (bus ?c)) 0x10 (le_bytes 4 (7 :: u32))"
    unfolding p rt by simp_all
  with c show ?thesis by (auto simp: mem_write_def le_bytes_4)
qed

end
