(* ===== verification/Isa_Memory.thy ===== *)
theory Isa_Memory
  imports Isa_Spec Memory_Map
begin

text \<open>
  The memory of the reference machine against the bus: address translation, instruction
  fields as numbers, and what the three access widths read and write, byte by byte.
\<close>

section \<open>Fields\<close>

lemma unat_drop_bit: "unat (drop_bit k w) = unat w div 2 ^ k" for w :: "'a::len word"
  by (simp only: drop_bit_eq_div [symmetric] unat_drop_bit_eq)

lemma unat_and_mask: "unat (w AND mask n) = unat w mod 2 ^ n" for w :: "'a::len word"
  by (simp only: and_mask_take_bit unat_take_bit take_bit_eq_mod [symmetric])

lemma fields:
  "field 26 6 w = unat (instr_op w)" "field 21 5 w = unat (instr_rs w)"
  "field 16 5 w = unat (instr_rt w)" "field 11 5 w = unat (instr_rd w)"
  "field 6 5 w = unat (instr_shamt w)" "field 0 6 w = unat (instr_funct w)"
  "field 0 26 w = unat (instr_target w)"
  unfolding field_def instr_op_def instr_rs_def instr_rt_def instr_rd_def instr_shamt_def
    instr_funct_def instr_target_def mask_numerals unat_and_mask unat_drop_bit
  using unsigned_less [of w, where ?'a = nat] by simp_all

lemma field_imm: "field 0 16 w = unat (instr_imm w)"
proof -
  have "unat (instr_imm w) = unat (w AND mask 16) mod 2 ^ 16"
    unfolding instr_imm_def mask_numerals(8)
    by (simp add: unsigned_ucast_eq take_bit_eq_mod del: and_mask_take_bit)
  then show ?thesis unfolding field_def by (simp add: unat_and_mask)
qed

lemma to_signed_int:
  "to_signed n v = (if int v < 2 ^ (n - 1) then int v else int v - 2 ^ n)"
  by (simp add: to_signed_def)

lemma sint_value: "sint w = to_signed LENGTH('a) (unat w)" for w :: "'a::len word"
proof -
  let ?m = "2 ^ (LENGTH('a) - 1) :: int"
  have len: "2 ^ LENGTH('a) = 2 * ?m" by (simp add: power_Suc [symmetric])
  have shift: "(n + m) mod (2 * m) - m = (if n < m then n else n - 2 * m)"
    if "0 \<le> n" "n < 2 * m" for n m :: int
    using that mod_add_self2 [where a = "n - m" and b = "2 * m"]
    by (cases "n < m") (simp_all add: algebra_simps)
  have "sint w = (uint w + ?m) mod (2 * ?m) - ?m"
    by (simp add: sint_uint signed_take_bit_eq_take_bit_shift take_bit_eq_mod len [simplified])
  also have "\<dots> = (if uint w < ?m then uint w else uint w - 2 * ?m)"
    using uint_lt2p [of w] by (intro shift) (simp_all only: len uint_ge_0)
  also have "\<dots> = to_signed LENGTH('a) (unat w)"
    unfolding to_signed_int len uint_nat by (rule refl)
  finally show ?thesis .
qed

lemma disp_imm: "disp w = sint (instr_imm w)"
  unfolding disp_def field_imm sint_value to_signed_int Let_def by simp

lemma of_int_disp [simp]: "of_int (disp w) = sign_ext_16_32 (instr_imm w)"
  by (simp add: disp_imm sign_ext_16_32_def)

section \<open>Addresses\<close>

lemma translate_eq: "translate a = vaddr_to_paddr a"
proof -
  have "a AND 0x1FFFFFFF = of_nat (unat a mod 2 ^ 29)"
    by (metis mask_numerals(11) unat_and_mask of_nat_unat ucast_id)
  then show ?thesis by (simp add: translate_def vaddr_to_paddr_def)
qed

lemma paddr_range:
  "unat (vaddr_to_paddr a) < 2 ^ 29 \<or> vaddr_to_paddr a = 0xFFFE0130"
proof -
  have "unat (a AND 0x1FFFFFFF) < 2 ^ 29" unfolding mask_numerals(11) unat_and_mask by simp
  then show ?thesis by (simp add: vaddr_to_paddr_def)
qed

lemma paddr_room: "unat (vaddr_to_paddr a) + 4 \<le> 2 ^ 32"
  using paddr_range [of a] by auto

section \<open>Reading\<close>

lemma read_le_eqI:
  assumes "\<And>i. i < n \<Longrightarrow> peek m (p + of_nat i) = v div 256 ^ i mod 256"
  shows "read_le m n p = v mod 256 ^ n"
  using assms
proof (induction n arbitrary: p v)
  case 0
  then show ?case by simp
next
  case (Suc n)
  have "peek m (p + 1 + of_nat i) = v div 256 div 256 ^ i mod 256" if "i < n" for i
    using that Suc.prems [of "Suc i"] by (simp add: div_mult2_eq ac_simps)
  then have "read_le m n (p + 1) = v div 256 mod 256 ^ n" by (rule Suc.IH)
  with Suc.prems [of 0] show ?case by (simp add: mod_mult2_eq)
qed

lemma read_le_split:
  "read_le m (a + b) p = read_le m a p + 256 ^ a * read_le m b (p + of_nat a)"
  by (induction a arbitrary: p) (simp_all add: algebra_simps)

lemma peek_less: "peek m p < 256"
  using unsigned_less [where ?'a = nat and ?'b = 8] by (simp add: peek_def split: option.split)

lemma read_le_less: "read_le m n p < 256 ^ n"
proof (induction n arbitrary: p)
  case (Suc n)
  have "peek m p + 256 * read_le m n (p + 1) < 256 + 256 * (256 ^ n - 1)"
    using peek_less [of m p] Suc [of "p + 1"] by (intro add_less_le_mono) simp_all
  then show ?case by (simp add: diff_mult_distrib2)
qed simp

lemma pow_256: "256 ^ i = (2 ^ (8 * i) :: nat)"
  by (simp add: power_mult)

lemma unat_byte: "unat (ucast (drop_bit (8 * i) w) :: u8) = unat w div 256 ^ i mod 256"
  for w :: "'a::len word"
proof -
  have "unat (ucast x :: u8) = unat x mod 256" for x :: "'a word"
    by (simp add: unsigned_ucast_eq take_bit_eq_mod)
  then show ?thesis by (simp only: unat_drop_bit pow_256)
qed

lemma read_unmapped:
  assumes "\<And>i. i < n \<Longrightarrow> m (p + of_nat i) = None"
  shows "read_le m n p = 256 ^ n - 1"
  using assms
proof (induction n arbitrary: p)
  case (Suc n)
  have "m p = None" using Suc.prems [of 0] by simp
  moreover have "m (p + 1 + of_nat i) = None" if "i < n" for i
    using that Suc.prems [of "Suc i"] by (simp add: ac_simps)
  then have "read_le m n (p + 1) = 256 ^ n - 1" by (rule Suc.IH)
  ultimately show ?case by (simp add: peek_def diff_mult_distrib2)
qed simp

text \<open>An aligned access stays inside or outside the regions as a whole.\<close>

lemma unat_plus_small:
  fixes p :: u32
  assumes "unat p + n \<le> 2 ^ 32" "i < n"
  shows "unat (p + of_nat i) = unat p + i"
  using assms by (simp add: unat_word_ariths unat_of_nat)

lemma view_None:
  assumes "bus_sized b" "\<not> mapped q"
  shows "mem_view b q = None"
  using assms by (simp add: mem_view_def)

lemma unmapped_word:
  assumes "unat p + 4 \<le> 2 ^ 32" "p AND 3 = 0" "\<not> mapped p" "i < 4"
  shows "\<not> mapped (p + of_nat i)"
proof -
  obtain k where "unat p = 4 * k" using assms(2) by (auto simp: and_3_eq_0_iff)
  then show ?thesis
    using assms(3,4) unat_plus_small [OF assms(1,4)]
    unfolding mapped_def writable_def region_bounds by presburger
qed

lemma unwritable_half:
  assumes "unat p + 2 \<le> 2 ^ 32" "p AND 1 = 0" "\<not> writable p" "\<not> rom p" "i < 2"
  shows "\<not> mapped (p + of_nat i)"
proof -
  obtain k where "unat p = 2 * k" using assms(2) by (auto simp: and_1_eq_0_iff)
  then show ?thesis
    using assms(3-5) unat_plus_small [OF assms(1,5)]
    unfolding mapped_def writable_def region_bounds rom_def by presburger
qed

lemma read_word:
  assumes "bus_sized (bus ctx)" "unat p + 4 \<le> 2 ^ 32" "p AND 3 = 0"
    and ld: "psycho_bus_load_word ctx p = Some (w, c)"
  shows "read_le (mem_view (bus ctx)) 4 p = unat w"
proof (cases "mapped p")
  case True
  have "word_at (bus ctx) p w" using load_word_at [OF assms(1) True ld] by simp
  then have "read_le (mem_view (bus ctx)) 4 p = unat w mod 256 ^ 4"
    by (intro read_le_eqI) (simp add: word_at_def peek_def unat_byte)
  then show ?thesis using unsigned_less [of w, where ?'a = nat] by simp
next
  case False
  then have "read_le (mem_view (bus ctx)) 4 p = 256 ^ 4 - 1"
    using assms by (intro read_unmapped view_None unmapped_word) simp_all
  with word_port.load_default [OF False ld] show ?thesis by simp
qed

lemma read_byte:
  assumes "bus_sized (bus ctx)" "psycho_bus_load_byte ctx p = Some (b, c)"
  shows "read_le (mem_view (bus ctx)) (Suc 0) p = unat b"
proof (cases "mapped p")
  case True
  obtain bs where "b = hd bs" "length bs = Suc 0"
    "\<And>i. i < Suc 0 \<Longrightarrow> mem_view (bus ctx) (p + of_nat i) = Some (bs ! i)"
    using byte_port.load_bytes [OF assms(1) True assms(2)] by metis
  then have "mem_view (bus ctx) p = Some b" by (cases bs) force+
  then show ?thesis by (simp add: peek_def)
next
  case False
  then show ?thesis
    using byte_port.load_default [OF False assms(2)] view_None [OF assms(1) False]
    by (simp add: peek_def)
qed

lemma read_half:
  assumes "bus_sized (bus ctx)" "unat p + 2 \<le> 2 ^ 32" "p AND 1 = 0" "\<not> rom p"
    and ld: "psycho_bus_load_halfword ctx p = Some (h, c)"
  shows "read_le (mem_view (bus ctx)) 2 p = unat h"
proof (cases "writable p")
  case True
  obtain bs where bs: "h = le_word bs" "length bs = 2"
    and view: "\<And>i. i < 2 \<Longrightarrow> mem_view (bus ctx) (p + of_nat i) = Some (bs ! i)"
    using half_port.load_bytes [OF assms(1) True ld] by metis
  have "bs ! i = ucast (drop_bit (8 * i) h)" if "i < 2" for i
  proof (rule bit_word_eqI)
    fix n assume "n < LENGTH(8)"
    with that bs(2) show "bit (bs ! i) n = bit (ucast (drop_bit (8 * i) h) :: u8) n"
      by (simp add: bs(1) bit_simps bit_le_word)
  qed
  then have "read_le (mem_view (bus ctx)) 2 p = unat h mod 256 ^ 2"
    by (intro read_le_eqI) (simp add: view peek_def unat_byte)
  then show ?thesis using unsigned_less [of h, where ?'a = nat] by simp
next
  case False
  then have "read_le (mem_view (bus ctx)) 2 p = 256 ^ 2 - 1"
    using assms by (intro read_unmapped view_None unwritable_half) simp_all
  with half_port.load_default [OF False ld] show ?thesis by simp
qed

section \<open>Writing\<close>

lemma write_le_mem_write:
  assumes room: "unat p + n \<le> 2 ^ 32" and len: "length bs = n"
    and bytes: "\<And>i. i < n \<Longrightarrow> bs ! i = of_nat (v div 256 ^ i)"
    and held: "\<And>i. i < n \<Longrightarrow> m (p + of_nat i) \<noteq> None \<and> \<not> rom (p + of_nat i)"
  shows "write_le m n p v = mem_write m p bs"
proof
  fix q
  show "write_le m n p v q = mem_write m p bs q"
  proof (cases "unat (q - p) < n")
    case True
    define k where "k = unat (q - p)"
    have q: "q = p + of_nat k" by (simp add: k_def)
    have k: "k < n" using True by (simp add: k_def)
    have "unat q = unat p + k" using unat_plus_small [OF room k] by (simp add: q)
    then have "mem_write m p bs q = Some (bs ! k)" using k len by (simp add: mem_write_def)
    moreover have "write_le m n p v q = Some (of_nat (v div 256 ^ k))"
      using held [OF k] k by (simp add: write_le_def Let_def k_def [symmetric] q [symmetric])
    ultimately show ?thesis by (simp add: bytes [OF k])
  next
    case False
    have "\<not> (unat p \<le> unat q \<and> unat q < unat p + n)"
    proof
      assume *: "unat p \<le> unat q \<and> unat q < unat p + n"
      then have "unat (q - p) = unat q - unat p" by (simp add: unat_sub word_le_nat_alt)
      with * False show False by linarith
    qed
    with False show ?thesis unfolding write_le_def mem_write_def len Let_def by (simp only: if_False simp_thms)
  qed
qed

lemma write_le_ignored:
  assumes "\<And>i. i < n \<Longrightarrow> m (p + of_nat i) = None \<or> rom (p + of_nat i)"
  shows "write_le m n p v = m"
proof
  fix q
  show "write_le m n p v q = m q"
    using assms [of "unat (q - p)"] by (auto simp: write_le_def Let_def)
qed

lemma le_byte: "i < n \<Longrightarrow> le_bytes n x ! i = of_nat (unat x div 256 ^ i)"
  by (simp add: word_unat_eq_iff unat_byte unat_of_nat)

lemma writable_held:
  assumes "bus_sized b" "writable p" "\<not> overruns p n" "unat p + n \<le> 2 ^ 32" "i < n"
  shows "mem_view b (p + of_nat i) \<noteq> None \<and> \<not> rom (p + of_nat i)"
  using assms unat_plus_small [OF assms(4,5)]
  by (auto simp: mem_view_eq writable_def overruns_def region_bounds rom_def)

lemma unwritable_held:
  assumes "bus_sized b" "\<not> writable p" "n = 1 \<or> n = 2 \<or> n = 4" "unat p mod n = 0"
    and "unat p + n \<le> 2 ^ 32" "i < n"
  shows "mem_view b (p + of_nat i) = None \<or> rom (p + of_nat i)"
proof -
  obtain k where k: "unat p = n * k" using assms(4) by auto
  have "mapped (p + of_nat i) \<Longrightarrow> rom (p + of_nat i)"
    using assms(2,3,6) unat_plus_small [OF assms(5,6)]
    unfolding mapped_def writable_def region_bounds rom_def k by (elim disjE; simp; presburger)
  then show ?thesis using view_None [OF assms(1)] by blast
qed

context bus_writer begin

lemma store_write_le:
  assumes "bus_sized (bus ctx)" "store ctx p x = Some c" "unat p mod width = 0"
    and "width = 1 \<or> width = 2 \<or> width = 4" "unat p + width \<le> 2 ^ 32"
    and "\<And>i. i < width \<Longrightarrow> bytes_of x ! i = of_nat (v div 256 ^ i)"
  shows "mem_view (bus c) = write_le (mem_view (bus ctx)) width p v"
proof (cases "writable p")
  case True
  have "\<not> overruns p width" using store_None_iff [OF assms(1), of p x] True assms(2) by simp
  then have "write_le (mem_view (bus ctx)) width p v = mem_write (mem_view (bus ctx)) p (bytes_of x)"
    using assms True by (intro write_le_mem_write writable_held bytes_width) simp_all
  then show ?thesis using store_refines [OF assms(1,2)] True by simp
next
  case False
  then have "write_le (mem_view (bus ctx)) width p v = mem_view (bus ctx)"
    using assms by (intro write_le_ignored unwritable_held) simp_all
  then show ?thesis using store_ignored [OF False assms(2)] by simp
qed

end

lemmas store_byte_view = byte_port.store_write_le and store_half_view = half_port.store_write_le
  and store_word_view = word_port.store_write_le

section \<open>Partial accesses\<close>

lemma read_part:
  assumes "bus_sized (bus ctx)" "unat p < 2 ^ 32 - 4"
    and "psycho_bus_load_word ctx (p AND - 4) = Some (w, c)"
  shows "read_le (mem_view (bus ctx)) (4 - unat p mod 4) p = unat w div 256 ^ (unat p mod 4)"
    "read_le (mem_view (bus ctx)) (Suc (unat p mod 4)) (p AND - 4)
      = unat w mod 256 ^ Suc (unat p mod 4)"
proof -
  let ?m = "mem_view (bus ctx)" and ?s = "unat p mod 4" and ?a = "p AND - 4"
  have w: "read_le ?m 4 ?a = unat w"
    using assms by (intro read_word) (simp_all add: unat_align)
  have "read_le ?m (?s + (4 - ?s)) ?a
      = read_le ?m ?s ?a + 256 ^ ?s * read_le ?m (4 - ?s) (?a + of_nat ?s)"
    by (rule read_le_split)
  moreover have "?a + of_nat ?s = p" by (simp add: align_sub and_3_of_nat)
  moreover have "?s + (4 - ?s) = 4" by simp
  ultimately have "unat w = read_le ?m ?s ?a + 256 ^ ?s * read_le ?m (4 - ?s) p"
    using w by (simp only:)
  then show "read_le ?m (4 - ?s) p = unat w div 256 ^ ?s"
    using read_le_less [of ?m ?s ?a] by simp
  have "read_le ?m (Suc ?s + (3 - ?s)) ?a
      = read_le ?m (Suc ?s) ?a + 256 ^ Suc ?s * read_le ?m (3 - ?s) (?a + of_nat (Suc ?s))"
    by (rule read_le_split)
  moreover have "Suc ?s + (3 - ?s) = 4" using mod_less_divisor [of 4 "unat p"] by simp
  ultimately have "unat w = read_le ?m (Suc ?s) ?a
      + 256 ^ Suc ?s * read_le ?m (3 - ?s) (?a + of_nat (Suc ?s))"
    using w by (simp only:)
  then show "read_le ?m (Suc ?s) ?a = unat w mod 256 ^ Suc ?s"
    using read_le_less [of ?m "Suc ?s" ?a] by (metis mod_less mod_mult_self2)
qed

lemma of_nat_div_drop: "(of_nat (unat w div 2 ^ k) :: u32) = drop_bit k w" for w :: u32
  by (metis of_nat_unat ucast_id unat_drop_bit)

lemma of_nat_mod_take: "(of_nat (unat w mod 2 ^ k) :: u32) = take_bit k w" for w :: u32
  by (metis of_nat_unat ucast_id unat_take_bit take_bit_eq_mod)

lemma of_nat_mult_push: "(of_nat (2 ^ k * n) :: u32) = push_bit k (of_nat n)"
  by (simp add: push_bit_eq_mult mult.commute)

lemma lwr_merge_value:
  assumes "s < 4"
  shows "of_nat (unat w div 256 ^ s + 256 ^ (4 - s) * (unat x div 256 ^ (4 - s))) = lwr_merge x w s"
proof -
  let ?hi = "push_bit (8 * (4 - s)) (drop_bit (8 * (4 - s)) x)"
  have "of_nat (unat w div 256 ^ s + 256 ^ (4 - s) * (unat x div 256 ^ (4 - s)))
      = drop_bit (8 * s) w + ?hi"
    unfolding of_nat_add pow_256 of_nat_mult_push of_nat_div_drop by (rule refl)
  also have "\<dots> = drop_bit (8 * s) w OR ?hi"
    using assms by (intro disjunctive_add_eq_or u32_bit_eqI)
      (auto simp: bit_simps dest: bit_imp_le_length)
  also have "\<dots> = lwr_merge x w s"
    using assms by (intro u32_bit_eqI) (auto simp: bit_lwr_merge bit_simps ac_simps
      dest: bit_imp_le_length)
  finally show ?thesis .
qed

lemma lwl_merge_value:
  assumes "s < 4"
  shows "of_nat (unat x mod 256 ^ (3 - s) + 256 ^ (3 - s) * (unat w mod 256 ^ Suc s)) = lwl_merge x w s"
proof -
  let ?hi = "push_bit (8 * (3 - s)) (take_bit (8 * Suc s) w)"
  have "of_nat (unat x mod 256 ^ (3 - s) + 256 ^ (3 - s) * (unat w mod 256 ^ Suc s))
      = take_bit (8 * (3 - s)) x + ?hi"
    unfolding of_nat_add pow_256 of_nat_mult_push of_nat_mod_take by (rule refl)
  also have "\<dots> = take_bit (8 * (3 - s)) x OR ?hi"
    by (intro disjunctive_add_eq_or u32_bit_eqI) (auto simp: bit_simps)
  also have "\<dots> = lwl_merge x w s"
  proof (rule u32_bit_eqI)
    fix n :: nat
    assume n: "n < 32"
    have e: "8 * (3 - s) = 24 - s * 8" by simp
    have "n - (24 - s * 8) < 8 * Suc s" using n less_4_cases [OF assms] by auto
    with n assms show "bit (take_bit (8 * (3 - s)) x OR ?hi) n = bit (lwl_merge x w s) n"
      unfolding e by (auto simp: bit_lwl_merge bit_simps)
  qed
  finally show ?thesis .
qed

text \<open>Storing a word that a partial store has merged writes just the bytes of the register.\<close>

lemma store_right_view:
  fixes p :: u32
  assumes word: "word_at b (p AND - 4) w" and room: "unat p + 4 \<le> 2 ^ 32"
    and held: "\<And>i. i < 4 \<Longrightarrow> \<not> rom ((p AND - 4) + of_nat i)"
  shows "mem_write (mem_view b) (p AND - 4) (le_bytes 4 (swr_merge r w (unat p mod 4)))
    = store_part Rightmost (mem_view b) p (unat r)"
proof -
  let ?s = "unat p mod 4"
  have "write_le (mem_view b) (4 - ?s) p (unat r)
      = mem_write (mem_view b) p (take (4 - ?s) (le_bytes 4 r))"
  proof (rule write_le_mem_write)
    fix i assume i: "i < 4 - ?s"
    then have k: "?s + i < 4" by simp
    have "p + of_nat i = (p AND - 4) + of_nat (?s + i)"
      by (simp add: align_sub and_3_of_nat)
    then show "mem_view b (p + of_nat i) \<noteq> None \<and> \<not> rom (p + of_nat i)"
      using word_atD [OF word k] held [OF k] by (simp only: option.distinct not_False_eq_True simp_thms)
    show "take (4 - ?s) (le_bytes 4 r) ! i = of_nat (unat r div 256 ^ i)"
      using i by (simp add: le_byte del: nth_le_bytes)
  qed (use room in simp_all)
  then show ?thesis
    using swr_view [of "mem_view b" p w r] word_atD [OF word] by (simp add: Let_def)
qed

lemma store_left_view:
  fixes p :: u32
  assumes word: "word_at b (p AND - 4) w" and room: "unat p + 4 \<le> 2 ^ 32"
    and held: "\<And>i. i < 4 \<Longrightarrow> \<not> rom ((p AND - 4) + of_nat i)"
  shows "mem_write (mem_view b) (p AND - 4) (le_bytes 4 (swl_merge r w (unat p mod 4)))
    = store_part Leftmost (mem_view b) p (unat r)"
proof -
  let ?s = "unat p mod 4"
  have s: "?s < 4" by simp
  have "write_le (mem_view b) (Suc ?s) (p AND - 4) (unat r div 256 ^ (3 - ?s))
      = mem_write (mem_view b) (p AND - 4) (drop (3 - ?s) (le_bytes 4 r))"
  proof (rule write_le_mem_write)
    show "unat (p AND - 4) + Suc ?s \<le> 2 ^ 32" using room unfolding unat_align by linarith
    show "length (drop (3 - ?s) (le_bytes 4 r)) = Suc ?s" using s by simp
    fix i assume i: "i < Suc ?s"
    with s have k: "i < 4" and j: "3 - ?s + i < 4" by linarith+
    show "mem_view b ((p AND - 4) + of_nat i) \<noteq> None \<and> \<not> rom ((p AND - 4) + of_nat i)"
      using word_atD [OF word k] held [OF k] by simp
    show "drop (3 - ?s) (le_bytes 4 r) ! i = of_nat (unat r div 256 ^ (3 - ?s) div 256 ^ i)"
      using le_byte [OF j] by (simp add: div_mult2_eq [symmetric] power_add [symmetric] del: nth_le_bytes)
  qed
  moreover have "p - of_nat ?s = p AND - 4" by (simp only: align_sub and_3_of_nat)
  ultimately show ?thesis
    using swl_view [of "mem_view b" p w r] word_atD [OF word] by (simp add: Let_def)
qed

end
