(* ===== verification/Isa_Refines.thy ===== *)
theory Isa_Refines
  imports Isa_Memory Cpu_Alu Disasm_Facts
begin

text \<open>
  The interpreter of \<^verbatim>\<open>core/cpu.c\<close> refines the reference machine: the abstraction of a context,
  the fetch, and one rule per kind of outcome that the handlers are matched with.
\<close>

section \<open>Abstraction\<close>

definition pending :: "load_delay \<Rightarrow> (nat \<times> u32) option" where
  "pending d = (if ld_dst d = 0 then None else Some (ld_dst d, ld_val d))"

definition view :: "psycho_ctx \<Rightarrow> isa" where
  "view ctx = \<lparr>reg_file = gpr (cpu ctx), sys_file = cop0 (cpu ctx), high = hi (cpu ctx),
     low = lo (cpu ctx), now = pc (cpu ctx), after = next_pc (cpu ctx),
     in_slot = next_in_branch_delay_slot (cpu ctx), arriving = pending (ld_pend (cpu ctx)),
     byte_at = mem_view (bus ctx)\<rparr>"

text \<open>
  Between two steps: the load that the next fetch writes to the register file has landed, the
  one behind it is arriving.
\<close>

definition isa_of :: "psycho_ctx \<Rightarrow> isa" where
  "isa_of ctx = land (pending (ld_next (cpu ctx))) (view ctx)"

text \<open>Behind the fetch: the reference machine before the instruction that was fetched.\<close>

definition before :: "psycho_ctx \<Rightarrow> isa" where
  "before ctx = (view ctx)\<lparr>now := curr_pc (cpu ctx), after := pc (cpu ctx),
     in_slot := in_branch_delay_slot (cpu ctx), arriving := pending (ld_next (cpu ctx))\<rparr>"

definition just_fetched :: "psycho_ctx \<Rightarrow> bool" where
  "just_fetched ctx \<longleftrightarrow> cpu_shape (cpu ctx) \<and> gpr (cpu ctx) ! 0 = 0 \<and> bus_sized (bus ctx)
     \<and> next_pc (cpu ctx) = pc (cpu ctx) + 4 \<and> \<not> next_in_branch_delay_slot (cpu ctx)
     \<and> ld_pend (cpu ctx) = ld_zero"

abbreviation clear_zero :: "psycho_ctx \<Rightarrow> psycho_ctx" where
  "clear_zero \<equiv> cpu_update (\<lambda>c. c\<lparr>gpr := (gpr c)[0 := 0x00000000]\<rparr>)"

definition executes :: "psycho_ctx \<Rightarrow> psycho_ctx \<Rightarrow> insn \<Rightarrow> bool" where
  "executes c d i \<longleftrightarrow> isa_of (clear_zero d) = retire (arriving (before c)) (exec i (before c))"

lemma before_fields [simp]:
  "reg_file (before c) = gpr (cpu c)" "sys_file (before c) = cop0 (cpu c)"
  "high (before c) = hi (cpu c)" "low (before c) = lo (cpu c)"
  "now (before c) = curr_pc (cpu c)" "after (before c) = pc (cpu c)"
  "in_slot (before c) = in_branch_delay_slot (cpu c)"
  "arriving (before c) = pending (ld_next (cpu c))" "byte_at (before c) = mem_view (bus c)"
  by (simp_all add: before_def view_def)

lemma view_fields [simp]:
  "reg_file (view c) = gpr (cpu c)" "sys_file (view c) = cop0 (cpu c)"
  "high (view c) = hi (cpu c)" "low (view c) = lo (cpu c)"
  "now (view c) = pc (cpu c)" "after (view c) = next_pc (cpu c)"
  "in_slot (view c) = next_in_branch_delay_slot (cpu c)"
  "arriving (view c) = pending (ld_pend (cpu c))" "byte_at (view c) = mem_view (bus c)"
  by (simp_all add: view_def)

lemma pending_zero [simp]: "pending ld_zero = None"
  by (simp add: pending_def ld_zero_def)

lemma advance_before: "just_fetched c \<Longrightarrow> advance (before c) = view c"
  by (simp add: just_fetched_def advance_def before_def view_def)

lemma isa_of_cong: "cpu a = cpu b \<Longrightarrow> bus a = bus b \<Longrightarrow> isa_of a = isa_of b"
  by (simp add: isa_of_def view_def)

lemma land_eq: "land p m = (case p of None \<Rightarrow> m | Some (r, v) \<Rightarrow> put r v m)"
  by (cases p) auto

lemma land_fields [simp]:
  "sys_file (land p m) = sys_file m" "high (land p m) = high m" "low (land p m) = low m"
  "now (land p m) = now m" "after (land p m) = after m" "in_slot (land p m) = in_slot m"
  "arriving (land p m) = arriving m" "byte_at (land p m) = byte_at m"
  by (simp_all add: land_eq put_def split: option.split prod.split)

lemma reg_file_land:
  "reg_file (land (pending d) m) = (if ld_dst d = 0 then reg_file m
     else (reg_file m)[ld_dst d := ld_val d])"
  by (simp add: pending_def put_def)

lemma isa_of_reg_file:
  assumes "cpu_shape (cpu c)" "gpr (cpu c) ! 0 = 0"
  shows "reg_file (isa_of c) = (gpr (cpu c))[ld_dst (ld_next (cpu c)) := ld_val (ld_next (cpu c))]"
proof (cases "ld_dst (ld_next (cpu c)) = 0")
  case True
  then have "ld_val (ld_next (cpu c)) = gpr (cpu c) ! 0"
    using assms by (simp add: cpu_shape_def load_ok_def)
  with True show ?thesis by (simp add: isa_of_def reg_file_land)
qed (simp add: isa_of_def reg_file_land)

section \<open>Outcomes\<close>

lemma clear_zero_id:
  "gpr (cpu d) ! 0 = 0 \<Longrightarrow> isa_of (clear_zero d) = isa_of d"
  using list_update_id [of "gpr (cpu d)" 0] by (intro isa_of_cong) simp_all

lemma done_executes:
  assumes "just_fetched c" "exec i (before c) = Done (view d)"
    and "ld_next (cpu d) = ld_next (cpu c)" "gpr (cpu d) = gpr (cpu c)"
  shows "executes c d i"
  using assms by (simp add: executes_def clear_zero_id just_fetched_def) (simp add: isa_of_def)

lemma result_executes:
  assumes "just_fetched c" "exec i (before c) = Result r x (view e)" "r < 32"
    and "ld_next (cpu e) = ld_next (cpu c)" "gpr (cpu e) = gpr (cpu c)"
    and "cpu d = reg_write r x (cpu e)" "bus d = bus e"
  shows "executes c d i"
proof -
  let ?l = "ld_next (cpu c)"
  have len: "length (gpr (cpu c)) = 32" and z: "gpr (cpu c) ! 0 = 0"
    using assms(1) by (simp_all add: just_fetched_def cpu_shape_def CPU_GPR_NUM_def)
  have regs: "reg_file (isa_of (clear_zero d)) = reg_file (put r x (land (pending ?l) (view e)))"
  proof (cases "r = 0")
    case True
    then show ?thesis
      using list_update_id [of "gpr (cpu c)" 0] z assms(4,5)
      by (simp add: isa_of_def reg_file_land put_def assms(6) reg_write_def ld_zero_def
          list_update_swap)
  next
    case False
    then have "((gpr (cpu c))[r := x])[0 := 0] = (gpr (cpu c))[r := x]"
      using list_update_id [of "gpr (cpu c)" 0] z by (simp add: list_update_swap)
    with False show ?thesis
      using assms(4,5)
      by (auto simp: isa_of_def reg_file_land put_def assms(6) reg_write_def ld_zero_def
          list_update_swap)
  qed
  have "isa_of (clear_zero d) = put r x (land (pending ?l) (view e))"
    using regs by (rule isa.equality) (simp_all add: isa_of_def put_def assms(6,7) reg_write_def)
  then show ?thesis by (simp add: executes_def assms(2))
qed

lemma load_executes:
  assumes "just_fetched c" "exec i (before c) = Loaded r x (view c)" "r < 32"
    and "cpu d = (if r = 0 then cpu c else reg_load r x (cpu c))" "bus d = bus c"
  shows "executes c d i"
proof (cases "r = 0")
  case True
  then show ?thesis
    using assms clear_zero_id [of d] isa_of_cong [of d c]
    by (simp add: executes_def just_fetched_def) (simp add: isa_of_def)
next
  case False
  have z: "gpr (cpu d) ! 0 = 0" using assms False by (simp add: just_fetched_def reg_load_def)
  have "isa_of d = retire (pending (ld_next (cpu c))) (Loaded r x (view c))"
    using False assms(4,5)
    by (intro isa.equality)
      (auto simp: isa_of_def pending_def put_def reg_load_def ld_zero_def)
  then show ?thesis by (simp add: executes_def assms(2) clear_zero_id z)
qed

end
