(* ===== verification/Isa_Handlers.thy ===== *)
theory Isa_Handlers
  imports Isa_Refines
begin

text \<open>
  Each handler of the interpreter carries out the instruction of the reference machine its
  word decodes to, on the context the fetch leaves.
\<close>

section \<open>Arithmetic and logic\<close>

lemma not_as_int: "of_int (- 1 - uint x) = NOT x" for x :: u32
  by (simp add: not_eq_complement)

lemma alu_values:
  fixes a b :: u32
  shows "of_int (alu_exact A_ADD a b) = a + b" "of_int (alu_exact A_SUB a b) = a - b"
    "of_int (alu_exact A_AND a b) = a AND b" "of_int (alu_exact A_OR a b) = a OR b"
    "of_int (alu_exact A_XOR a b) = a XOR b" "of_int (alu_exact A_NOR a b) = NOT (a OR b)"
    "of_int (alu_exact A_SLT a b) = (of_bool (a <s b) :: u32)"
    "of_int (alu_exact A_SLTU a b) = (of_bool (a < b) :: u32)"
    "of_int (alu_exact A_SLL a b) = push_bit (unat b mod 32) a"
    "of_int (alu_exact A_SRL a b) = drop_bit (unat b mod 32) a"
    "of_int (alu_exact A_SRA a b) = signed_drop_bit (unat b mod 32) a"
proof -
  have "uint a div 2 ^ n = int (unat a div 2 ^ n)" for n
    by (simp only: uint_nat zdiv_int of_nat_power of_nat_numeral)
  then have "(of_int (uint a div 2 ^ n) :: u32) = drop_bit n a" for n
    by (simp only: of_int_of_nat_eq shift_values)
  moreover have "(of_int (uint a * 2 ^ n) :: u32) = push_bit n a" for n
    by (simp add: push_bit_eq_mult)
  ultimately have u: "(of_int (uint a * 2 ^ n) :: u32) = push_bit n a"
    "(of_int (uint a div 2 ^ n) :: u32) = drop_bit n a" for n
    by (simp_all only:)
  show "of_int (alu_exact A_SLL a b) = push_bit (unat b mod 32) a"
    "of_int (alu_exact A_SRL a b) = drop_bit (unat b mod 32) a"
    by (simp_all only: alu_exact.simps u)
  show "of_int (alu_exact A_NOR a b) = NOT (a OR b)" by (simp only: alu_exact.simps not_as_int)
qed (simp_all add: word_sless_alt word_less_def shift_values(3))

lemma compute_executes:
  assumes "just_fetched c" "r < 32"
    and "x = of_int (alu_exact f (operand_of (before c) a) (operand_of (before c) b))"
  shows "executes c (gpr_set c r x) (Compute f r a b)"
  using assms
  by (intro result_executes [where r = r and x = x and e = c])
    (simp_all add: advance_before gpr_set_eq)

lemma const_shamt: "unat (of_nat (m_shamt c) :: u32) mod 32 = m_shamt c"
  by (simp add: unsigned_of_nat take_bit_nat_eq_self)

lemma const_imm: "(of_nat (unat w) :: u32) = ucast w" for w :: u16
  by (metis of_nat_unat)

lemma const_16: "unat (16 :: u32) mod 32 = 16"
  by simp

lemma shift_handlers:
  assumes "just_fetched c"
  shows "op_SLL c = Some d \<Longrightarrow>
      executes c d (Compute A_SLL (m_rd c) (Reg (m_rt c)) (Const (of_nat (m_shamt c))))"
    and "op_SRL c = Some d \<Longrightarrow>
      executes c d (Compute A_SRL (m_rd c) (Reg (m_rt c)) (Const (of_nat (m_shamt c))))"
    and "op_SRA c = Some d \<Longrightarrow>
      executes c d (Compute A_SRA (m_rd c) (Reg (m_rt c)) (Const (of_nat (m_shamt c))))"
    and "op_SLLV c = Some d \<Longrightarrow> executes c d (Compute A_SLL (m_rd c) (Reg (m_rt c)) (Reg (m_rs c)))"
    and "op_SRLV c = Some d \<Longrightarrow> executes c d (Compute A_SRL (m_rd c) (Reg (m_rt c)) (Reg (m_rs c)))"
    and "op_SRAV c = Some d \<Longrightarrow> executes c d (Compute A_SRA (m_rd c) (Reg (m_rt c)) (Reg (m_rs c)))"
    and "op_LUI c = Some d \<Longrightarrow>
      executes c d (Compute A_SLL (m_rt c) (Const (of_nat (unat (m_imm c)))) (Const 16))"
  unfolding op_SLL_def op_SRL_def op_SRA_def op_SLLV_def op_SRLV_def op_SRAV_def op_LUI_def
    option.inject
  by (erule subst, intro compute_executes assms field_less,
      simp only: alu_values operand_of.simps before_fields const_shamt unat_and_31 const_imm
        const_16)+

lemma register_handlers:
  assumes "just_fetched c"
  shows "op_ADDU c = Some d \<Longrightarrow> executes c d (Compute A_ADD (m_rd c) (Reg (m_rs c)) (Reg (m_rt c)))"
    and "op_SUBU c = Some d \<Longrightarrow> executes c d (Compute A_SUB (m_rd c) (Reg (m_rs c)) (Reg (m_rt c)))"
    and "op_AND c = Some d \<Longrightarrow> executes c d (Compute A_AND (m_rd c) (Reg (m_rs c)) (Reg (m_rt c)))"
    and "op_OR c = Some d \<Longrightarrow> executes c d (Compute A_OR (m_rd c) (Reg (m_rs c)) (Reg (m_rt c)))"
    and "op_XOR c = Some d \<Longrightarrow> executes c d (Compute A_XOR (m_rd c) (Reg (m_rs c)) (Reg (m_rt c)))"
    and "op_NOR c = Some d \<Longrightarrow> executes c d (Compute A_NOR (m_rd c) (Reg (m_rs c)) (Reg (m_rt c)))"
    and "op_SLT c = Some d \<Longrightarrow> executes c d (Compute A_SLT (m_rd c) (Reg (m_rs c)) (Reg (m_rt c)))"
    and "op_SLTU c = Some d \<Longrightarrow> executes c d (Compute A_SLTU (m_rd c) (Reg (m_rs c)) (Reg (m_rt c)))"
  unfolding op_ADDU_def op_SUBU_def op_AND_def op_OR_def op_XOR_def op_NOR_def op_SLT_def
    op_SLTU_def option.inject
  by (erule subst, intro compute_executes assms field_less,
      simp only: alu_values operand_of.simps before_fields)+

lemma immediate_handlers:
  assumes "just_fetched c"
  shows "op_ADDIU c = Some d \<Longrightarrow>
      executes c d (Compute A_ADD (m_rt c) (Reg (m_rs c)) (Const (sign_ext_16_32 (m_imm c))))"
    and "op_SLTI c = Some d \<Longrightarrow>
      executes c d (Compute A_SLT (m_rt c) (Reg (m_rs c)) (Const (sign_ext_16_32 (m_imm c))))"
    and "op_SLTIU c = Some d \<Longrightarrow>
      executes c d (Compute A_SLTU (m_rt c) (Reg (m_rs c)) (Const (sign_ext_16_32 (m_imm c))))"
    and "op_ANDI c = Some d \<Longrightarrow>
      executes c d (Compute A_AND (m_rt c) (Reg (m_rs c)) (Const (of_nat (unat (m_imm c)))))"
    and "op_ORI c = Some d \<Longrightarrow>
      executes c d (Compute A_OR (m_rt c) (Reg (m_rs c)) (Const (of_nat (unat (m_imm c)))))"
    and "op_XORI c = Some d \<Longrightarrow>
      executes c d (Compute A_XOR (m_rt c) (Reg (m_rs c)) (Const (of_nat (unat (m_imm c)))))"
  unfolding op_ADDIU_def op_SLTI_def op_SLTIU_def op_ANDI_def op_ORI_def op_XORI_def option.inject
  by (erule subst, intro compute_executes assms field_less,
      simp only: alu_values operand_of.simps before_fields const_imm add.commute)+

section \<open>Traps\<close>

lemma sr_value: "of_nat (64 * (unat s div 64) + 4 * (unat s mod 16)) = sr_push s"
proof -
  have powers: "(64 :: nat) = 2 ^ 6" "(16 :: nat) = 2 ^ 4" "(4 :: nat) = 2 ^ 2" by simp_all
  have "(of_nat (64 * (unat s div 64) + 4 * (unat s mod 16)) :: u32)
      = push_bit 6 (drop_bit 6 s) + push_bit 2 (take_bit 4 s)"
    unfolding powers of_nat_add of_nat_mult_push of_nat_div_drop of_nat_mod_take by (rule refl)
  also have "\<dots> = push_bit 6 (drop_bit 6 s) OR push_bit 2 (take_bit 4 s)"
    by (intro disjunctive_add_eq_or u32_bit_eqI) (auto simp: bit_simps)
  also have "\<dots> = sr_push s"
    by (rule u32_bit_eqI) (auto simp: bit_sr_push bit_simps)
  finally show ?thesis .
qed

lemma bit_exc_value: "bit (exc_value e) n \<Longrightarrow> n < 6"
proof -
  have "exc_value e = take_bit 6 (exc_value e)" by (cases e) simp_all
  then show "bit (exc_value e) n \<Longrightarrow> n < 6" by (metis bit_take_bit_iff)
qed

lemma cause_value:
  "of_nat (256 * (unat s div 256 mod 256) + 4 * unat (exc_value e)) = cause_with e s"
proof -
  have powers: "(256 :: nat) = 2 ^ 8" "(4 :: nat) = 2 ^ 2" by simp_all
  have d: "unat s div 2 ^ 8 = unat (drop_bit 8 s)" by (simp only: unat_drop_bit)
  have "(of_nat (256 * (unat s div 256 mod 256) + 4 * unat (exc_value e)) :: u32)
      = push_bit 8 (take_bit 8 (drop_bit 8 s)) + push_bit 2 (exc_value e)"
    unfolding powers of_nat_add of_nat_mult_push d of_nat_mod_take by simp
  also have "\<dots> = push_bit 8 (take_bit 8 (drop_bit 8 s)) OR push_bit 2 (exc_value e)"
    by (intro disjunctive_add_eq_or u32_bit_eqI) (auto simp: bit_simps dest: bit_exc_value)
  also have "\<dots> = cause_with e s"
    by (rule u32_bit_eqI) (auto simp: bit_cause_with bit_simps dest: bit_exc_value)
  finally show ?thesis .
qed

lemma trap_view:
  assumes "cpu d = exception_entry e (cpu c)" "bus d = bus c"
  shows "view d = trap (unat (exc_value e)) (curr_pc (cpu c)) (view c)"
proof -
  have "cop0 (cpu d) = (cop0 (cpu c))[14 := curr_pc (cpu c), 12 := sr_push (cop0 (cpu c) ! 12),
      13 := cause_with e (cop0 (cpu c) ! 13)]"
    by (simp add: assms exception_entry_def sr_push_def cause_with_def)
  then show ?thesis
    unfolding trap_def sr_value cause_value view_fields
    by (intro isa.equality) (simp_all add: assms exception_entry_def)
qed

lemma trap_executes:
  assumes "just_fetched c" "raise_exception c e = Some d"
    and "exec i (before c) = Done (trap (unat (exc_value e)) (curr_pc (cpu c)) (view c))"
  shows "executes c d i"
proof -
  have d: "cpu d = exception_entry e (cpu c)" "bus d = bus c"
    using assms(2) by (auto simp: raise_exception_eq)
  then show ?thesis
    using assms(1,3) trap_view [OF d]
    by (intro done_executes) (simp_all add: exception_entry_def)
qed

lemma trap_handlers:
  assumes "just_fetched c"
  shows "op_SYSCALL c = Some d \<Longrightarrow> executes c d System_Call"
    and "op_BREAK c = Some d \<Longrightarrow> executes c d Breakpoint"
  unfolding op_SYSCALL_def op_BREAK_def
  by (erule trap_executes [OF assms]; simp add: advance_before [OF assms])+

lemma fits_iff: "fits v \<longleftrightarrow> signed_fits v"
  by (simp add: fits_def signed_fits_def)

lemma checked_executes:
  assumes "just_fetched c" "r < 32" "f = A_ADD \<or> f = A_SUB"
    and v: "v = alu_exact f (operand_of (before c) a) (operand_of (before c) b)"
    and d: "(if signed_fits v then Some (gpr_set c r (of_int v)) else raise_exception c EXCEPTION_OV)
      = Some d"
  shows "executes c d (Checked f r a b)"
proof (cases "signed_fits v")
  case True
  with assms show ?thesis
    by (intro result_executes [where r = r and x = "of_int v" and e = c])
      (auto simp: fits_iff advance_before gpr_set_eq Let_def)
next
  case False
  with d have "raise_exception c EXCEPTION_OV = Some d" by simp
  then show ?thesis
    by (rule trap_executes [OF assms(1)])
      (use False v in \<open>simp add: fits_iff advance_before [OF assms(1)] Let_def\<close>)
qed

lemma checked_handlers:
  assumes "just_fetched c"
  shows "op_ADD c = Some d \<Longrightarrow> executes c d (Checked A_ADD (m_rd c) (Reg (m_rs c)) (Reg (m_rt c)))"
    and "op_SUB c = Some d \<Longrightarrow> executes c d (Checked A_SUB (m_rd c) (Reg (m_rs c)) (Reg (m_rt c)))"
    and "op_ADDI c = Some d \<Longrightarrow>
      executes c d (Checked A_ADD (m_rt c) (Reg (m_rs c)) (Const (sign_ext_16_32 (m_imm c))))"
proof -
  show "op_ADD c = Some d \<Longrightarrow> executes c d (Checked A_ADD (m_rd c) (Reg (m_rs c)) (Reg (m_rt c)))"
    by (rule checked_executes [OF assms, where v = "sint (gpr_rs c) + sint (gpr_rt c)"])
      (auto simp: op_ADD_def sadd_overflow_eq split: if_splits)
  show "op_SUB c = Some d \<Longrightarrow> executes c d (Checked A_SUB (m_rd c) (Reg (m_rs c)) (Reg (m_rt c)))"
    by (rule checked_executes [OF assms, where v = "sint (gpr_rs c) - sint (gpr_rt c)"])
      (auto simp: op_SUB_def ssub_overflow_eq split: if_splits)
  show "op_ADDI c = Some d \<Longrightarrow>
      executes c d (Checked A_ADD (m_rt c) (Reg (m_rs c)) (Const (sign_ext_16_32 (m_imm c))))"
    by (rule checked_executes [OF assms, where v = "sint (sign_ext_16_32 (m_imm c)) + sint (gpr_rs c)"])
      (auto simp: op_ADDI_def sadd_overflow_eq split: if_splits)
qed

section \<open>HI, LO and coprocessor 0\<close>

lemma sext_value: "sign_ext_32_64 x = word_of_int (sint x)"
  and zext_value: "zero_ext_32_64 x = word_of_int (uint x)"
  unfolding sign_ext_32_64_def zero_ext_32_64_def by (metis of_int_sint, metis of_int_uint)

lemma product_halves:
  "(ucast (word_of_int v AND 0xFFFFFFFF :: u64) :: u32) = of_int v"
  "(ucast (drop_bit 32 (word_of_int v :: u64)) :: u32) = of_int (v div 2 ^ 32)"
proof -
  show "(ucast (word_of_int v AND 0xFFFFFFFF :: u64) :: u32) = of_int v"
    unfolding mask_numerals(12) by (rule u32_bit_eqI) (simp add: bit_simps)
  show "(ucast (drop_bit 32 (word_of_int v :: u64)) :: u32) = of_int (v div 2 ^ 32)"
    unfolding drop_bit_eq_div [symmetric] by (rule u32_bit_eqI) (simp add: bit_simps)
qed

lemma pop_value: "of_nat (16 * (unat s div 16) + unat s div 4 mod 16) = sr_pop s"
proof -
  have powers: "(16 :: nat) = 2 ^ 4" by simp
  have d: "unat s div 4 = unat (drop_bit 2 s)" by (simp add: unat_drop_bit)
  have "(of_nat (16 * (unat s div 16) + unat s div 4 mod 16) :: u32)
      = push_bit 4 (drop_bit 4 s) + take_bit 4 (drop_bit 2 s)"
    unfolding d powers of_nat_add of_nat_mult_push of_nat_div_drop of_nat_mod_take by (rule refl)
  also have "\<dots> = push_bit 4 (drop_bit 4 s) OR take_bit 4 (drop_bit 2 s)"
    by (intro disjunctive_add_eq_or u32_bit_eqI) (auto simp: bit_simps)
  also have "\<dots> = sr_pop s"
    by (rule u32_bit_eqI) (auto simp: bit_sr_pop bit_simps)
  finally show ?thesis .
qed

lemma hilo_handlers:
  assumes "just_fetched c"
  shows "op_MFHI c = Some d \<Longrightarrow> executes c d (From_Hi (m_rd c))"
    and "op_MFLO c = Some d \<Longrightarrow> executes c d (From_Lo (m_rd c))"
    and "op_MTHI c = Some d \<Longrightarrow> executes c d (To_Hi (m_rs c))"
    and "op_MTLO c = Some d \<Longrightarrow> executes c d (To_Lo (m_rs c))"
    and "op_MFC0 c = Some d \<Longrightarrow> executes c d (From_Sys (m_rt c) (m_rd c))"
    and "op_MTC0 c = Some d \<Longrightarrow> executes c d (To_Sys (m_rt c) (m_rd c))"
    and "op_RFE c = Some d \<Longrightarrow> executes c d Return_Exc"
proof -
  note adv = advance_before [OF assms]
  show "op_MFHI c = Some d \<Longrightarrow> executes c d (From_Hi (m_rd c))"
    by (rule result_executes [OF assms, where e = c]) (auto simp: op_MFHI_def adv gpr_set_eq)
  show "op_MFLO c = Some d \<Longrightarrow> executes c d (From_Lo (m_rd c))"
    by (rule result_executes [OF assms, where e = c]) (auto simp: op_MFLO_def adv gpr_set_eq)
  show "op_MFC0 c = Some d \<Longrightarrow> executes c d (From_Sys (m_rt c) (m_rd c))"
    by (rule result_executes [OF assms, where e = c]) (auto simp: op_MFC0_def adv gpr_set_eq)
  show "op_MTHI c = Some d \<Longrightarrow> executes c d (To_Hi (m_rs c))"
    by (rule done_executes [OF assms]) (auto simp: op_MTHI_def adv view_def)
  show "op_MTLO c = Some d \<Longrightarrow> executes c d (To_Lo (m_rs c))"
    by (rule done_executes [OF assms]) (auto simp: op_MTLO_def adv view_def)
  show "op_MTC0 c = Some d \<Longrightarrow> executes c d (To_Sys (m_rt c) (m_rd c))"
    by (rule done_executes [OF assms]) (auto simp: op_MTC0_def adv view_def)
  show "op_RFE c = Some d \<Longrightarrow> executes c d Return_Exc"
    by (rule done_executes [OF assms])
      (auto simp: op_RFE_def adv pop_modes_def pop_value sr_pop_def view_def Let_def
        simp del: of_nat_add of_nat_mult)
qed

section \<open>Multiplication and division\<close>

lemma mult_executes:
  assumes "just_fetched c" "d = cpu_update (\<lambda>c. c\<lparr>lo := x, hi := y\<rparr>) c"
    and "exec i (before c) = Done ((view c)\<lparr>low := x, high := y\<rparr>)"
  shows "executes c d i"
  using assms by (intro done_executes) (simp_all add: view_def)

lemma mult_handlers:
  assumes "just_fetched c"
  shows "op_MULT c = Some d \<Longrightarrow> executes c d (Multiply True (m_rs c) (m_rt c))"
    and "op_MULTU c = Some d \<Longrightarrow> executes c d (Multiply False (m_rs c) (m_rt c))"
  unfolding op_MULT_def op_MULTU_def Let_def sext_value zext_value wi_hom_mult product_halves
    option.inject
  by (erule mult_executes [OF assms sym], simp add: advance_before [OF assms] Let_def)+

lemma int_least_div: "sint (0x80000000 :: u32) sdiv sint (0xFFFFFFFF :: u32) = 2 ^ 31"
  "sint (0x80000000 :: u32) smod sint (0xFFFFFFFF :: u32) = 0"
  by (simp_all add: signed_divide_int_def signed_modulo_int_def)

lemma div_handlers:
  assumes "just_fetched c"
  shows "op_DIV c = Some d \<Longrightarrow> executes c d (Divide True (m_rs c) (m_rt c))"
    and "op_DIVU c = Some d \<Longrightarrow> executes c d (Divide False (m_rs c) (m_rt c))"
proof -
  note adv = advance_before [OF assms]
  let ?n = "gpr_rs c" and ?d = "gpr_rt c"
  have neg: "?n <s 0 \<longleftrightarrow> sint ?n < 0" by (simp add: word_sless_alt)
  show "executes c d (Divide True (m_rs c) (m_rt c))" if "op_DIV c = Some d"
  proof (rule mult_executes [OF assms, where x = "fst (divide True ?n ?d)"
        and y = "snd (divide True ?n ?d)"])
    have odd: "?n = 0x80000000 \<Longrightarrow> ?d = 0xFFFFFFFF \<Longrightarrow> divide True ?n ?d = (0x80000000, 0)"
      using int_least_div by (simp add: divide_def)
    show "d = cpu_update (\<lambda>ca. ca\<lparr>lo := fst (divide True ?n ?d), hi := snd (divide True ?n ?d)\<rparr>) c"
      using that odd unfolding op_DIV_def Let_def neg option.inject
      by (auto simp: divide_def split: if_splits)
    show "exec (Divide True (m_rs c) (m_rt c)) (before c)
        = Done ((view c)\<lparr>low := fst (divide True ?n ?d), high := snd (divide True ?n ?d)\<rparr>)"
      by (simp add: adv split: prod.split)
  qed
  show "executes c d (Divide False (m_rs c) (m_rt c))" if "op_DIVU c = Some d"
  proof (rule mult_executes [OF assms, where x = "fst (divide False ?n ?d)"
        and y = "snd (divide False ?n ?d)"])
    have "?n div ?d = of_nat (unat ?n div unat ?d)" "?n mod ?d = of_nat (unat ?n mod unat ?d)"
      by (metis of_nat_unat ucast_id unat_div, metis of_nat_unat ucast_id unat_mod)
    then show "d = cpu_update (\<lambda>ca. ca\<lparr>lo := fst (divide False ?n ?d), hi := snd (divide False ?n ?d)\<rparr>) c"
      using that by (auto simp: op_DIVU_def divide_def split: if_splits)
    show "exec (Divide False (m_rs c) (m_rt c)) (before c)
        = Done ((view c)\<lparr>low := fst (divide False ?n ?d), high := snd (divide False ?n ?d)\<rparr>)"
      by (simp add: adv split: prod.split)
  qed
qed

section \<open>Jumps and branches\<close>

lemma jump_value: "of_nat (2 ^ 28 * (unat a div 2 ^ 28) + 4 * unat (instr_target i)) = calc_jmp_addr i a"
proof -
  have four: "(4 :: nat) = 2 ^ 2" by simp
  have "(of_nat (2 ^ 28 * (unat a div 2 ^ 28) + 4 * unat (instr_target i)) :: u32)
      = push_bit 28 (drop_bit 28 a) + push_bit 2 (take_bit 26 i)"
    unfolding four of_nat_add of_nat_mult_push of_nat_div_drop
    by (simp add: instr_target_def mask_numerals(10) take_bit_eq_mask)
  also have "\<dots> = push_bit 28 (drop_bit 28 a) OR push_bit 2 (take_bit 26 i)"
    by (intro disjunctive_add_eq_or u32_bit_eqI) (auto simp: bit_simps)
  also have "\<dots> = calc_jmp_addr i a"
  proof -
    have m: "(0xF0000000 :: u32) = NOT (mask 28)" by (simp add: mask_eq_exp_minus_1)
    show ?thesis unfolding calc_jmp_addr_def instr_target_def m mask_numerals(10)
      by (rule u32_bit_eqI) (auto simp: bit_simps)
  qed
  finally show ?thesis .
qed

lemma goto_view:
  "cpu d = jump_entry t (cpu c) \<Longrightarrow> bus d = bus c \<Longrightarrow> view d = goto t (view c)"
  by (simp add: goto_def view_def jump_entry_def)

lemma goto_executes:
  assumes "just_fetched c" "cpu d = jump_entry t (cpu c)" "bus d = bus c"
    and "exec i (before c) = Done (goto t (view c))"
  shows "executes c d i"
  using assms goto_view [OF assms(2,3)] by (intro done_executes) (simp_all add: jump_entry_def)

lemma link_executes:
  assumes "just_fetched c" "r < 32" "cpu d = jump_entry t (reg_write r x (cpu c))" "bus d = bus c"
    and "exec i (before c) = Result r x (goto t (view c))"
  shows "executes c d i"
proof (rule result_executes [OF assms(1)])
  let ?e = "cpu_update (jump_entry t) c"
  have "view ?e = goto t (view c)" by (rule goto_view) simp_all
  then show "exec i (before c) = Result r x (view ?e)" by (simp add: assms(5))
qed (use assms in \<open>simp_all add: jump_entry_def reg_write_def\<close>)

lemma jump_handlers:
  assumes "just_fetched c"
  shows "op_J c = Some d \<Longrightarrow> executes c d (Jump (unat (instr_target (instr (cpu c)))) False)"
    and "op_JAL c = Some d \<Longrightarrow> executes c d (Jump (unat (instr_target (instr (cpu c)))) True)"
    and "op_JR c = Some d \<Longrightarrow> executes c d (Jump_Reg (m_rs c) None)"
    and "op_JALR c = Some d \<Longrightarrow> 4 dvd unat (gpr_rs c) \<Longrightarrow>
      executes c d (Jump_Reg (m_rs c) (Some (m_rd c)))"
proof -
  note adv = advance_before [OF assms]
  let ?t = "calc_jmp_addr (instr (cpu c)) (curr_pc (cpu c))"
  have j: "exec (Jump (unat (instr_target (instr (cpu c)))) link) (before c)
      = (if link then Result 31 (curr_pc (cpu c) + 8) (goto ?t (view c)) else Done (goto ?t (view c)))"
    for link by (simp only: exec.simps adv before_fields jump_value Let_def)
  show "op_J c = Some d \<Longrightarrow> executes c d (Jump (unat (instr_target (instr (cpu c)))) False)"
    by (rule goto_executes [OF assms, where t = ?t]) (auto simp: op_J_def jmp_eq j simp del: exec.simps)
  show "op_JAL c = Some d \<Longrightarrow> executes c d (Jump (unat (instr_target (instr (cpu c)))) True)"
    by (rule link_executes [OF assms, where t = ?t and r = 31 and x = "curr_pc (cpu c) + 8"])
      (auto simp: op_JAL_def jmp_eq gpr_set_eq j reg_write_def Let_def simp del: exec.simps)
  show "op_JR c = Some d \<Longrightarrow> executes c d (Jump_Reg (m_rs c) None)"
    by (rule goto_executes [OF assms, where t = "gpr_rs c"]) (auto simp: op_JR_def jmp_eq adv Let_def)
  show "op_JALR c = Some d \<Longrightarrow> 4 dvd unat (gpr_rs c) \<Longrightarrow>
      executes c d (Jump_Reg (m_rs c) (Some (m_rd c)))"
    by (rule link_executes [OF assms, where t = "gpr_rs c" and r = "m_rd c"
          and x = "curr_pc (cpu c) + 8"])
      (auto simp: op_JALR_def jmp_eq gpr_set_eq adv Let_def and_3_eq_0_iff dvd_eq_mod_eq_0
        split: if_splits)
qed

text \<open>A branch outside a delay slot whose offset survives the shift.\<close>

lemma branch_executes:
  assumes "just_fetched c" "\<not> in_branch_delay_slot (cpu c)"
    and range: "- 8192 \<le> sint (m_imm c)" "sint (m_imm c) < 8192"
    and "cpu d = branch_entry b (if link then reg_write 31 (curr_pc (cpu c) + 8) (cpu c) else cpu c)"
      "bus d = bus c" "b = holds cd (gpr (cpu c) ! rs) (gpr (cpu c) ! rt)"
  shows "executes c d (Branch cd rs rt (sint (m_imm c)) link)"
proof -
  let ?t = "if b then curr_pc (cpu c) + 4 + of_int (4 * sint (m_imm c)) else pc (cpu c) + 4"
  have "calc_branch_addr (instr (cpu c)) (curr_pc (cpu c))
      = curr_pc (cpu c) + 4 + of_int (4 * sint (m_imm c))"
    using range sint_shifted_iff [of "sint (m_imm c)"]
    by (simp add: calc_branch_addr_value algebra_simps)
  moreover have "next_pc (cpu c) = pc (cpu c) + 4"
    using assms(1) by (simp add: just_fetched_def)
  ultimately have e: "branch_entry b x = jump_entry ?t x"
    if "instr x = instr (cpu c)" "curr_pc x = curr_pc (cpu c)" "next_pc x = next_pc (cpu c)"
      "in_branch_delay_slot x = in_branch_delay_slot (cpu c)" for x
    using that assms(2) by (simp add: branch_entry_def jump_entry_def)
  have t: "exec (Branch cd rs rt (sint (m_imm c)) link) (before c)
      = (if link then Result 31 (curr_pc (cpu c) + 8) (goto ?t (view c)) else Done (goto ?t (view c)))"
    by (simp add: advance_before [OF assms(1)] assms(7) Let_def)
  show ?thesis
  proof (cases link)
    case True
    then have "cpu d = jump_entry ?t (reg_write 31 (curr_pc (cpu c) + 8) (cpu c))"
      using assms(5) e [of "reg_write 31 (curr_pc (cpu c) + 8) (cpu c)"] by (simp add: reg_write_def)
    then show ?thesis
      by (rule link_executes [OF assms(1), rotated 1]) (use True t assms(6) in simp_all)
  next
    case False
    then have "cpu d = jump_entry ?t (cpu c)" using assms(5) e [of "cpu c"] by simp
    then show ?thesis
      by (rule goto_executes [OF assms(1)]) (use False t assms(6) in simp_all)
  qed
qed

lemma branch_if_frame:
  assumes "branch_if c b = Some d"
  shows "cpu d = branch_entry b (cpu c)" "bus d = bus c"
  using assms by (auto simp: branch_if_eq branch_entry_def)

lemma branch_handlers:
  assumes "just_fetched c" "\<not> in_branch_delay_slot (cpu c)"
    and range: "- 8192 \<le> sint (m_imm c)" "sint (m_imm c) < 8192"
  shows "op_BEQ c = Some d \<Longrightarrow> executes c d (Branch C_EQ (m_rs c) (m_rt c) (sint (m_imm c)) False)"
    and "op_BNE c = Some d \<Longrightarrow> executes c d (Branch C_NE (m_rs c) (m_rt c) (sint (m_imm c)) False)"
    and "op_BLEZ c = Some d \<Longrightarrow> executes c d (Branch C_LEZ (m_rs c) (m_rt c) (sint (m_imm c)) False)"
    and "op_BGTZ c = Some d \<Longrightarrow> executes c d (Branch C_GTZ (m_rs c) (m_rt c) (sint (m_imm c)) False)"
    and "op_BCOND c = Some d \<Longrightarrow> executes c d (Branch (if odd (m_rt c) then C_GEZ else C_LTZ)
      (m_rs c) (m_rt c) (sint (m_imm c)) (m_rt c div 2 = 8))"
proof -
  note ex = branch_executes [OF assms]
  show "op_BEQ c = Some d \<Longrightarrow> executes c d (Branch C_EQ (m_rs c) (m_rt c) (sint (m_imm c)) False)"
    by (rule ex [where b = "gpr_rs c = gpr_rt c"]) (auto simp: op_BEQ_def branch_if_frame)
  show "op_BNE c = Some d \<Longrightarrow> executes c d (Branch C_NE (m_rs c) (m_rt c) (sint (m_imm c)) False)"
    by (rule ex [where b = "gpr_rs c \<noteq> gpr_rt c"]) (auto simp: op_BNE_def branch_if_frame)
  show "op_BLEZ c = Some d \<Longrightarrow> executes c d (Branch C_LEZ (m_rs c) (m_rt c) (sint (m_imm c)) False)"
    by (rule ex [where b = "gpr_rs c \<le>s 0"]) (auto simp: op_BLEZ_def branch_if_frame word_sle_eq)
  show "op_BGTZ c = Some d \<Longrightarrow> executes c d (Branch C_GTZ (m_rs c) (m_rt c) (sint (m_imm c)) False)"
    by (rule ex [where b = "0 <s gpr_rs c"]) (auto simp: op_BGTZ_def branch_if_frame word_sless_alt)
  have link: "instr_rt (instr (cpu c)) AND 0x1E = 0x10 \<longleftrightarrow> m_rt c div 2 = 8"
    using link_field [of "instr_rt (instr (cpu c))"] by auto
  show "executes c d (Branch (if odd (m_rt c) then C_GEZ else C_LTZ)
      (m_rs c) (m_rt c) (sint (m_imm c)) (m_rt c div 2 = 8))" if "op_BCOND c = Some d"
  proof (rule ex [where b = "if odd (m_rt c) then 0 \<le> sint (gpr_rs c) else sint (gpr_rs c) < 0"])
    show "cpu d = branch_entry (if odd (m_rt c) then 0 \<le> sint (gpr_rs c) else sint (gpr_rs c) < 0)
        (if m_rt c div 2 = 8 then reg_write 31 (curr_pc (cpu c) + 8) (cpu c) else cpu c)"
      "bus d = bus c"
      using that branch_if_frame unfolding op_BCOND_def Let_def bcond_taken link
      by (auto simp: gpr_set_eq)
  qed simp
qed

end
