(* ===== verification/Isa_Accesses.thy ===== *)
theory Isa_Accesses
  imports Isa_Handlers
begin

text \<open>
  The loads and stores of the interpreter carry out those of the reference machine, as long as
  no data breakpoint watches the address and its bits 20 to 23 survive.
\<close>

section \<open>Addresses\<close>

lemma and_zero_bit: "w AND push_bit n 1 = 0 \<longleftrightarrow> \<not> bit w n" if "n < 32" for w :: u32
proof
  assume "w AND push_bit n 1 = 0"
  then have "\<not> bit (w AND push_bit n 1) n" by simp
  with that show "\<not> bit w n" by (simp add: bit_simps)
next
  assume "\<not> bit w n"
  then show "w AND push_bit n 1 = 0" by (intro u32_bit_eqI) (auto simp: bit_simps bit_1_iff)
qed

lemma isolated_iff: "isolated (before c) \<longleftrightarrow> cop0 (cpu c) ! 12 AND CPU_SR_ISC \<noteq> 0"
proof -
  have "odd (unat w div 2 ^ 16) \<longleftrightarrow> w AND CPU_SR_ISC \<noteq> 0" for w :: u32
    using bit_unsigned_iff [of w 16, where ?'a = nat] and_zero_bit [of 16 w]
    by (simp add: bit_iff_odd [of "unat w"] CPU_SR_ISC_def)
  then show ?thesis by (simp add: isolated_def)
qed

lemma watched_iff: "watched (before c) v \<longleftrightarrow> bp_hit (cpu c) v"
proof -
  have "w AND (CPU_DCIC_DE OR CPU_DCIC_DAE) = 0 \<longleftrightarrow> \<not> bit w 23 \<and> \<not> bit w 25" for w :: u32
    unfolding CPU_DCIC_DE_def CPU_DCIC_DAE_def bit.conj_disj_distrib or_eq_0_iff
    using and_zero_bit [of 23 w] and_zero_bit [of 25 w] by simp
  then show ?thesis by (simp add: watched_def bp_hit_def)
qed

lemma ea_eq: "ea (before c) (m_rs c) (sint (m_imm c)) = data_vaddr (cpu c)"
  by (simp add: ea_def data_vaddr_def get_vaddr_def instr_off_def sign_ext_16_32_def add.commute)

lemma plain_address:
  assumes "plain_access (before c) (data_vaddr (cpu c))"
  shows "bp_check c (data_vaddr (cpu c)) = c"
    and "data_paddr (cpu c) = translate (data_vaddr (cpu c))"
proof -
  let ?v = "data_vaddr (cpu c)"
  show "bp_check c ?v = c" using assms by (simp add: plain_access_def watched_iff bp_check_def)
  have "?v AND 0xFFFFF = ?v" if "?v \<le> 0xFFFFFF"
  proof -
    from that have "unat ?v < 0x1000000" by (simp add: word_le_nat_alt)
    with assms have "unat ?v < 0x100000" by (simp add: plain_access_def)
    then have "unat (?v AND 0xFFFFF) = unat ?v" by (simp add: unat_and_FFFFF [simplified])
    then show ?thesis by (simp add: word_unat_eq_iff)
  qed
  then show "data_paddr (cpu c) = translate ?v" by (simp add: data_paddr_def translate_eq)
qed

lemma room: "unat (translate a) + 4 \<le> 2 ^ 32"
  by (simp only: translate_eq paddr_room)

lemma mod_and:
  "p AND 3 = 0 \<longleftrightarrow> unat p mod 4 = 0" "p AND 1 = 0 \<longleftrightarrow> unat p mod 2 = 0" for p :: u32
  by (rule and_3_eq_0_iff, rule and_1_eq_0_iff)

section \<open>Loads\<close>

section \<open>Loads\<close>

text \<open>
  The access of a handler whose address is plain: it happens in the context of the fetch, at
  the translated address.
\<close>

definition plain_at :: "psycho_ctx \<Rightarrow> u32 \<Rightarrow> bool" where
  "plain_at c p \<longleftrightarrow> just_fetched c \<and> plain_access (before c) (data_vaddr (cpu c))
     \<and> p = translate (data_vaddr (cpu c))"

lemma plain_bind:
  assumes "plain_at c p"
  shows "Option.bind (get_phys_addr c) f = f (p, c)"
  using assms plain_address [of c] by (simp add: plain_at_def bind_phys_addr)

lemma delayed_executes:
  assumes "plain_at c p" "bus c1 = bus c" "cpu c1 = cpu c"
    and "gpr_set_delayed c1 (m_rt c1) x = Some d"
    and "exec i (before c) = Loaded (m_rt c) x (view c)"
  shows "executes c d i"
  by (rule load_executes [where r = "m_rt c" and x = x])
    (use assms in \<open>auto simp: plain_at_def gpr_set_delayed_eq split: if_splits\<close>)

lemma exec_load:
  assumes "plain_at c p"
  shows "exec (Load n sg (m_rt c) (m_rs c) (sint (m_imm c))) (before c) =
    (let v = read_le (mem_view (bus c)) n p
     in if unat p mod n \<noteq> 0 then Done (trap 4 (curr_pc (cpu c)) (view c))
        else Loaded (m_rt c) (if sg then of_int (to_signed (8 * n) v) else of_nat v) (view c))"
  using assms advance_before [of c] by (simp only: plain_at_def exec.simps ea_eq before_fields Let_def)

lemma misaligned_executes:
  assumes "plain_at c p" "raise_exception c EXCEPTION_ADEL = Some d" "unat p mod n \<noteq> 0"
  shows "executes c d (Load n sg (m_rt c) (m_rs c) (sint (m_imm c)))"
  by (rule trap_executes [OF _ assms(2)])
    (use assms in \<open>auto simp: exec_load [OF assms(1)] plain_at_def Let_def simp del: exec.simps\<close>)

lemma ext_values:
  "of_int (to_signed 8 (unat b)) = sign_ext_8_32 b" "of_nat (unat b) = (ucast b :: u32)"
  "of_int (to_signed 16 (unat h)) = sign_ext_16_32 h" "of_nat (unat h) = (ucast h :: u32)"
  for b :: u8 and h :: u16
proof -
  have "to_signed 8 (unat b) = sint b" "to_signed 16 (unat h) = sint h"
    using sint_value [of b] sint_value [of h] by simp_all
  then show "of_int (to_signed 8 (unat b)) = sign_ext_8_32 b"
    "of_int (to_signed 16 (unat h)) = sign_ext_16_32 h"
    unfolding sign_ext_8_32_def sign_ext_16_32_def by (simp_all only: of_int_sint)
  show "of_nat (unat b) = (ucast b :: u32)" "of_nat (unat h) = (ucast h :: u32)"
    by (metis of_nat_unat)+
qed

lemma byte_load_handlers:
  assumes "plain_at c p"
  shows "op_LB c = Some d \<Longrightarrow> executes c d (Load 1 True (m_rt c) (m_rs c) (sint (m_imm c)))"
    and "op_LBU c = Some d \<Longrightarrow> executes c d (Load 1 False (m_rt c) (m_rs c) (sint (m_imm c)))"
proof -
  have sized: "bus_sized (bus c)" using assms by (simp add: plain_at_def just_fetched_def)
  have load: "executes c d (Load 1 sg (m_rt c) (m_rs c) (sint (m_imm c)))"
    if "psycho_bus_load_byte c p = Some (b, c1)"
      "gpr_set_delayed c1 (m_rt c1) (if sg then sign_ext_8_32 b else ucast b) = Some d" for b c1 sg
    by (rule delayed_executes [OF assms _ _ that(2)])
      (use byte_port.load_frame [OF that(1)] read_byte [OF sized that(1)]
        in \<open>simp_all add: exec_load [OF assms] Let_def ext_values del: exec.simps\<close>)
  show "op_LB c = Some d \<Longrightarrow> executes c d (Load 1 True (m_rt c) (m_rs c) (sint (m_imm c)))"
    using load [where sg = True] by (auto simp: op_LB_def plain_bind [OF assms] Let_def
        elim!: bind_eq_SomeE)
  show "op_LBU c = Some d \<Longrightarrow> executes c d (Load 1 False (m_rt c) (m_rs c) (sint (m_imm c)))"
    using load [where sg = False] by (auto simp: op_LBU_def plain_bind [OF assms] Let_def
        elim!: bind_eq_SomeE)
qed

lemma half_load_handlers:
  assumes "plain_at c p" "\<not> rom p"
  shows "op_LH c = Some d \<Longrightarrow> executes c d (Load 2 True (m_rt c) (m_rs c) (sint (m_imm c)))"
    and "op_LHU c = Some d \<Longrightarrow> executes c d (Load 2 False (m_rt c) (m_rs c) (sint (m_imm c)))"
proof -
  have sized: "bus_sized (bus c)" using assms by (simp add: plain_at_def just_fetched_def)
  have r: "unat p + 2 \<le> 2 ^ 32"
    using assms(1) room [of "data_vaddr (cpu c)"] by (simp add: plain_at_def)
  note bad = misaligned_executes [OF assms(1), where n = 2]
  have load: "executes c d (Load 2 sg (m_rt c) (m_rs c) (sint (m_imm c)))"
    if "p AND 1 = 0" "psycho_bus_load_halfword c p = Some (h, c1)"
      "gpr_set_delayed c1 (m_rt c1) (if sg then sign_ext_16_32 h else ucast h) = Some d" for h c1 sg
    by (rule delayed_executes [OF assms(1) _ _ that(3)])
      (use half_port.load_frame [OF that(2)] read_half [OF sized r that(1) assms(2) that(2)] that(1)
        in \<open>simp_all add: exec_load [OF assms(1)] Let_def ext_values mod_and del: exec.simps\<close>)
  show "op_LH c = Some d \<Longrightarrow> executes c d (Load 2 True (m_rt c) (m_rs c) (sint (m_imm c)))"
    using load [where sg = True] bad by (auto simp: op_LH_def plain_bind [OF assms(1)] Let_def
        mod_and(2) elim!: bind_eq_SomeE split: if_splits)
  show "op_LHU c = Some d \<Longrightarrow> executes c d (Load 2 False (m_rt c) (m_rs c) (sint (m_imm c)))"
    using load [where sg = False] bad by (auto simp: op_LHU_def plain_bind [OF assms(1)] Let_def
        mod_and(2) elim!: bind_eq_SomeE split: if_splits)
qed

lemma word_load_handler:
  assumes "plain_at c p" "op_LW c = Some d"
  shows "executes c d (Load 4 False (m_rt c) (m_rs c) (sint (m_imm c)))"
proof (cases "p AND 3 = 0")
  case True
  have sized: "bus_sized (bus c)" using assms by (simp add: plain_at_def just_fetched_def)
  have r: "unat p + 4 \<le> 2 ^ 32"
    using assms(1) room [of "data_vaddr (cpu c)"] by (simp only: plain_at_def)
  obtain w c1 where ld: "psycho_bus_load_word c p = Some (w, c1)"
    and set: "gpr_set_delayed c1 (m_rt c1) w = Some d"
    using True assms(2) by (auto simp: op_LW_def plain_bind [OF assms(1)] elim!: bind_eq_SomeE)
  show ?thesis
    by (rule delayed_executes [OF assms(1) _ _ set])
      (use word_port.load_frame [OF ld] read_word [OF sized r True ld] True
        in \<open>simp_all add: exec_load [OF assms(1)] Let_def mod_and del: exec.simps\<close>)
next
  case False
  then show ?thesis
    using assms misaligned_executes [OF assms(1), of d 4]
    by (simp add: op_LW_def plain_bind [OF assms(1)] mod_and(1))
qed

lemma newest_before:
  assumes "just_fetched c"
  shows "newest (before c) (m_rt c) = merge_base (cpu c)"
proof (cases "ld_dst (ld_next (cpu c)) = 0")
  case True
  then show ?thesis
    using assms by (auto simp: newest_def merge_base_def pending_def Let_def just_fetched_def
        cpu_shape_def load_ok_def)
next
  case False
  then show ?thesis by (simp add: newest_def merge_base_def pending_def Let_def)
qed

lemma part_load_executes:
  assumes "plain_at c p" "psycho_bus_load_word c (p AND - 4) = Some (w, c1)"
    and "gpr_set_delayed c1 (m_rt c1) x = Some d"
    and "of_nat (load_part sd (mem_view (bus c)) p (unat (merge_base (cpu c)))) = x"
  shows "executes c d (Load_Part sd (m_rt c) (m_rs c) (sint (m_imm c)))"
proof -
  have f: "just_fetched c" using assms(1) by (simp add: plain_at_def)
  note fr = word_port.load_frame [OF assms(2)]
  have "exec (Load_Part sd (m_rt c) (m_rs c) (sint (m_imm c))) (before c) = Loaded (m_rt c) x (view c)"
    using assms(1,4) advance_before [OF f] newest_before [OF f]
    by (simp only: plain_at_def exec.simps ea_eq before_fields)
  with assms(3) fr show ?thesis by (intro delayed_executes [OF assms(1) fr(2,1)]) (simp_all only:)
qed

lemma part_load_handlers:
  assumes "plain_at c p"
  shows "op_LWL c = Some d \<Longrightarrow> executes c d (Load_Part Leftmost (m_rt c) (m_rs c) (sint (m_imm c)))"
    and "op_LWR c = Some d \<Longrightarrow> executes c d (Load_Part Rightmost (m_rt c) (m_rs c) (sint (m_imm c)))"
proof -
  have sized: "bus_sized (bus c)" using assms by (simp add: plain_at_def just_fetched_def)
  have r: "unat p < 2 ^ 32 - 4"
    using assms paddr_range [of "data_vaddr (cpu c)"] by (auto simp: plain_at_def translate_eq)
  have s: "unat p mod 4 < 4" by simp
  note defs = plain_bind [OF assms] Let_def
  show "executes c d (Load_Part Leftmost (m_rt c) (m_rs c) (sint (m_imm c)))" if op: "op_LWL c = Some d"
  proof -
    obtain w c1 where ld: "psycho_bus_load_word c (p AND - 4) = Some (w, c1)"
      and set: "gpr_set_delayed c1 (m_rt c1) (lwl_merge (merge_base (cpu c1)) w (unat p mod 4)) = Some d"
      using op by (auto simp: op_LWL_def defs lwl_merge_def merge_base_def unat_and_3
          elim!: bind_eq_SomeE)
    have "p - of_nat (unat p mod 4) = p AND - 4" by (simp only: align_sub and_3_of_nat)
    then have "of_nat (load_part Leftmost (mem_view (bus c)) p (unat (merge_base (cpu c))))
        = lwl_merge (merge_base (cpu c1)) w (unat p mod 4)"
      using lwl_merge_value [OF s, of "merge_base (cpu c)" w] read_part(2) [OF sized r ld]
        word_port.load_frame(1) [OF ld]
      by (simp only: load_part.simps Let_def diff_Suc_Suc numeral_nat One_nat_def)
    then show ?thesis by (rule part_load_executes [OF assms ld set])
  qed
  show "executes c d (Load_Part Rightmost (m_rt c) (m_rs c) (sint (m_imm c)))" if op: "op_LWR c = Some d"
  proof -
    obtain w c1 where ld: "psycho_bus_load_word c (p AND - 4) = Some (w, c1)"
      and set: "gpr_set_delayed c1 (m_rt c1) (lwr_merge (merge_base (cpu c1)) w (unat p mod 4)) = Some d"
      using op by (auto simp: op_LWR_def defs lwr_merge_def merge_base_def unat_and_3
          elim!: bind_eq_SomeE)
    have "of_nat (load_part Rightmost (mem_view (bus c)) p (unat (merge_base (cpu c))))
        = lwr_merge (merge_base (cpu c1)) w (unat p mod 4)"
      using lwr_merge_value [OF s, of w "merge_base (cpu c)"] read_part(1) [OF sized r ld]
        word_port.load_frame(1) [OF ld]
      by (simp only: load_part.simps Let_def)
    then show ?thesis by (rule part_load_executes [OF assms ld set])
  qed
qed

section \<open>Stores\<close>

lemma stored_executes:
  assumes "just_fetched c" "cpu d = cpu c"
    and "exec i (before c) = Done ((view c)\<lparr>byte_at := mem_view (bus d)\<rparr>)"
  shows "executes c d i"
  using assms by (intro done_executes) (simp_all add: view_def)

lemma exec_store:
  assumes "plain_at c p"
  shows "exec (Store n (m_rt c) (m_rs c) (sint (m_imm c))) (before c) =
    (if unat p mod n \<noteq> 0 then Done (trap 5 (curr_pc (cpu c)) (view c))
     else if isolated (before c) then Done (view c)
     else Done ((view c)\<lparr>byte_at := write_le (mem_view (bus c)) n p (unat (gpr_rt c))\<rparr>))"
  using assms advance_before [of c] by (simp only: plain_at_def exec.simps ea_eq before_fields Let_def)

lemma misaligned_store_executes:
  assumes "plain_at c p" "raise_exception c EXCEPTION_ADES = Some d" "unat p mod n \<noteq> 0"
  shows "executes c d (Store n (m_rt c) (m_rs c) (sint (m_imm c)))"
  by (rule trap_executes [OF _ assms(2)])
    (use assms in \<open>auto simp: exec_store [OF assms(1)] plain_at_def simp del: exec.simps\<close>)

lemma low_bytes:
  "i < 1 \<Longrightarrow> [ucast (w AND 0xFF) :: u8] ! i = of_nat (unat w div 256 ^ i)"
  "i < 2 \<Longrightarrow> le_bytes 2 (ucast (w AND 0xFFFF) :: u16) ! i = of_nat (unat w div 256 ^ i)"
  for w :: u32
proof -
  show "i < 1 \<Longrightarrow> [ucast (w AND 0xFF) :: u8] ! i = of_nat (unat w div 256 ^ i)"
    using le_byte [of 0 4 w] unfolding mask_numerals(6)
    by (auto simp: le_bytes_4 intro!: bit_word_eqI simp: bit_simps)
  assume i: "i < 2"
  have "le_bytes 2 (ucast (w AND 0xFFFF) :: u16) ! i = ucast (drop_bit (8 * i) w)"
    unfolding mask_numerals(8) nth_le_bytes [OF i]
    using i by (intro bit_word_eqI) (auto simp: bit_simps)
  also have "\<dots> = of_nat (unat w div 256 ^ i)" using i le_byte [of i 4 w] by simp
  finally show "le_bytes 2 (ucast (w AND 0xFFFF) :: u16) ! i = of_nat (unat w div 256 ^ i)" .
qed

lemma narrow_store_handlers:
  assumes "plain_at c p" "\<not> isolated (before c)"
  shows "op_SB c = Some d \<Longrightarrow> executes c d (Store 1 (m_rt c) (m_rs c) (sint (m_imm c)))"
    and "op_SH c = Some d \<Longrightarrow> executes c d (Store 2 (m_rt c) (m_rs c) (sint (m_imm c)))"
proof -
  have f: "just_fetched c" and sized: "bus_sized (bus c)"
    using assms by (simp_all add: plain_at_def just_fetched_def)
  have r: "unat p + 4 \<le> 2 ^ 32"
    using assms(1) room [of "data_vaddr (cpu c)"] by (simp only: plain_at_def)
  show "executes c d (Store 1 (m_rt c) (m_rs c) (sint (m_imm c)))" if op: "op_SB c = Some d"
  proof -
    have st: "psycho_bus_store_byte c p (ucast (gpr_rt c AND 0xFF)) = Some d"
      using op by (simp add: op_SB_def plain_bind [OF assms(1)])
    have "mem_view (bus d) = write_le (mem_view (bus c)) (Suc 0) p (unat (gpr_rt c))"
      by (rule store_byte_view [OF sized st]) (use r low_bytes(1) in auto)
    then show ?thesis
      using assms(2) byte_port.store_frame(1) [OF st]
      by (intro stored_executes [OF f]) (simp_all add: exec_store [OF assms(1)] del: exec.simps)
  qed
  show "executes c d (Store 2 (m_rt c) (m_rs c) (sint (m_imm c)))" if op: "op_SH c = Some d"
  proof (cases "unat p mod 2 = 0")
    case True
    then have st: "psycho_bus_store_halfword c p (ucast (gpr_rt c AND 0xFFFF)) = Some d"
      using op by (simp add: op_SH_def plain_bind [OF assms(1)] mod_and(2))
    have "mem_view (bus d) = write_le (mem_view (bus c)) 2 p (unat (gpr_rt c))"
      by (rule store_half_view [OF sized st]) (use r True low_bytes(2) in auto)
    then show ?thesis
      using assms(2) half_port.store_frame(1) [OF st] True
      by (intro stored_executes [OF f]) (simp_all add: exec_store [OF assms(1)] del: exec.simps)
  next
    case False
    with op show ?thesis
      by (intro misaligned_store_executes [OF assms(1)])
        (simp_all add: op_SH_def plain_bind [OF assms(1)] mod_and(2))
  qed
qed

lemma translate_mod_4: "unat (translate a) mod 4 = 0 \<longleftrightarrow> 4 dvd unat a"
  using vaddr_to_paddr_and_3 [of a] mod_and(1) [of a] mod_and(1) [of "translate a"]
  by (simp add: translate_eq dvd_eq_mod_eq_0)

lemma word_store_handler:
  assumes "plain_at c p" "op_SW c = Some d"
    and "isolated (before c) \<Longrightarrow> 4 dvd unat (data_vaddr (cpu c))"
  shows "executes c d (Store 4 (m_rt c) (m_rs c) (sint (m_imm c)))"
proof -
  have f: "just_fetched c" and sized: "bus_sized (bus c)"
    using assms by (simp_all add: plain_at_def just_fetched_def)
  have r: "unat p + 4 \<le> 2 ^ 32"
    using assms(1) room [of "data_vaddr (cpu c)"] by (simp only: plain_at_def)
  show ?thesis
  proof (cases "isolated (before c)")
    case True
    with assms have "unat p mod 4 = 0" by (simp add: plain_at_def translate_mod_4)
    moreover have "d = c" using assms(2) True by (simp add: op_SW_def isolated_iff)
    ultimately show ?thesis
      using True by (intro done_executes [OF f])
        (simp_all add: exec_store [OF assms(1)] del: exec.simps)
  next
    case act: False
    show ?thesis
    proof (cases "unat p mod 4 = 0")
      case True
      then have st: "psycho_bus_store_word c p (gpr_rt c) = Some d"
        using assms(2) act by (simp add: op_SW_def plain_bind [OF assms(1)] mod_and(1) isolated_iff)
      have "mem_view (bus d) = write_le (mem_view (bus c)) 4 p (unat (gpr_rt c))"
        by (rule store_word_view [OF sized st]) (use r True in \<open>simp_all add: le_byte del: nth_le_bytes\<close>)
      then show ?thesis
        using act word_port.store_frame(1) [OF st] True
        by (intro stored_executes [OF f]) (simp_all add: exec_store [OF assms(1)] del: exec.simps)
    next
      case False
      with assms(2) act show ?thesis
        by (intro misaligned_store_executes [OF assms(1)])
          (simp_all add: op_SW_def plain_bind [OF assms(1)] mod_and(1) isolated_iff)
    qed
  qed
qed

lemma merged_store_ignored:
  assumes "bus_sized b" "\<not> writable (p AND - 4)" "unat p + 4 \<le> 2 ^ 32"
  shows "store_part sd (mem_view b) p v = mem_view b"
proof -
  let ?s = "unat p mod 4"
  have "unat (p AND - 4) mod 4 = 0" by (simp add: unat_align)
  moreover have "unat (p AND - 4) + 4 \<le> 2 ^ 32" using assms(3) by (simp add: unat_align)
  ultimately have h: "mem_view b ((p AND - 4) + of_nat i) = None \<or> rom ((p AND - 4) + of_nat i)"
    if "i < 4" for i
    using that assms(1,2) by (intro unwritable_held) simp_all
  show ?thesis
  proof (cases sd)
    case Leftmost
    have "p - of_nat ?s = p AND - 4" by (simp only: align_sub and_3_of_nat)
    moreover have "write_le (mem_view b) (Suc ?s) (p AND - 4) u = mem_view b" for u
      using mod_less_divisor [of 4 "unat p"] by (intro write_le_ignored h) linarith
    ultimately show ?thesis by (simp only: Leftmost store_part.simps Let_def)
  next
    case Rightmost
    have "write_le (mem_view b) (4 - ?s) p v = mem_view b"
    proof (rule write_le_ignored)
      fix i assume "i < 4 - ?s"
      then have k: "?s + i < 4" by simp
      have "p + of_nat i = (p AND - 4) + of_nat (?s + i)" by (simp add: align_sub and_3_of_nat)
      with h [OF k] show "mem_view b (p + of_nat i) = None \<or> rom (p + of_nat i)" by (simp only:)
    qed
    then show ?thesis by (simp only: Rightmost store_part.simps)
  qed
qed

lemma merge_store_split:
  assumes "plain_at c p"
    and "op = op_SWR \<and> merge = swr_merge \<or> op = op_SWL \<and> merge = swl_merge" "op c = Some d"
  obtains w c1 where "psycho_bus_load_word c (p AND - 4) = Some (w, c1)"
    "psycho_bus_store_word c1 (p AND - 4) (merge (gpr_rt c1) w (unat p mod 4)) = Some d"
  using assms(2,3)
  by (auto simp: op_SWR_def op_SWL_def plain_bind [OF assms(1)] Let_def swr_merge_def swl_merge_def
      unat_and_3 elim!: bind_eq_SomeE)

lemma writable_no_rom:
  assumes "writable (p AND - 4)" "unat p + 4 \<le> 2 ^ 32" "i < 4"
  shows "\<not> rom ((p AND - 4) + of_nat i)"
  using assms unat_plus_small [of "p AND - 4" 4 i]
  by (auto simp: writable_def region_bounds rom_def unat_align)

lemma part_store_handlers:
  assumes "plain_at c p" "\<not> isolated (before c)"
    and "op = op_SWR \<and> merge = swr_merge \<and> sd = Rightmost
      \<or> op = op_SWL \<and> merge = swl_merge \<and> sd = Leftmost" "op c = Some d"
  shows "executes c d (Store_Part sd (m_rt c) (m_rs c) (sint (m_imm c)))"
proof -
  have f: "just_fetched c" and sized: "bus_sized (bus c)" and p: "data_paddr (cpu c) = p"
    using assms plain_address [of c] by (simp_all add: plain_at_def just_fetched_def)
  have r: "unat p + 4 \<le> 2 ^ 32"
    using assms(1) room [of "data_vaddr (cpu c)"] by (simp only: plain_at_def)
  have o: "op = op_SWR \<and> merge = swr_merge \<or> op = op_SWL \<and> merge = swl_merge" using assms(3) by blast
  obtain w c1 where ld: "psycho_bus_load_word c (p AND - 4) = Some (w, c1)"
    and st: "psycho_bus_store_word c1 (p AND - 4) (merge (gpr_rt c1) w (unat p mod 4)) = Some d"
    by (rule merge_store_split [OF assms(1) o assms(4)])
  have cpu: "cpu d = cpu c" using word_port.store_frame(1) [OF st] word_port.load_frame(1) [OF ld] by simp
  have view: "mem_view (bus d) = store_part sd (mem_view (bus c)) p (unat (gpr_rt c))"
  proof (cases "writable (p AND - 4)")
    case True
    note held = writable_no_rom [OF True r]
    have "writable (data_paddr (cpu c) AND NOT 3)" using True p by simp
    then obtain w0 where w0: "word_at (bus c) (p AND - 4) w0"
      "mem_view (bus d) = mem_write (mem_view (bus c)) (p AND - 4)
        (le_bytes 4 (merge (gpr_rt c) w0 (unat p mod 4)))"
      using partial_store [OF sized _ o assms(4)] p by auto
    from assms(3) show ?thesis
    proof (elim disjE conjE)
      assume "merge = swr_merge" "sd = Rightmost"
      then show ?thesis
        using w0 store_right_view [OF w0(1) r, of "gpr_rt c"] held by (simp del: store_part.simps)
    next
      assume "merge = swl_merge" "sd = Leftmost"
      then show ?thesis
        using w0 store_left_view [OF w0(1) r, of "gpr_rt c"] held by (simp del: store_part.simps)
    qed
  next
    case False
    then show ?thesis
      using word_port.store_ignored [OF False st] word_port.load_frame(2) [OF ld]
        merged_store_ignored [OF sized False r] by simp
  qed
  have "exec (Store_Part sd (m_rt c) (m_rs c) (sint (m_imm c))) (before c)
      = Done ((view c)\<lparr>byte_at := mem_view (bus d)\<rparr>)"
    using assms(1,2) advance_before [OF f] view
    by (simp only: exec.simps ea_eq before_fields plain_at_def if_False)
  then show ?thesis by (rule stored_executes [OF f cpu])
qed

end
