(* ===== verification/Psycho_Bios_Trace.thy ===== *)
theory Psycho_Bios_Trace
  imports Ctx_Boot
begin

text \<open>
  \<^verbatim>\<open>core/bios-trace.c\<close>: the trace of the BIOS function that writes a character, and the line
  buffer its characters are collected in.
\<close>

section \<open>Operations\<close>

abbreviation BIOS where "BIOS \<equiv> PSYCHO_LOG_MODULE_ID_BIOS"

definition b0_funcs :: "nat \<Rightarrow> psycho_bios_trace_func option" where
  "b0_funcs n =
     (if n = 0x3D then Some \<lparr>prototype = ''void std_out_putchar(char c=%c)'',
                             ret = PSYCHO_BIOS_FUNC_RET_NONE\<rparr>
      else None)"

definition newline :: char where
  "newline = CHR 0x0A"

definition escape_seq :: "char \<Rightarrow> string option" where
  "escape_seq c = (if c = newline then Some [CHR 0x5C, CHR ''n''] else None)"

text \<open>The conversion of a register to \<^verbatim>\<open>char\<close> keeps its low byte.\<close>

definition to_char :: "u32 \<Rightarrow> char" where
  "to_char w = char_of (unat (ucast w :: u8))"

definition a0_char :: "psycho_ctx \<Rightarrow> char" where
  "a0_char ctx = to_char (gpr (cpu ctx) ! gpr_index CPU_GPR_A0)"

text \<open>A log message whose text is the C string in an array.\<close>

definition LOG_HANDLE_array ::
  "psycho_log_module_id \<Rightarrow> psycho_log_level \<Rightarrow> psycho_ctx \<Rightarrow> char list \<Rightarrow> psycho_ctx option" where
  "LOG_HANDLE_array m_log_module lvl ctx arr =
     (if modules (log ctx) ! log_module_index m_log_module \<ge> lvl then do {
        s \<leftarrow> c_string_of arr;
        psycho_log_message_dispatch ctx m_log_module lvl s }
      else Some ctx)"

definition handle_tty_output :: "psycho_ctx \<Rightarrow> psycho_ctx option" where
  "handle_tty_output ctx = do {
     let c = a0_char ctx;
     let t = tty_stdout (bios_trace ctx);
     chars \<leftarrow> array_write (tty_data t) (tty_len t) [c];
     let ctx = bios_trace_update (\<lambda>b. b\<lparr>tty_stdout := \<lparr>tty_data = chars, tty_len = tty_len t + 1\<rparr>\<rparr>) ctx;
     if c = newline then do {
       let ctx = event_cb ctx (PSYCHO_EVENT_TTY_MESSAGE chars);
       s \<leftarrow> c_string_of chars;
       ctx \<leftarrow> psycho_log_message_dispatch ctx PSYCHO_LOG_MODULE_ID_TTY_STDOUT
                PSYCHO_LOG_LEVEL_INFO s;
       Some (bios_trace_update (\<lambda>b. b\<lparr>tty_stdout := zero_tty\<rparr>) ctx) }
     else if tty_len t + 1 \<ge> PSYCHO_BIOS_TTY_OUTPUT_SIZE_MAX then do {
       ctx \<leftarrow> LOG_WARN BIOS ctx ''TTY stdout buffer wrapping around, corruption is expected'';
       Some (bios_trace_update (\<lambda>b. b\<lparr>tty_stdout := (tty_stdout b)\<lparr>tty_len := 0\<rparr>\<rparr>) ctx) }
     else Some ctx
   }"

definition process_arg_char :: "char \<Rightarrow> string" where
  "process_arg_char c = (case escape_seq c of
     Some escaped_char \<Rightarrow> [CHR 0x27] @ escaped_char @ [CHR 0x27]
   | None \<Rightarrow> [CHR 0x27, c, CHR 0x27])"

text \<open>
  The loop over the prototype: \<open>dst\<close> is the index of the pointer into the result array;
  \<^verbatim>\<open>sprintf\<close> also writes a NUL behind the argument.
\<close>

definition next_char :: "string \<Rightarrow> char" where
  "next_char src = (case src of [] \<Rightarrow> NUL | y # _ \<Rightarrow> y)"

fun prototype_loop :: "char \<Rightarrow> string \<Rightarrow> char list \<Rightarrow> nat \<Rightarrow> char list option" where
  "prototype_loop c [] res dst = array_write res dst [NUL]"
| "prototype_loop c (x # src) res dst =
     (if x \<noteq> CHR ''%'' then do {
        res \<leftarrow> array_write res dst [x];
        prototype_loop c src res (dst + 1) }
      else if next_char src = CHR ''c'' then do {
        res \<leftarrow> array_write res dst (process_arg_char c @ [NUL]);
        prototype_loop c (tl src) res (dst + length (process_arg_char c)) }
      else do {
        res \<leftarrow> array_write res dst [x];
        prototype_loop c src res (dst + 1) })"

definition process_prototype :: "psycho_ctx \<Rightarrow> psycho_ctx option" where
  "process_prototype ctx = do {
     f \<leftarrow> curr_func (bios_trace ctx);
     res \<leftarrow> prototype_loop (a0_char ctx) (prototype f) (trace_result (bios_trace ctx)) 0;
     Some (bios_trace_update (\<lambda>b. b\<lparr>trace_result := res\<rparr>) ctx)
   }"

definition psycho_bios_trace_begin :: "psycho_ctx \<Rightarrow> psycho_ctx option" where
  "psycho_bios_trace_begin ctx =
     (let func = gpr (cpu ctx) ! gpr_index CPU_GPR_T1
      in if pc (cpu ctx) = 0x000000B0 \<and> func = 0x3D then do {
           let ctx = bios_trace_update (\<lambda>b. b\<lparr>curr_func := b0_funcs (unat func)\<rparr>) ctx;
           ctx \<leftarrow> (if enable_tty_output (bios_trace ctx) then handle_tty_output ctx
                  else Some ctx);
           process_prototype ctx }
         else Some ctx)"

definition psycho_bios_trace_end :: "psycho_ctx \<Rightarrow> psycho_ctx option" where
  "psycho_bios_trace_end ctx =
     (if curr_func (bios_trace ctx) \<noteq> None \<and> \<not> waiting_for_return (bios_trace ctx) then do {
        ctx \<leftarrow> LOG_HANDLE_array BIOS PSYCHO_LOG_LEVEL_INFO ctx (trace_result (bios_trace ctx));
        Some (bios_trace_update (\<lambda>b. b\<lparr>curr_func := None\<rparr>) ctx) }
      else Some ctx)"

section \<open>The invariant of the trace buffers\<close>

text \<open>
  The arrays keep their lengths, the fill index stays inside the line buffer, and a pending
  function leaves a terminated text behind.
\<close>

definition trace_inv :: "psycho_bios_trace \<Rightarrow> bool" where
  "trace_inv b \<longleftrightarrow> length (tty_data (tty_stdout b)) = 256 \<and> tty_len (tty_stdout b) < 256
     \<and> length (trace_result b) = 128 \<and> (curr_func b \<noteq> None \<longrightarrow> NUL \<in> set (trace_result b))"

lemma prototype_loop_result:
  "prototype_loop c src res dst = Some res' \<Longrightarrow> length res' = length res \<and> NUL \<in> set res'"
proof (induction c src res dst rule: prototype_loop.induct)
  case (1 c res dst)
  then show ?case by (auto simp: array_write_def split: if_splits)
next
  case (2 c x src res dst)
  then show ?case
    by (fastforce elim!: bind_eq_SomeE dest: array_write_length split: if_splits)
qed

text \<open>The text the loop leaves, as a C string would read it up to its end.\<close>

fun expand :: "char \<Rightarrow> string \<Rightarrow> string" where
  "expand c [] = []"
| "expand c (x # src) =
     (if x = CHR ''%'' \<and> next_char src = CHR ''c'' then process_arg_char c @ expand c (tl src)
      else x # expand c src)"

lemma array_write_prefix:
  assumes "array_write res dst vs = Some res'"
  shows "take (dst + length vs) res' = take dst res @ vs"
  using assms by (auto simp: array_write_def split: if_splits)

text \<open>An argument is written with a NUL behind it, which the next character overwrites.\<close>

lemma array_write_NUL_prefix:
  assumes "array_write res dst (vs @ [NUL]) = Some r"
  shows "take (dst + length vs) r = take dst res @ vs"
proof -
  have "dst + length (vs @ [NUL]) \<le> length res" using assms by (auto simp: array_write_def split: if_splits)
  moreover have "take (dst + length vs) r = take (dst + length vs) (take (dst + length (vs @ [NUL])) r)"
    by simp
  ultimately show ?thesis by (simp only: array_write_prefix [OF assms]) simp
qed

lemma prototype_loop_expand:
  assumes "dst + length (expand c src) < length res"
  shows "\<exists>res'. prototype_loop c src res dst = Some res' \<and> length res' = length res
    \<and> take (dst + length (expand c src) + 1) res' = take dst res @ expand c src @ [NUL]"
  using assms
proof (induction c src res dst rule: prototype_loop.induct)
  case (1 c res dst)
  then have "array_write res dst [NUL] = Some (take dst res @ [NUL] @ drop (dst + 1) res)"
    by (simp add: array_write_def)
  with 1 show ?case by (auto simp: min_def)
next
  case (2 c x src res dst)
  show ?case
  proof (cases "x = CHR ''%'' \<and> next_char src = CHR ''c''")
    case True
    let ?a = "process_arg_char c"
    have ex: "expand c (x # src) = ?a @ expand c (tl src)" using True by simp
    with "2.prems" have fits: "dst + length (?a @ [NUL]) \<le> length res" by simp
    then obtain r where r: "array_write res dst (?a @ [NUL]) = Some r"
      by (auto simp: array_write_def)
    then have len: "length r = length res" by (rule array_write_length)
    note pre = array_write_NUL_prefix [OF r]
    have "\<exists>res'. prototype_loop c (tl src) r (dst + length ?a) = Some res'
        \<and> length res' = length r
        \<and> take (dst + length ?a + length (expand c (tl src)) + 1) res'
          = take (dst + length ?a) r @ expand c (tl src) @ [NUL]"
      using "2.prems" ex len True r by (intro "2.IH"(2)) auto
    with pre show ?thesis using True r len ex by (auto simp: add.assoc)
  next
    case False
    then have ex: "expand c (x # src) = x # expand c src" by auto
    with "2.prems" have "dst + 1 \<le> length res" by simp
    then obtain r where r: "array_write res dst [x] = Some r" by (simp add: array_write_def)
    then have len: "length r = length res" by (rule array_write_length)
    have "\<exists>res'. prototype_loop c src r (dst + 1) = Some res' \<and> length res' = length r
        \<and> take (dst + 1 + length (expand c src) + 1) res'
          = take (dst + 1) r @ expand c src @ [NUL]"
      using False "2.prems" ex len r
      by (cases "x = CHR ''%''"; intro "2.IH"(1) "2.IH"(3)) auto
    with array_write_prefix [OF r] show ?thesis using False r len ex by auto
  qed
qed

section \<open>The hooks keep the invariant and return\<close>

lemma process_arg_char_length: "length (process_arg_char c) \<le> 4"
  by (simp add: process_arg_char_def escape_seq_def)

lemma expand_putchar:
  "expand c ''void std_out_putchar(char c=%c)'' =
    ''void std_out_putchar(char c='' @ process_arg_char c @ '')''"
  by (simp add: next_char_def)

lemma prototype_loop_putchar:
  assumes "length res = 128"
  obtains res' where "prototype_loop c ''void std_out_putchar(char c=%c)'' res 0 = Some res'"
    "length res' = 128" "NUL \<in> set res'"
    "c_str res' = c_str (''void std_out_putchar(char c='' @ process_arg_char c @ '')'')"
proof -
  let ?t = "''void std_out_putchar(char c='' @ process_arg_char c @ '')''"
  obtain res' where r: "prototype_loop c ''void std_out_putchar(char c=%c)'' res 0 = Some res'"
    and len: "length res' = length res" and pre: "take (length ?t + 1) res' = ?t @ [NUL]"
    using prototype_loop_expand [of 0 c "''void std_out_putchar(char c=%c)''" res]
      process_arg_char_length [of c] assms unfolding expand_putchar by auto
  have "res' = ?t @ NUL # drop (length ?t + 1) res'"
    using append_take_drop_id [of "length ?t + 1" res'] unfolding pre by simp
  then have "c_str res' = c_str (?t @ NUL # drop (length ?t + 1) res')" by (rule arg_cong)
  also have "\<dots> = c_str ?t"
    unfolding c_str_def by (simp only: takeWhile_append takeWhile.simps) (simp add: takeWhile_append)
  finally show thesis
    using that [OF r] len prototype_loop_result [OF r] assms by simp
qed

definition tty_empty :: "psycho_ctx \<Rightarrow> bool" where
  "tty_empty ctx \<longleftrightarrow> tty_stdout (bios_trace ctx) = zero_tty"

text \<open>The line buffer holds the characters \<open>p\<close> and is zero behind them.\<close>

definition tty_holds :: "psycho_ctx \<Rightarrow> string \<Rightarrow> bool" where
  "tty_holds ctx p \<longleftrightarrow> length p < 256 \<and> tty_stdout (bios_trace ctx)
     = \<lparr>tty_data = p @ replicate (256 - length p) NUL, tty_len = length p\<rparr>"

lemma tty_holds_nil: "tty_holds ctx [] \<longleftrightarrow> tty_empty ctx"
  by (simp add: tty_holds_def tty_empty_def zero_tty_def PSYCHO_BIOS_TTY_OUTPUT_SIZE_MAX_def)

lemma array_write_behind:
  assumes "length p < 256"
  shows "array_write (p @ replicate (256 - length p) NUL) (length p) [c]
    = Some ((p @ [c]) @ replicate (256 - length (p @ [c])) NUL)"
  using assms by (simp add: array_write_def min_def)

definition with_tty :: "psycho_ctx \<Rightarrow> tty_buffer \<Rightarrow> psycho_ctx" where
  "with_tty ctx t = bios_trace_update (\<lambda>b. b\<lparr>tty_stdout := t\<rparr>) ctx"

definition tty_of :: "string \<Rightarrow> tty_buffer" where
  "tty_of p = \<lparr>tty_data = p @ replicate (256 - length p) NUL, tty_len = length p\<rparr>"

lemma tty_char_step:
  assumes "tty_holds ctx p" "length p + 1 < 256" "a0_char ctx \<noteq> newline"
  shows "handle_tty_output ctx = Some (with_tty ctx (tty_of (p @ [a0_char ctx])))"
  using assms array_write_behind [of p "a0_char ctx"]
  by (simp add: handle_tty_output_def tty_holds_def with_tty_def tty_of_def
      PSYCHO_BIOS_TTY_OUTPUT_SIZE_MAX_def)

lemma tty_newline_step:
  assumes "tty_holds ctx p" "length p + 1 < 256" "a0_char ctx = newline" "NUL \<notin> set p"
  shows "handle_tty_output ctx = Some (with_tty (event_cb (event_cb ctx
      (PSYCHO_EVENT_TTY_MESSAGE (tty_data (tty_of (p @ [newline])))))
      (log_event PSYCHO_LOG_MODULE_ID_TTY_STDOUT PSYCHO_LOG_LEVEL_INFO (p @ [newline]))) zero_tty)"
proof -
  let ?d = "(p @ [newline]) @ replicate (256 - length (p @ [newline])) NUL"
  have nl: "newline \<noteq> NUL" by (simp add: newline_def NUL_def)
  have rep: "replicate (256 - length (p @ [newline])) NUL
      = NUL # replicate (256 - length (p @ [newline]) - 1) NUL"
    using assms(2) by (cases "256 - length (p @ [newline])") auto
  have str: "c_string_of ?d = Some (p @ [newline])"
    unfolding c_string_of_def rep
    using c_str_append_NUL [of "p @ [newline]"] assms(4) nl by simp
  have log: "psycho_log_message_dispatch c PSYCHO_LOG_MODULE_ID_TTY_STDOUT
      PSYCHO_LOG_LEVEL_INFO (p @ [newline]) = Some (event_cb c
      (log_event PSYCHO_LOG_MODULE_ID_TTY_STDOUT PSYCHO_LOG_LEVEL_INFO (p @ [newline])))" for c
    using assms(2) by (simp add: log_dispatch_iff) (simp add: log_text_def)
  have wr: "array_write (tty_data (tty_stdout (bios_trace ctx))) (tty_len (tty_stdout (bios_trace ctx)))
      [newline] = Some ?d"
    using assms(1) array_write_behind [of p newline] by (simp add: tty_holds_def)
  show ?thesis
    unfolding handle_tty_output_def Let_def assms(3) wr bind.bind_lunit str
    by (simp add: str [simplified] log [simplified] with_tty_def tty_of_def event_cb_def)
qed

lemma dispatch_frame:
  assumes "psycho_log_message_dispatch ctx m l s = Some ctx'"
  shows "\<exists>ev. ctx' = event_cb ctx ev"
  using assms by (auto simp: psycho_log_message_dispatch_def Let_def split: if_splits
      elim!: bind_eq_SomeE)

text \<open>What every hook leaves alone.\<close>

definition trace_only :: "psycho_ctx \<Rightarrow> psycho_ctx \<Rightarrow> bool" where
  "trace_only s t \<longleftrightarrow> cpu t = cpu s \<and> bus t = bus s \<and> disasm t = disasm s \<and> log t = log s
     \<and> (trace_inv (bios_trace s) \<longrightarrow> trace_inv (bios_trace t))"

lemma trace_only_refl [simp]: "trace_only s s"
  by (simp add: trace_only_def)

lemma handle_tty_output_frame:
  assumes "handle_tty_output ctx = Some ctx'"
  shows "trace_only ctx ctx'"
proof -
  let ?t = "tty_stdout (bios_trace ctx)"
  obtain chars where wr: "array_write (tty_data ?t) (tty_len ?t) [a0_char ctx] = Some chars"
    using assms by (auto simp: handle_tty_output_def Let_def elim!: bind_eq_SomeE)
  then have len: "length chars = length (tty_data ?t)" by (rule array_write_length)
  show ?thesis
  proof (cases "a0_char ctx = newline")
    case True
    with assms wr obtain ctx1 where
      "psycho_log_message_dispatch (event_cb (bios_trace_update (\<lambda>b. b\<lparr>tty_stdout :=
         \<lparr>tty_data = chars, tty_len = tty_len ?t + 1\<rparr>\<rparr>) ctx) (PSYCHO_EVENT_TTY_MESSAGE chars))
         PSYCHO_LOG_MODULE_ID_TTY_STDOUT PSYCHO_LOG_LEVEL_INFO (c_str chars) = Some ctx1"
      and ctx': "ctx' = bios_trace_update (\<lambda>b. b\<lparr>tty_stdout := zero_tty\<rparr>) ctx1"
      by (auto simp: handle_tty_output_def Let_def c_string_of_def elim!: bind_eq_SomeE split: if_splits)
    then obtain ev where "ctx1 = event_cb (event_cb (bios_trace_update (\<lambda>b. b\<lparr>tty_stdout :=
         \<lparr>tty_data = chars, tty_len = tty_len ?t + 1\<rparr>\<rparr>) ctx) (PSYCHO_EVENT_TTY_MESSAGE chars)) ev"
      using dispatch_frame by blast
    then show ?thesis
      by (auto simp: ctx' trace_only_def trace_inv_def zero_tty_def
          PSYCHO_BIOS_TTY_OUTPUT_SIZE_MAX_def)
  next
    case False
    with assms wr len show ?thesis
      by (auto simp: handle_tty_output_def Let_def trace_only_def trace_inv_def
          PSYCHO_BIOS_TTY_OUTPUT_SIZE_MAX_def split: if_splits)
  qed
qed

lemma process_prototype_frame:
  assumes "curr_func (bios_trace ctx) = b0_funcs 0x3D" "length (trace_result (bios_trace ctx)) = 128"
  obtains res where
    "process_prototype ctx = Some (bios_trace_update (\<lambda>b. b\<lparr>trace_result := res\<rparr>) ctx)"
    "length res = 128" "NUL \<in> set res"
    "c_str res = c_str (''void std_out_putchar(char c='' @ process_arg_char (a0_char ctx) @ '')'')"
proof -
  obtain res where "prototype_loop (a0_char ctx) ''void std_out_putchar(char c=%c)''
      (trace_result (bios_trace ctx)) 0 = Some res" "length res = 128" "NUL \<in> set res"
    "c_str res = c_str (''void std_out_putchar(char c='' @ process_arg_char (a0_char ctx) @ '')'')"
    by (rule prototype_loop_putchar [OF assms(2)])
  with assms(1) show thesis
    by (intro that [of res]) (simp_all add: process_prototype_def b0_funcs_def)
qed

text \<open>A character call under trace: what remains once the line buffer has been handled.\<close>

definition traced_call :: "psycho_ctx \<Rightarrow> bool" where
  "traced_call ctx \<longleftrightarrow> pc (cpu ctx) = 0xB0 \<and> gpr (cpu ctx) ! gpr_index CPU_GPR_T1 = 0x3D"

lemma trace_begin_idle: "\<not> traced_call ctx \<Longrightarrow> psycho_bios_trace_begin ctx = Some ctx"
  by (auto simp: psycho_bios_trace_begin_def traced_call_def Let_def)

definition set_func :: "psycho_ctx \<Rightarrow> psycho_ctx" where
  "set_func ctx = bios_trace_update (\<lambda>b. b\<lparr>curr_func := b0_funcs 0x3D\<rparr>) ctx"

lemma trace_begin_call:
  assumes "traced_call ctx"
  shows "psycho_bios_trace_begin ctx = Option.bind
    (if enable_tty_output (bios_trace ctx) then handle_tty_output (set_func ctx)
     else Some (set_func ctx)) process_prototype"
  using assms by (simp add: psycho_bios_trace_begin_def traced_call_def set_func_def Let_def)

lemma handle_tty_output_func:
  assumes "handle_tty_output ctx = Some ctx'"
  shows "curr_func (bios_trace ctx') = curr_func (bios_trace ctx)"
    "length (trace_result (bios_trace ctx')) = length (trace_result (bios_trace ctx))"
    "waiting_for_return (bios_trace ctx') = waiting_for_return (bios_trace ctx)"
    "enable_tty_output (bios_trace ctx') = enable_tty_output (bios_trace ctx)"
  using assms
  by (auto simp: handle_tty_output_def Let_def c_string_of_def elim!: bind_eq_SomeE split: if_splits
      dest!: dispatch_frame)

lemma trace_begin_None_iff:
  assumes "trace_inv (bios_trace ctx)"
  shows "psycho_bios_trace_begin ctx = None \<longleftrightarrow>
    traced_call ctx \<and> enable_tty_output (bios_trace ctx) \<and> handle_tty_output (set_func ctx) = None"
proof (cases "traced_call ctx")
  case False
  then show ?thesis by (simp add: trace_begin_idle)
next
  case True
  have fin: "process_prototype c \<noteq> None"
    if "curr_func (bios_trace c) = b0_funcs 0x3D" "length (trace_result (bios_trace c)) = 128" for c
    using process_prototype_frame [OF that] by (metis option.distinct(1))
  have s: "curr_func (bios_trace (set_func ctx)) = b0_funcs 0x3D"
    "length (trace_result (bios_trace (set_func ctx))) = 128"
    using assms by (simp_all add: set_func_def trace_inv_def)
  show ?thesis
  proof (cases "enable_tty_output (bios_trace ctx)")
    case False
    with True fin [OF s] show ?thesis by (simp add: trace_begin_call)
  next
    case tty: True
    show ?thesis
    proof (cases "handle_tty_output (set_func ctx)")
      case None
      with True tty show ?thesis by (simp add: trace_begin_call)
    next
      case (Some c)
      with True tty fin [of c] s handle_tty_output_func [OF Some] show ?thesis
        by (simp add: trace_begin_call)
    qed
  qed
qed

lemma trace_begin_frame:
  assumes "psycho_bios_trace_begin ctx = Some ctx'" "trace_inv (bios_trace ctx)"
  shows "trace_only ctx ctx'"
proof (cases "traced_call ctx")
  case False
  with assms show ?thesis by (simp add: trace_begin_idle)
next
  case True
  then obtain c where
    c: "(if enable_tty_output (bios_trace ctx) then handle_tty_output (set_func ctx)
     else Some (set_func ctx)) = Some c" and p: "process_prototype c = Some ctx'"
    using assms(1) by (auto simp: trace_begin_call elim!: bind_eq_SomeE)
  have c_cpu: "cpu c = cpu ctx \<and> bus c = bus ctx \<and> disasm c = disasm ctx \<and> log c = log ctx"
    using c handle_tty_output_frame [of "set_func ctx" c]
    by (auto simp: set_func_def trace_only_def split: if_splits)
  have c_func: "curr_func (bios_trace c) = b0_funcs 0x3D"
    "length (trace_result (bios_trace c)) = 128"
    using c assms(2) handle_tty_output_func [of "set_func ctx" c]
    by (auto simp: set_func_def trace_inv_def split: if_splits)
  have c_tty: "length (tty_data (tty_stdout (bios_trace c))) = 256
      \<and> tty_len (tty_stdout (bios_trace c)) < 256"
  proof -
    show ?thesis
    proof (cases "enable_tty_output (bios_trace ctx)")
      case False
      with c assms(2) show ?thesis by (auto simp: set_func_def trace_inv_def)
    next
      case True
      with c have h: "handle_tty_output (set_func ctx) = Some c" by simp
      then show ?thesis using assms(2)
        by (auto simp: handle_tty_output_def Let_def c_string_of_def set_func_def trace_inv_def
            zero_tty_def PSYCHO_BIOS_TTY_OUTPUT_SIZE_MAX_def elim!: bind_eq_SomeE
            dest!: dispatch_frame array_write_length split: if_splits)
    qed
  qed
  obtain res where "process_prototype c = Some (bios_trace_update (\<lambda>b. b\<lparr>trace_result := res\<rparr>) c)"
    "length res = 128" "NUL \<in> set res"
    using process_prototype_frame [OF c_func] by metis
  with p c_cpu c_tty show ?thesis by (auto simp: trace_only_def trace_inv_def)
qed

lemma trace_end_frame:
  assumes "psycho_bios_trace_end ctx = Some ctx'"
  shows "trace_only ctx ctx'"
  using assms
  by (auto simp: psycho_bios_trace_end_def LOG_HANDLE_array_def trace_only_def trace_inv_def
      elim!: bind_eq_SomeE dest!: dispatch_frame split: if_splits)

lemma trace_end_total:
  assumes "trace_inv (bios_trace ctx)"
  shows "psycho_bios_trace_end ctx \<noteq> None"
proof (cases "curr_func (bios_trace ctx) \<noteq> None \<and> \<not> waiting_for_return (bios_trace ctx)")
  case False
  then show ?thesis by (auto simp: psycho_bios_trace_end_def)
next
  case True
  then have nul: "NUL \<in> set (trace_result (bios_trace ctx))" and
    len: "length (c_str (trace_result (bios_trace ctx))) \<le> 128"
    using assms length_c_str_le [of "trace_result (bios_trace ctx)"] by (auto simp: trace_inv_def)
  let ?s = "c_str (trace_result (bios_trace ctx))"
  have "psycho_log_message_dispatch ctx BIOS PSYCHO_LOG_LEVEL_INFO ?s \<noteq> None"
    using len by (simp add: log_dispatch_iff) (simp add: log_text_def)
  with True nul show ?thesis
    by (auto simp: psycho_bios_trace_end_def LOG_HANDLE_array_def c_string_of_def)
qed

text \<open>
  The one way the line buffer fails: a newline whose array holds no NUL, so that the text
  handed to the log has no end.
\<close>

definition tty_unterminated :: "psycho_ctx \<Rightarrow> bool" where
  "tty_unterminated ctx \<longleftrightarrow> (let t = tty_stdout (bios_trace ctx)
     in a0_char ctx = newline \<and> NUL \<notin> set ((tty_data t)[tty_len t := newline]))"

lemma tty_dispatch_short:
  "length s \<le> 256 \<Longrightarrow> psycho_log_message_dispatch c PSYCHO_LOG_MODULE_ID_TTY_STDOUT
     PSYCHO_LOG_LEVEL_INFO s = Some (event_cb c
       (log_event PSYCHO_LOG_MODULE_ID_TTY_STDOUT PSYCHO_LOG_LEVEL_INFO s))"
  by (simp add: log_dispatch_iff) (simp add: log_text_def)

lemma handle_tty_None_iff_sized:
  assumes "length (tty_data (tty_stdout (bios_trace ctx))) = 256"
    and "tty_len (tty_stdout (bios_trace ctx)) < 256"
  shows "handle_tty_output ctx = None \<longleftrightarrow> tty_unterminated ctx"
proof -
  let ?t = "tty_stdout (bios_trace ctx)"
  let ?d = "(tty_data ?t)[tty_len ?t := a0_char ctx]"
  have wr: "array_write (tty_data ?t) (tty_len ?t) [a0_char ctx] = Some ?d"
    and len: "length (c_str ?d) \<le> 256"
    using assms length_c_str_le [of ?d] by (simp_all add: array_write_one)
  show ?thesis
  proof (cases "a0_char ctx = newline")
    case True
    with wr len show ?thesis
      by (auto simp: handle_tty_output_def Let_def tty_unterminated_def c_string_of_def
          tty_dispatch_short)
  next
    case False
    with wr show ?thesis
      by (simp add: handle_tty_output_def Let_def tty_unterminated_def)
  qed
qed

section \<open>Lines\<close>

text \<open>
  A program that prints: each character is put in \<^verbatim>\<open>$a0\<close> and the line buffer is handed it.
\<close>

definition with_a0 :: "psycho_ctx \<Rightarrow> u32 \<Rightarrow> psycho_ctx" where
  "with_a0 ctx w = cpu_update (\<lambda>c. c\<lparr>gpr := (gpr c)[gpr_index CPU_GPR_A0 := w]\<rparr>) ctx"

fun tty_feed :: "psycho_ctx \<Rightarrow> u32 list \<Rightarrow> psycho_ctx option" where
  "tty_feed ctx [] = Some ctx"
| "tty_feed ctx (w # ws) = do {
     ctx \<leftarrow> handle_tty_output (with_a0 ctx w);
     tty_feed ctx ws }"

definition regs_wide :: "psycho_ctx \<Rightarrow> bool" where
  "regs_wide ctx \<longleftrightarrow> length (gpr (cpu ctx)) = CPU_GPR_NUM"

lemma a0_char_with_a0 [simp]: "regs_wide ctx \<Longrightarrow> a0_char (with_a0 ctx w) = to_char w"
  by (simp add: a0_char_def with_a0_def regs_wide_def CPU_GPR_NUM_def)

lemma with_a0_frame [simp]:
  "tty_holds (with_a0 ctx w) p = tty_holds ctx p" "regs_wide (with_a0 ctx w) = regs_wide ctx"
  "event_trace (with_a0 ctx w) = event_trace ctx" "bios_trace (with_a0 ctx w) = bios_trace ctx"
  by (simp_all add: tty_holds_def with_a0_def regs_wide_def)

lemma with_tty_frame [simp]:
  "regs_wide (with_tty ctx t) = regs_wide ctx" "event_trace (with_tty ctx t) = event_trace ctx"
  "tty_stdout (bios_trace (with_tty ctx t)) = t"
  by (simp_all add: with_tty_def regs_wide_def)

lemma tty_holds_with_tty [simp]: "length p < 256 \<Longrightarrow> tty_holds (with_tty ctx (tty_of p)) p"
  by (simp add: tty_holds_def tty_of_def)

lemma tty_feed_append: "tty_feed ctx (us @ vs) = Option.bind (tty_feed ctx us) (\<lambda>c. tty_feed c vs)"
  by (induction us arbitrary: ctx) (simp_all split: Option.bind_split)

lemma tty_feed_line:
  assumes "tty_holds ctx p" "regs_wide ctx" "newline \<notin> to_char ` set ws"
    "length p + length ws < 256"
  shows "\<exists>ctx'. tty_feed ctx ws = Some ctx' \<and> tty_holds ctx' (p @ map to_char ws)
    \<and> regs_wide ctx' \<and> event_trace ctx' = event_trace ctx"
  using assms
proof (induction ws arbitrary: ctx p)
  case Nil
  then show ?case by simp
next
  case (Cons w ws)
  let ?c = "with_tty (with_a0 ctx w) (tty_of (p @ [to_char w]))"
  have "handle_tty_output (with_a0 ctx w) = Some ?c"
    using Cons.prems tty_char_step [of "with_a0 ctx w" p] by auto
  moreover have "\<exists>ctx'. tty_feed ?c ws = Some ctx'
      \<and> tty_holds ctx' ((p @ [to_char w]) @ map to_char ws)
      \<and> regs_wide ctx' \<and> event_trace ctx' = event_trace ?c"
    using Cons.prems by (intro Cons.IH) auto
  ultimately show ?case by simp
qed

text \<open>A character that fills the last place: the index is reset, the array has no NUL left.\<close>

lemma tty_full_step:
  assumes "tty_holds ctx p" "length p = 255" "a0_char ctx \<noteq> newline"
  shows "\<exists>ctx'. handle_tty_output ctx = Some ctx'
    \<and> tty_stdout (bios_trace ctx') = \<lparr>tty_data = p @ [a0_char ctx], tty_len = 0\<rparr>"
  using assms array_write_behind [of p "a0_char ctx"]
  by (simp add: handle_tty_output_def tty_holds_def Let_def PSYCHO_BIOS_TTY_OUTPUT_SIZE_MAX_def)

lemma tty_newline_full:
  assumes "tty_holds ctx p" "length p = 255" "NUL \<notin> set p" "a0_char ctx = newline"
  shows "handle_tty_output ctx = None"
proof -
  have nl: "newline \<noteq> NUL" by (simp add: newline_def NUL_def)
  have "array_write (tty_data (tty_stdout (bios_trace ctx))) (tty_len (tty_stdout (bios_trace ctx)))
      [newline] = Some (p @ [newline])"
    using assms array_write_behind [of p newline] by (simp add: tty_holds_def)
  moreover have "c_string_of (p @ [newline]) = None"
    using assms nl by (simp add: c_string_of_def)
  ultimately show ?thesis using assms(4) by (simp add: handle_tty_output_def Let_def)
qed

end
