(* ===== verification/Psycho_Ctx.thy ===== *)
theory Psycho_Ctx
  imports Psycho_Bios_Trace Disasm_Facts
begin

text \<open>
  \<^verbatim>\<open>core/ctx.c\<close>: the step with its tracing hooks and the loading of an executable. The second
  part shows that tracing and logging never influence the machine, the third states the
  invariant of a whole context and follows it through every function of the library's
  interface.
\<close>

section \<open>Operations\<close>

definition EXE_OFF_INITIAL_PC :: nat where "EXE_OFF_INITIAL_PC = 0x010"
definition EXE_OFF_INITIAL_GP :: nat where "EXE_OFF_INITIAL_GP = 0x014"
definition EXE_OFF_DEST_ADDR :: nat where "EXE_OFF_DEST_ADDR = 0x018"
definition EXE_OFF_FILE_SIZE :: nat where "EXE_OFF_FILE_SIZE = 0x01C"
definition EXE_OFF_INITIAL_SP_FP_BASE :: nat where "EXE_OFF_INITIAL_SP_FP_BASE = 0x030"
definition EXE_OFF_INITIAL_SP_FP_OFF :: nat where "EXE_OFF_INITIAL_SP_FP_OFF = 0x034"
definition EXE_OFF_CODE :: nat where "EXE_OFF_CODE = 0x800"

lemmas exe_offsets = EXE_OFF_INITIAL_PC_def EXE_OFF_INITIAL_GP_def EXE_OFF_DEST_ADDR_def
  EXE_OFF_FILE_SIZE_def EXE_OFF_INITIAL_SP_FP_BASE_def EXE_OFF_INITIAL_SP_FP_OFF_def
  EXE_OFF_CODE_def

definition psycho_step :: "psycho_ctx \<Rightarrow> psycho_ctx option" where
  "psycho_step ctx = do {
     ctx \<leftarrow> (if trace_instruction (disasm ctx) then psycho_disasm_trace_begin ctx else Some ctx);
     ctx \<leftarrow> psycho_bios_trace_begin ctx;
     ctx \<leftarrow> psycho_cpu_step ctx;
     ctx \<leftarrow> (if trace_instruction (disasm ctx) then psycho_disasm_trace_end ctx else Some ctx);
     psycho_bios_trace_end ctx
   }"

definition extract_u32 :: "buffer \<Rightarrow> nat \<Rightarrow> u32 option" where
  "extract_u32 exe_data addr = map_option le_word (memcpy_from exe_data addr 4)"

text \<open>The eight characters \<^verbatim>\<open>PS-X EXE\<close> as bytes.\<close>

definition exe_id :: "u8 list" where
  "exe_id = map (\<lambda>c. of_char c) ''PS-X EXE''"

definition set_reg :: "psycho_ctx \<Rightarrow> psycho_cpu_gpr \<Rightarrow> u32 \<Rightarrow> psycho_ctx" where
  "set_reg ctx r x = cpu_update (\<lambda>c. c\<lparr>gpr := (gpr c)[gpr_index r := x]\<rparr>) ctx"

abbreviation get_reg :: "psycho_ctx \<Rightarrow> psycho_cpu_gpr \<Rightarrow> u32" where
  "get_reg ctx r \<equiv> gpr (cpu ctx) ! gpr_index r"

definition psycho_exe_load ::
  "psycho_ctx \<Rightarrow> buffer \<Rightarrow> nat \<Rightarrow> (psycho_return_code \<times> psycho_ctx) option" where
  "psycho_exe_load ctx exe_data exe_size =
     (if exe_size < EXE_MIN_SIZE then Some (PSYCHO_EXE_SIZE_BAD, ctx)
      else do {
        idb \<leftarrow> memcpy_from exe_data 0 8;
        if idb \<noteq> exe_id then Some (PSYCHO_EXE_ID_BAD, ctx)
        else do {
          w \<leftarrow> extract_u32 exe_data EXE_OFF_INITIAL_PC;
          let ctx = cpu_update (\<lambda>c. c\<lparr>pc := w\<rparr>) ctx;
          let ctx = cpu_update (\<lambda>c. c\<lparr>next_pc := pc c + 4\<rparr>) ctx;
          w \<leftarrow> extract_u32 exe_data EXE_OFF_INITIAL_GP;
          let ctx = set_reg ctx CPU_GPR_GP w;
          dst_addr \<leftarrow> extract_u32 exe_data EXE_OFF_DEST_ADDR;
          let dst_addr = vaddr_to_paddr dst_addr;
          file_size \<leftarrow> extract_u32 exe_data EXE_OFF_FILE_SIZE;
          code \<leftarrow> memcpy_from exe_data EXE_OFF_CODE (unat file_size);
          r \<leftarrow> memcpy_to (ram (bus ctx)) (unat dst_addr) code;
          let ctx = bus_update (ram_update (\<lambda>_. r)) ctx;
          w \<leftarrow> extract_u32 exe_data EXE_OFF_INITIAL_SP_FP_BASE;
          let ctx = set_reg ctx CPU_GPR_FP w;
          let ctx = (if get_reg ctx CPU_GPR_FP \<noteq> 0
                     then set_reg ctx CPU_GPR_SP (get_reg ctx CPU_GPR_FP) else ctx);
          sp_fp_off \<leftarrow> extract_u32 exe_data EXE_OFF_INITIAL_SP_FP_OFF;
          let ctx = set_reg ctx CPU_GPR_SP (get_reg ctx CPU_GPR_SP + sp_fp_off);
          let ctx = set_reg ctx CPU_GPR_FP (get_reg ctx CPU_GPR_FP + sp_fp_off);
          ctx \<leftarrow> LOG_INFO PSYCHO_LOG_MODULE_ID_CTX ctx ''EXE loaded'';
          Some (PSYCHO_OK, ctx) } })"

section \<open>Tracing and logging do not influence the machine\<close>

definition same_machine :: "psycho_ctx \<Rightarrow> psycho_ctx \<Rightarrow> bool" where
  "same_machine a b \<longleftrightarrow> cpu a = cpu b \<and> bus a = bus b"

lemma same_machine_refl [simp]: "same_machine a a"
  by (simp add: same_machine_def)

lemma same_machine_log [simp]:
  "same_machine (log_emit m l a s) b = same_machine a b"
  "same_machine b (log_emit m l a s) = same_machine b a"
  "same_machine (event_cb a ev) b = same_machine a b"
  "same_machine b (event_cb a ev) = same_machine b a"
  "same_machine (warn_if c a s) b = same_machine a b"
  "same_machine b (warn_if c a s) = same_machine b a"
  by (simp_all add: same_machine_def)

lemma same_machine_cpu_update:
  "same_machine a b \<Longrightarrow> same_machine (cpu_update f a) (cpu_update f b)"
  by (simp add: same_machine_def)

lemma same_machine_bp_check:
  "same_machine a b \<Longrightarrow> same_machine (bp_check a v) (bp_check b v)"
  by (simp add: same_machine_def bp_check_def)

context bus_reader begin

lemma load_same:
  assumes "same_machine a b"
  shows "rel_option (rel_prod (=) same_machine) (load a p) (load b p)"
proof (cases "covers p")
  case True
  with assms show ?thesis
    by (cases "bus_rd (bus b) p width") (simp_all add: load_mapped same_machine_def)
next
  case False
  then obtain s t where "load a p = Some (default, log_emit BUS PSYCHO_LOG_LEVEL_WARN a s)"
    "load b p = Some (default, log_emit BUS PSYCHO_LOG_LEVEL_WARN b t)"
    using load_unmapped by metis
  with assms show ?thesis by simp
qed

end

context bus_writer begin

lemma store_same:
  assumes "same_machine a b"
  shows "rel_option same_machine (store a p x) (store b p x)"
proof (cases "writable p")
  case True
  with assms show ?thesis
    by (cases "bus_wr (bus b) p (bytes_of x)") (simp_all add: store_writable same_machine_def)
next
  case False
  then obtain s t where "store a p x = Some (log_emit BUS PSYCHO_LOG_LEVEL_WARN a s)"
    "store b p x = Some (log_emit BUS PSYCHO_LOG_LEVEL_WARN b t)"
    using store_other by metis
  with assms show ?thesis by simp
qed

end

lemma rel_option_bind:
  assumes "rel_option R x y" "\<And>u v. R u v \<Longrightarrow> rel_option S (f u) (g v)"
  shows "rel_option S (Option.bind x f) (Option.bind y g)"
  using assms by (cases x; cases y) auto

lemma special_op_same:
  assumes "same_machine a b"
  shows "rel_option same_machine (special_op f a) (special_op f b)"
  using assms
  by (cases f) (auto simp: op_defs helper_eqs Let_def same_machine_def split: prod.split)

lemma imm_op_same:
  assumes "same_machine a b"
  shows "rel_option same_machine (op_BCOND a) (op_BCOND b)"
    "rel_option same_machine (op_MFC0 a) (op_MFC0 b)"
    "rel_option same_machine (op_MTC0 a) (op_MTC0 b)"
    "rel_option same_machine (op_RFE a) (op_RFE b)"
    "rel_option same_machine (op_J a) (op_J b)" "rel_option same_machine (op_JAL a) (op_JAL b)"
    "rel_option same_machine (op_BEQ a) (op_BEQ b)"
    "rel_option same_machine (op_BNE a) (op_BNE b)"
    "rel_option same_machine (op_BLEZ a) (op_BLEZ b)"
    "rel_option same_machine (op_BGTZ a) (op_BGTZ b)"
    "rel_option same_machine (op_ADDI a) (op_ADDI b)"
    "rel_option same_machine (op_ADDIU a) (op_ADDIU b)"
    "rel_option same_machine (op_SLTI a) (op_SLTI b)"
    "rel_option same_machine (op_SLTIU a) (op_SLTIU b)"
    "rel_option same_machine (op_ANDI a) (op_ANDI b)"
    "rel_option same_machine (op_ORI a) (op_ORI b)"
    "rel_option same_machine (op_XORI a) (op_XORI b)"
    "rel_option same_machine (op_LUI a) (op_LUI b)"
  using assms
  by (auto simp: imm_op_defs helper_eqs Let_def same_machine_def split: prod.split)

lemma gpr_set_delayed_same:
  "same_machine a b \<Longrightarrow> rel_option same_machine (gpr_set_delayed a r x) (gpr_set_delayed b r x)"
  by (simp add: gpr_set_delayed_eq same_machine_def)

lemma raise_exception_same:
  "same_machine a b \<Longrightarrow> rel_option same_machine (raise_exception a e) (raise_exception b e)"
  by (simp add: raise_exception_eq same_machine_def)

lemma illegal_same:
  "same_machine a b \<Longrightarrow> rel_option same_machine (illegal a) (illegal b)"
  by (simp add: illegal_eq same_machine_def)

lemmas load_same_rules = byte_port.load_same half_port.load_same word_port.load_same
lemmas store_same_rules = byte_port.store_same half_port.store_same word_port.store_same

text \<open>A memory access on equal machines, with the address both compute.\<close>

lemma phys_addr_same:
  assumes "same_machine a b"
    and "\<And>p a' b'. same_machine a' b' \<Longrightarrow> rel_option S (f (p, a')) (g (p, b'))"
  shows "rel_option S (Option.bind (get_phys_addr a) f) (Option.bind (get_phys_addr b) g)"
proof -
  have "data_paddr (cpu a) = data_paddr (cpu b)" "data_vaddr (cpu a) = data_vaddr (cpu b)"
    using assms(1) by (simp_all add: same_machine_def)
  then show ?thesis
    using assms(2) same_machine_bp_check [OF assms(1)] by (simp add: bind_phys_addr)
qed

lemma load_bind_same:
  assumes "rel_option (rel_prod (=) same_machine) x y"
    and "\<And>v a b. same_machine a b \<Longrightarrow> rel_option S (f (v, a)) (g (v, b))"
  shows "rel_option S (Option.bind x f) (Option.bind y g)"
  using assms by (cases x; cases y) auto

lemma same_machine_cpu: "same_machine a b \<Longrightarrow> cpu a = cpu b"
  by (simp add: same_machine_def)

lemma mem_op_same:
  assumes "same_machine a b"
  shows "rel_option same_machine (op_LB a) (op_LB b)" "rel_option same_machine (op_LH a) (op_LH b)"
    "rel_option same_machine (op_LWL a) (op_LWL b)" "rel_option same_machine (op_LW a) (op_LW b)"
    "rel_option same_machine (op_LBU a) (op_LBU b)" "rel_option same_machine (op_LHU a) (op_LHU b)"
    "rel_option same_machine (op_LWR a) (op_LWR b)" "rel_option same_machine (op_SB a) (op_SB b)"
    "rel_option same_machine (op_SH a) (op_SH b)" "rel_option same_machine (op_SWL a) (op_SWL b)"
    "rel_option same_machine (op_SW a) (op_SW b)" "rel_option same_machine (op_SWR a) (op_SWR b)"
  unfolding mem_op_defs Let_def same_machine_cpu [OF assms]
  by (auto simp: assms intro!: phys_addr_same [OF assms] load_bind_same load_same_rules store_same_rules
      gpr_set_delayed_same raise_exception_same
      simp: same_machine_cpu)

lemma break_after_same:
  "rel_option same_machine x y \<Longrightarrow>
    rel_option (rel_prod (=) same_machine) (break_after x) (break_after y)"
  and return_after_same:
  "rel_option same_machine x y \<Longrightarrow>
    rel_option (rel_prod (=) same_machine) (return_after x) (return_after y)"
  by (cases x; cases y; simp add: break_after_def return_after_def)+

lemma exec_special_same:
  assumes "same_machine a b"
  shows "rel_option (rel_prod (=) same_machine) (exec_special a) (exec_special b)"
  unfolding exec_special_def same_machine_cpu [OF assms]
  by (cases "enum_of special_value all_specials (instr_funct (instr (cpu b)))")
    (simp_all add: break_after_same return_after_same special_op_same illegal_same assms)

lemma exec_cop0_same:
  assumes "same_machine a b"
  shows "rel_option (rel_prod (=) same_machine) (exec_cop0 a) (exec_cop0 b)"
  unfolding exec_cop0_def same_machine_cpu [OF assms]
  by (auto intro!: break_after_same return_after_same imm_op_same illegal_same assms
      split: option.split instr_group_cop.split instr_group_cop0.split)

lemma group_op_same:
  assumes "same_machine a b"
  shows "rel_option (rel_prod (=) same_machine) (group_op g a) (group_op g b)"
  by (cases g) (simp_all add: break_after_same exec_special_same exec_cop0_same imm_op_same
      mem_op_same assms)

lemma cpu_execute_same:
  assumes "same_machine a b"
  shows "rel_option (rel_prod (=) same_machine) (cpu_execute a) (cpu_execute b)"
  unfolding cpu_execute_def same_machine_cpu [OF assms]
  by (cases "enum_of op_value all_ops (instr_op (instr (cpu b)))")
    (simp_all add: return_after_same illegal_same group_op_same assms)

lemma pre_fetch_same:
  "same_machine a b \<Longrightarrow> same_machine (pre_fetch a) (pre_fetch b)"
  by (auto simp: same_machine_def pre_fetch_def Let_def)

lemma cpu_fetch_same:
  assumes "same_machine a b" "cpu_shape (cpu b)"
  shows "rel_option same_machine (cpu_fetch a) (cpu_fetch b)"
proof -
  have sh: "cpu_shape (cpu a)" using assms by (simp add: same_machine_def)
  have "rel_option (rel_prod (=) same_machine)
      (psycho_bus_load_word (pre_fetch a) (vaddr_to_paddr (fetch_pc (cpu b))))
      (psycho_bus_load_word (pre_fetch b) (vaddr_to_paddr (fetch_pc (cpu b))))"
    by (intro word_port.load_same pre_fetch_same assms)
  then show ?thesis
    unfolding cpu_fetch_eq [OF assms(2)] cpu_fetch_eq [OF sh] same_machine_cpu [OF assms(1)]
    by (auto simp: option.rel_map elim!: option.rel_mono_strong same_machine_cpu_update)
qed

lemma cpu_step_same:
  assumes "same_machine a b" "cpu_shape (cpu b)"
  shows "rel_option same_machine (psycho_cpu_step a) (psycho_cpu_step b)"
  unfolding psycho_cpu_step_def
proof (rule rel_option_bind [OF cpu_fetch_same [OF assms]], rule load_bind_same [OF cpu_execute_same])
  fix fl a b
  assume "same_machine a b"
  then show "rel_option same_machine
      (case (fl, a) of (fl, ctx) \<Rightarrow> (case fl of Return \<Rightarrow> Some ctx
        | Break \<Rightarrow> Some (cpu_update (\<lambda>c. c\<lparr>gpr := (gpr c)[0 := 0x00000000]\<rparr>) ctx)))
      (case (fl, b) of (fl, ctx) \<Rightarrow> (case fl of Return \<Rightarrow> Some ctx
        | Break \<Rightarrow> Some (cpu_update (\<lambda>c. c\<lparr>gpr := (gpr c)[0 := 0x00000000]\<rparr>) ctx)))"
    by (cases fl) (simp_all add: same_machine_cpu_update)
qed

section \<open>The invariant of a context\<close>

definition ctx_inv :: "psycho_ctx \<Rightarrow> bool" where
  "ctx_inv ctx \<longleftrightarrow> cpu_inv ctx \<and> trace_inv (bios_trace ctx)
     \<and> length (modules (log ctx)) = PSYCHO_LOG_MODULE_ID_NUM
     \<and> length (res_str (result (disasm ctx))) < PSYCHO_DISASM_LEN_MAX"

section \<open>The hooks of the disassembler\<close>

text \<open>
  The hook reads the word at the program counter, aligned or not, and cannot print a move to
  or from a coprocessor register without a name.
\<close>

definition disasm_faults :: "psycho_ctx \<Rightarrow> bool" where
  "disasm_faults ctx \<longleftrightarrow>
     (case psycho_bus_load_word ctx (vaddr_to_paddr (pc (cpu ctx))) of
        None \<Rightarrow> True | Some (w, _) \<Rightarrow> unnamed_cop0 w)"

lemma disasm_begin_cases:
  "psycho_disasm_trace_begin ctx = None \<longleftrightarrow> disasm_faults ctx"
  "psycho_disasm_trace_begin ctx = Some c \<Longrightarrow> same_machine c ctx \<and> log c = log ctx
     \<and> bios_trace c = bios_trace ctx \<and> length (res_str (result (disasm c))) \<le> 40
     \<and> trace_instruction (disasm c) = trace_instruction (disasm ctx)
     \<and> res_pc (result (disasm c)) = pc (cpu ctx)"
proof -
  define c0 where "c0 = disasm_update (\<lambda>d. d\<lparr>result := (result d)\<lparr>res_pc := pc (cpu ctx)\<rparr>\<rparr>)
    (disasm_update (\<lambda>d. d\<lparr>result := \<lparr>res_str = [], res_pc = 0, res_len = 0\<rparr>\<rparr>) ctx)"
  let ?p = "vaddr_to_paddr (pc (cpu ctx))"
  have c0: "same_machine c0 ctx" "log c0 = log ctx" "bios_trace c0 = bios_trace ctx"
    "trace_instruction (disasm c0) = trace_instruction (disasm ctx)"
    "res_pc (result (disasm c0)) = pc (cpu ctx)"
    by (simp_all add: c0_def same_machine_def)
  have pc0: "pc (cpu c0) = pc (cpu ctx)" using c0(1) by (simp add: same_machine_def)
  have eq: "psycho_disasm_trace_begin ctx = Option.bind (psycho_bus_load_word c0 ?p)
      (\<lambda>(i, c). psycho_disasm_instr c i (pc (cpu c)))"
    by (simp add: psycho_disasm_trace_begin_def c0_def psycho_bus_peek_word_def Let_def)
  have rel: "rel_option (rel_prod (=) same_machine) (psycho_bus_load_word c0 ?p)
      (psycho_bus_load_word ctx ?p)"
    by (rule word_port.load_same [OF c0(1)])
  show "psycho_disasm_trace_begin ctx = None \<longleftrightarrow> disasm_faults ctx"
  proof (cases "psycho_bus_load_word ctx ?p")
    case None
    with rel show ?thesis by (auto simp: eq disasm_faults_def)
  next
    case (Some r)
    then obtain w d d0 where "psycho_bus_load_word ctx ?p = Some (w, d)"
      "psycho_bus_load_word c0 ?p = Some (w, d0)"
      using rel by (cases r; cases "psycho_bus_load_word c0 ?p") auto
    then show ?thesis by (simp add: eq disasm_faults_def psycho_disasm_instr_eq)
  qed
  assume "psycho_disasm_trace_begin ctx = Some c"
  then obtain w d where ld: "psycho_bus_load_word c0 ?p = Some (w, d)"
    and nu: "\<not> unnamed_cop0 w" and c: "c = show_text (shown_text w (pc (cpu d))) d"
    by (auto simp: eq psycho_disasm_instr_eq elim!: bind_eq_SomeE split: if_splits)
  have "same_machine d c0" using word_port.load_frame(1,2) [OF ld] by (simp add: same_machine_def)
  with c0 show "same_machine c ctx \<and> log c = log ctx
     \<and> bios_trace c = bios_trace ctx \<and> length (res_str (result (disasm c))) \<le> 40
     \<and> trace_instruction (disasm c) = trace_instruction (disasm ctx)
     \<and> res_pc (result (disasm c)) = pc (cpu ctx)"
    using word_port.load_frame(3-5) [OF ld] shown_text_length [OF nu]
    by (simp add: c show_text_def same_machine_def)
qed

lemma disasm_begin_text:
  assumes "psycho_disasm_trace_begin ctx = Some c"
    and "psycho_bus_load_word ctx (vaddr_to_paddr (pc (cpu ctx))) = Some (w, e)"
  shows "res_str (result (disasm c)) = shown_text w (pc (cpu ctx))"
proof -
  define c0 where "c0 = disasm_update (\<lambda>d. d\<lparr>result := (result d)\<lparr>res_pc := pc (cpu ctx)\<rparr>\<rparr>)
    (disasm_update (\<lambda>d. d\<lparr>result := \<lparr>res_str = [], res_pc = 0, res_len = 0\<rparr>\<rparr>) ctx)"
  let ?p = "vaddr_to_paddr (pc (cpu ctx))"
  have "rel_option (rel_prod (=) same_machine) (psycho_bus_load_word c0 ?p) (psycho_bus_load_word ctx ?p)"
    by (rule word_port.load_same) (simp add: c0_def same_machine_def)
  then obtain d where d: "psycho_bus_load_word c0 ?p = Some (w, d)"
    using assms(2) by (cases "psycho_bus_load_word c0 ?p") auto
  have "psycho_disasm_trace_begin ctx = psycho_disasm_instr d w (pc (cpu d))"
    using d by (simp add: psycho_disasm_trace_begin_def c0_def psycho_bus_peek_word_def Let_def)
  moreover have "pc (cpu d) = pc (cpu ctx)"
    using word_port.load_frame(1) [OF d] by (simp add: c0_def)
  ultimately show ?thesis
    using assms(1) by (auto simp: psycho_disasm_instr_eq show_text_def split: if_splits)
qed

lemma disasm_end_eq:
  assumes "length (res_str (result (disasm ctx))) < PSYCHO_DISASM_LEN_MAX"
  shows "psycho_disasm_trace_end ctx = Some (log_emit DISASM PSYCHO_LOG_LEVEL_INFO ctx
    (''0x'' @ fmt_0X 8 (unat (res_pc (result (disasm ctx)))) @ '': ''
      @ c_str (res_str (result (disasm ctx)))))"
  using assms length_c_str_le [of "res_str (result (disasm ctx))"]
  by (simp add: psycho_disasm_trace_end_def PSYCHO_DISASM_LEN_MAX_def)

section \<open>The step\<close>

definition disasm_pre :: "psycho_ctx \<Rightarrow> psycho_ctx option" where
  "disasm_pre ctx =
     (if trace_instruction (disasm ctx) then psycho_disasm_trace_begin ctx else Some ctx)"

definition disasm_post :: "psycho_ctx \<Rightarrow> psycho_ctx option" where
  "disasm_post ctx =
     (if trace_instruction (disasm ctx) then psycho_disasm_trace_end ctx else Some ctx)"

lemma psycho_step_fold: "psycho_step ctx = do {
    ctx \<leftarrow> disasm_pre ctx; ctx \<leftarrow> psycho_bios_trace_begin ctx; ctx \<leftarrow> psycho_cpu_step ctx;
    ctx \<leftarrow> disasm_post ctx; psycho_bios_trace_end ctx }"
  unfolding psycho_step_def disasm_pre_def disasm_post_def by (rule refl)

definition trace_faults :: "psycho_ctx \<Rightarrow> bool" where
  "trace_faults ctx \<longleftrightarrow> trace_instruction (disasm ctx) \<and> disasm_faults ctx"

definition tty_faults :: "psycho_ctx \<Rightarrow> bool" where
  "tty_faults ctx \<longleftrightarrow> traced_call ctx \<and> enable_tty_output (bios_trace ctx) \<and> tty_unterminated ctx"

lemma disasm_pre_facts:
  assumes "ctx_inv ctx"
  shows "disasm_pre ctx = None \<longleftrightarrow> trace_faults ctx"
    and "disasm_pre ctx = Some c \<Longrightarrow> ctx_inv c \<and> same_machine c ctx
      \<and> bios_trace c = bios_trace ctx \<and> log c = log ctx"
proof -
  show "disasm_pre ctx = None \<longleftrightarrow> trace_faults ctx"
    by (simp add: disasm_pre_def trace_faults_def disasm_begin_cases(1))
  assume c: "disasm_pre ctx = Some c"
  show "ctx_inv c \<and> same_machine c ctx \<and> bios_trace c = bios_trace ctx \<and> log c = log ctx"
  proof (cases "trace_instruction (disasm ctx)")
    case True
    with c have "psycho_disasm_trace_begin ctx = Some c" by (simp add: disasm_pre_def)
    from disasm_begin_cases(2) [OF this] assms show ?thesis
      by (auto simp: ctx_inv_def cpu_inv_def same_machine_def PSYCHO_DISASM_LEN_MAX_def)
  next
    case False
    with c assms show ?thesis by (simp add: disasm_pre_def)
  qed
qed

lemma trace_only_inv:
  assumes "trace_only a b" "ctx_inv a"
  shows "ctx_inv b" "same_machine b a"
  using assms by (simp_all add: trace_only_def ctx_inv_def cpu_inv_def same_machine_def)

lemma bios_pre_facts:
  assumes "ctx_inv ctx"
  shows "psycho_bios_trace_begin ctx = None \<longleftrightarrow> tty_faults ctx"
    and "psycho_bios_trace_begin ctx = Some c \<Longrightarrow> ctx_inv c \<and> same_machine c ctx"
proof -
  have inv: "trace_inv (bios_trace ctx)" using assms by (simp add: ctx_inv_def)
  show "psycho_bios_trace_begin ctx = None \<longleftrightarrow> tty_faults ctx"
  proof -
    have ti: "handle_tty_output (set_func ctx) = None \<longleftrightarrow> tty_unterminated ctx"
      if "traced_call ctx"
    proof -
      have "tty_unterminated (set_func ctx) = tty_unterminated ctx"
        by (simp add: tty_unterminated_def set_func_def a0_char_def)
      moreover have "handle_tty_output (set_func ctx) = None \<longleftrightarrow> tty_unterminated (set_func ctx)"
        using inv by (intro handle_tty_None_iff_sized) (simp_all add: set_func_def trace_inv_def)
      ultimately show ?thesis by simp
    qed
    show ?thesis
      unfolding trace_begin_None_iff [OF inv] tty_faults_def using ti by blast
  qed
  assume "psycho_bios_trace_begin ctx = Some c"
  then show "ctx_inv c \<and> same_machine c ctx"
    using trace_only_inv [OF trace_begin_frame assms] inv by blast
qed

lemma cpu_step_inv:
  assumes "ctx_inv ctx" "psycho_cpu_step ctx = Some c"
  shows "ctx_inv c"
proof -
  have inv: "cpu_inv ctx" using assms(1) by (simp add: ctx_inv_def)
  have "keeps ctx c" by (rule step_keeps [OF inv assms(2)])
  moreover have "cpu_inv c" by (rule cpu_machine.step_inv [OF inv assms(2)])
  ultimately show ?thesis using assms(1) by (simp add: ctx_inv_def keeps_def)
qed

lemma disasm_post_facts:
  assumes "ctx_inv ctx"
  obtains c where "disasm_post ctx = Some c" "ctx_inv c" "same_machine c ctx"
proof (cases "trace_instruction (disasm ctx)")
  case True
  then have "disasm_post ctx = psycho_disasm_trace_end ctx" by (simp add: disasm_post_def)
  also have "\<dots> = Some (log_emit DISASM PSYCHO_LOG_LEVEL_INFO ctx
      (''0x'' @ fmt_0X 8 (unat (res_pc (result (disasm ctx)))) @ '': ''
        @ c_str (res_str (result (disasm ctx)))))"
    using assms by (intro disasm_end_eq) (simp add: ctx_inv_def)
  finally show thesis by (rule that) (use assms in \<open>simp_all add: ctx_inv_def cpu_inv_def\<close>)
next
  case False
  with assms show thesis by (intro that [of ctx]) (simp_all add: disasm_post_def)
qed

lemma bios_post_facts:
  assumes "ctx_inv ctx"
  obtains c where "psycho_bios_trace_end ctx = Some c" "ctx_inv c" "same_machine c ctx"
proof -
  obtain c where c: "psycho_bios_trace_end ctx = Some c"
    using trace_end_total [of ctx] assms by (auto simp: ctx_inv_def)
  show thesis using that [OF c] trace_only_inv [OF trace_end_frame [OF c] assms] by blast
qed

text \<open>After the CPU's step nothing fails and the machine stays as it is.\<close>

lemma post_facts:
  assumes "ctx_inv ctx"
  obtains c where "Option.bind (disasm_post ctx) psycho_bios_trace_end = Some c"
    "ctx_inv c" "same_machine c ctx"
proof -
  obtain d where d: "disasm_post ctx = Some d" "ctx_inv d" "same_machine d ctx"
    by (rule disasm_post_facts [OF assms])
  obtain c where c: "psycho_bios_trace_end d = Some c" "ctx_inv c" "same_machine c d"
    by (rule bios_post_facts [OF d(2)])
  from d c show thesis by (intro that [of c]) (simp_all add: same_machine_def)
qed

text \<open>The hooks before the CPU's step.\<close>

definition pre_hooks :: "psycho_ctx \<Rightarrow> psycho_ctx option" where
  "pre_hooks ctx = Option.bind (disasm_pre ctx) psycho_bios_trace_begin"

lemma pre_hooks_facts:
  assumes "ctx_inv ctx"
  shows "pre_hooks ctx = None \<longleftrightarrow> trace_faults ctx \<or> tty_faults ctx"
    and "pre_hooks ctx = Some c \<Longrightarrow> ctx_inv c \<and> same_machine c ctx"
proof -
  show "pre_hooks ctx = None \<longleftrightarrow> trace_faults ctx \<or> tty_faults ctx"
  proof (cases "disasm_pre ctx")
    case None
    with disasm_pre_facts(1) [OF assms] show ?thesis by (simp add: pre_hooks_def)
  next
    case (Some d)
    then have d: "ctx_inv d" "same_machine d ctx" "bios_trace d = bios_trace ctx"
      using disasm_pre_facts(2) [OF assms Some] by simp_all
    then have "tty_faults d = tty_faults ctx"
      by (simp add: tty_faults_def traced_call_def tty_unterminated_def a0_char_def
          same_machine_def)
    with d Some disasm_pre_facts(1) [OF assms] show ?thesis
      by (simp add: pre_hooks_def bios_pre_facts)
  qed
  assume "pre_hooks ctx = Some c"
  then obtain d where d: "disasm_pre ctx = Some d" "psycho_bios_trace_begin d = Some c"
    by (auto simp: pre_hooks_def elim!: bind_eq_SomeE)
  have "ctx_inv d" "same_machine d ctx" using disasm_pre_facts(2) [OF assms d(1)] by simp_all
  with bios_pre_facts(2) [OF _ d(2)] show "ctx_inv c \<and> same_machine c ctx"
    by (simp add: same_machine_def)
qed

lemma psycho_step_split:
  "psycho_step ctx = do { ctx \<leftarrow> pre_hooks ctx; ctx \<leftarrow> psycho_cpu_step ctx;
    Option.bind (disasm_post ctx) psycho_bios_trace_end }"
  unfolding psycho_step_fold pre_hooks_def by (simp split: Option.bind_split)

lemma psycho_step_simulates:
  assumes "ctx_inv ctx" "\<not> trace_faults ctx" "\<not> tty_faults ctx"
  shows "rel_option same_machine (psycho_step ctx) (psycho_cpu_step ctx)"
    and "psycho_step ctx = Some c \<Longrightarrow> ctx_inv c"
proof -
  obtain d where d: "pre_hooks ctx = Some d"
    using pre_hooks_facts(1) [OF assms(1)] assms(2,3) by auto
  then have inv: "ctx_inv d" and sm: "same_machine d ctx"
    using pre_hooks_facts(2) [OF assms(1) d] by simp_all
  have sh: "cpu_shape (cpu ctx)" using assms(1) by (simp add: ctx_inv_def cpu_inv_def)
  note rel = cpu_step_same [OF sm sh]
  have eq: "psycho_step ctx = Option.bind (psycho_cpu_step d)
      (\<lambda>ctx. Option.bind (disasm_post ctx) psycho_bios_trace_end)"
    by (simp add: psycho_step_split d)
  show "rel_option same_machine (psycho_step ctx) (psycho_cpu_step ctx)"
  proof (cases "psycho_cpu_step d")
    case None
    with rel show ?thesis by (auto simp: eq)
  next
    case (Some e)
    obtain c where "Option.bind (disasm_post e) psycho_bios_trace_end = Some c" "same_machine c e"
      by (rule post_facts [OF cpu_step_inv [OF inv Some]])
    with Some rel show ?thesis by (auto simp: eq same_machine_def option_rel_Some1)
  qed
  assume "psycho_step ctx = Some c"
  then obtain e where e: "psycho_cpu_step d = Some e"
    and c: "Option.bind (disasm_post e) psycho_bios_trace_end = Some c"
    by (auto simp: eq elim!: bind_eq_SomeE)
  obtain c' where "Option.bind (disasm_post e) psycho_bios_trace_end = Some c'" "ctx_inv c'"
    by (rule post_facts [OF cpu_step_inv [OF inv e]])
  with c show "ctx_inv c" by simp
qed

lemma psycho_step_None_iff:
  assumes "ctx_inv ctx"
  shows "psycho_step ctx = None \<longleftrightarrow>
    trace_faults ctx \<or> tty_faults ctx \<or> psycho_cpu_step ctx = None"
proof (cases "trace_faults ctx \<or> tty_faults ctx")
  case True
  then show ?thesis using pre_hooks_facts(1) [OF assms] by (auto simp: psycho_step_split)
next
  case False
  then show ?thesis using psycho_step_simulates(1) [OF assms]
    by (cases "psycho_step ctx"; cases "psycho_cpu_step ctx") auto
qed

section \<open>Loading an executable\<close>

text \<open>
  The image of an executable: the fields of its header and the bytes behind it. An image is
  complete when its buffer has a header and \<^verbatim>\<open>file_size\<close> bytes behind it.
\<close>

definition exe_word :: "buffer \<Rightarrow> nat \<Rightarrow> u32" where
  "exe_word exe off = le_word (map (\<lambda>i. buf_byte exe (off + i)) [0..<4])"

definition exe_size_field :: "buffer \<Rightarrow> nat" where
  "exe_size_field exe = unat (exe_word exe EXE_OFF_FILE_SIZE)"

definition exe_dst :: "buffer \<Rightarrow> nat" where
  "exe_dst exe = unat (vaddr_to_paddr (exe_word exe EXE_OFF_DEST_ADDR))"

definition exe_code :: "buffer \<Rightarrow> u8 list" where
  "exe_code exe = map (\<lambda>i. buf_byte exe (EXE_OFF_CODE + i)) [0..<exe_size_field exe]"

definition exe_has_id :: "buffer \<Rightarrow> bool" where
  "exe_has_id exe \<longleftrightarrow> map (buf_byte exe) [0..<8] = exe_id"

text \<open>The CPU with the registers the loader sets.\<close>

definition exe_entry :: "buffer \<Rightarrow> psycho_cpu \<Rightarrow> psycho_cpu" where
  "exe_entry exe c =
     (let base = exe_word exe EXE_OFF_INITIAL_SP_FP_BASE;
          off = exe_word exe EXE_OFF_INITIAL_SP_FP_OFF
      in c\<lparr>pc := exe_word exe EXE_OFF_INITIAL_PC, next_pc := exe_word exe EXE_OFF_INITIAL_PC + 4,
           gpr := (gpr c)[28 := exe_word exe EXE_OFF_INITIAL_GP,
             29 := (if base = 0 then gpr c ! 29 else base) + off,
             30 := base + off]\<rparr>)"

lemma extract_u32_eq:
  "addr + 4 \<le> buf_size exe \<Longrightarrow> extract_u32 exe addr = Some (exe_word exe addr)"
  by (simp add: extract_u32_def exe_word_def memcpy_from_def)

lemma exe_load_bad:
  assumes "0x800 \<le> buf_size exe"
  shows "n < 0x800 \<Longrightarrow> psycho_exe_load ctx exe n = Some (PSYCHO_EXE_SIZE_BAD, ctx)"
    and "0x800 \<le> n \<Longrightarrow> \<not> exe_has_id exe \<Longrightarrow>
      psycho_exe_load ctx exe n = Some (PSYCHO_EXE_ID_BAD, ctx)"
  using assms by (auto simp: psycho_exe_load_def EXE_MIN_SIZE_def exe_has_id_def memcpy_from_def)

lemma exe_header:
  assumes "0x800 \<le> buf_size exe"
  shows "extract_u32 exe EXE_OFF_INITIAL_PC = Some (exe_word exe EXE_OFF_INITIAL_PC)"
    "extract_u32 exe EXE_OFF_INITIAL_GP = Some (exe_word exe EXE_OFF_INITIAL_GP)"
    "extract_u32 exe EXE_OFF_DEST_ADDR = Some (exe_word exe EXE_OFF_DEST_ADDR)"
    "extract_u32 exe EXE_OFF_FILE_SIZE = Some (exe_word exe EXE_OFF_FILE_SIZE)"
    "extract_u32 exe EXE_OFF_INITIAL_SP_FP_BASE = Some (exe_word exe EXE_OFF_INITIAL_SP_FP_BASE)"
    "extract_u32 exe EXE_OFF_INITIAL_SP_FP_OFF = Some (exe_word exe EXE_OFF_INITIAL_SP_FP_OFF)"
  by (intro extract_u32_eq [OF order_trans [OF _ assms]]; simp add: exe_offsets)+

lemma exe_load_copies:
  assumes "0x800 \<le> buf_size exe" "0x800 \<le> n" "exe_has_id exe"
    and "length (gpr (cpu ctx)) = CPU_GPR_NUM"
    and "memcpy_from exe EXE_OFF_CODE (exe_size_field exe) = Some (exe_code exe)"
  shows "psycho_exe_load ctx exe n = map_option (\<lambda>r. (PSYCHO_OK, log_emit PSYCHO_LOG_MODULE_ID_CTX
      PSYCHO_LOG_LEVEL_INFO (bus_update (ram_update (\<lambda>_. r)) (cpu_update (exe_entry exe) ctx))
      ''EXE loaded'')) (memcpy_to (ram (bus ctx)) (exe_dst exe) (exe_code exe))"
proof -
  have idb: "memcpy_from exe 0 8 = Some exe_id"
    using assms(1,3) by (simp add: memcpy_from_def exe_has_id_def)
  show ?thesis
    unfolding psycho_exe_load_def idb exe_header [OF assms(1)]
    using assms(2,4)
    by (cases "memcpy_to (ram (bus ctx)) (exe_dst exe) (exe_code exe)")
      (auto simp: EXE_MIN_SIZE_def assms(5) [unfolded exe_size_field_def] exe_dst_def
        set_reg_def Let_def exe_entry_def CPU_GPR_NUM_def nth_list_update
        intro!: arg_cong [where f = "\<lambda>c. log_emit PSYCHO_LOG_MODULE_ID_CTX PSYCHO_LOG_LEVEL_INFO c ''EXE loaded''"]
          psycho_ctx.equality psycho_cpu.equality nth_equalityI)
qed

lemma exe_load_good:
  assumes "0x800 \<le> buf_size exe" "0x800 \<le> n" "exe_has_id exe"
    and "length (gpr (cpu ctx)) = CPU_GPR_NUM"
  shows "psycho_exe_load ctx exe n =
    (if 0x800 + exe_size_field exe \<le> buf_size exe
        \<and> exe_dst exe + exe_size_field exe \<le> buf_size (ram (bus ctx))
     then Some (PSYCHO_OK, log_emit PSYCHO_LOG_MODULE_ID_CTX PSYCHO_LOG_LEVEL_INFO
       (cpu_update (exe_entry exe) (bus_update (\<lambda>b. b\<lparr>ram :=
          the (memcpy_to (ram b) (exe_dst exe) (exe_code exe))\<rparr>) ctx)) ''EXE loaded'')
     else None)"
proof (cases "0x800 + exe_size_field exe \<le> buf_size exe")
  case False
  then have "memcpy_from exe EXE_OFF_CODE (exe_size_field exe) = None"
    by (simp add: memcpy_from_def EXE_OFF_CODE_def)
  with assms False show ?thesis
    by (simp add: psycho_exe_load_def EXE_MIN_SIZE_def extract_u32_eq exe_offsets
        exe_size_field_def exe_has_id_def memcpy_from_def [of exe 0] Let_def)
next
  case True
  then have code: "memcpy_from exe EXE_OFF_CODE (exe_size_field exe) = Some (exe_code exe)"
    by (simp add: memcpy_from_def EXE_OFF_CODE_def exe_code_def)
  have "length (exe_code exe) = exe_size_field exe" by (simp add: exe_code_def)
  then have fits: "memcpy_to (ram (bus ctx)) (exe_dst exe) (exe_code exe) = None
      \<longleftrightarrow> \<not> exe_dst exe + exe_size_field exe \<le> buf_size (ram (bus ctx))"
    by (simp add: buf.wr_None_iff not_le)
  have same: "bus_update (ram_update (\<lambda>_. r)) (cpu_update (exe_entry exe) ctx)
      = cpu_update (exe_entry exe) (bus_update (\<lambda>b. b\<lparr>ram :=
        the (memcpy_to (ram b) (exe_dst exe) (exe_code exe))\<rparr>) ctx)"
    if "memcpy_to (ram (bus ctx)) (exe_dst exe) (exe_code exe) = Some r" for r
    using that by (auto intro!: psycho_ctx.equality)
  then show ?thesis
    using True fits unfolding exe_load_copies [OF assms code]
    by (cases "memcpy_to (ram (bus ctx)) (exe_dst exe) (exe_code exe)") (simp_all add: same)
qed

text \<open>A call never reads outside an image whose size it is told.\<close>

lemma exe_load_inv:
  assumes inv: "ctx_inv ctx" and size: "n \<le> buf_size exe"
    and call: "psycho_exe_load ctx exe n = Some (code, ctx')"
  shows "ctx_inv ctx'"
proof -
  consider "n < 0x800" | "0x800 \<le> n" "\<not> exe_has_id exe" | "0x800 \<le> n" "exe_has_id exe"
    by linarith
  then show ?thesis
  proof cases
    case 1
    then have "ctx' = ctx" using call by (simp add: psycho_exe_load_def EXE_MIN_SIZE_def)
    with inv show ?thesis by simp
  next
    case 2
    then have "ctx' = ctx" using call size exe_load_bad(2) [of exe n ctx] by simp
    with inv show ?thesis by simp
  next
    case 3
    have len: "length (gpr (cpu ctx)) = CPU_GPR_NUM"
      using inv by (simp add: ctx_inv_def cpu_inv_def cpu_shape_def)
    have big: "0x800 \<le> buf_size exe" using 3(1) size by simp
    let ?r = "memcpy_to (ram (bus ctx)) (exe_dst exe) (exe_code exe)"
    let ?c = "cpu_update (exe_entry exe) (bus_update (\<lambda>b. b\<lparr>ram :=
      the (memcpy_to (ram b) (exe_dst exe) (exe_code exe))\<rparr>) ctx)"
    have fits: "exe_dst exe + exe_size_field exe \<le> buf_size (ram (bus ctx))"
      and ctx': "ctx' = log_emit PSYCHO_LOG_MODULE_ID_CTX PSYCHO_LOG_LEVEL_INFO ?c ''EXE loaded''"
      using call exe_load_good [OF big 3 len] by (simp_all split: if_splits)
    obtain r where r: "?r = Some r"
      using fits by (auto simp: memcpy_to_def exe_code_def)
    have "cpu_inv ?c"
      using inv memcpy_to_size [OF r]
      by (simp add: ctx_inv_def cpu_inv_def cpu_shape_def exe_entry_def Let_def bus_sized_def r)
    with inv show ?thesis by (simp add: ctx' ctx_inv_def cpu_inv_def)
  qed
qed

section \<open>The interface of the library\<close>

text \<open>
  One call of a function of \<^verbatim>\<open>core/include/core/ctx.h\<close>, \<^verbatim>\<open>log.h\<close>, \<^verbatim>\<open>disasm.h\<close> and \<^verbatim>\<open>bus.h\<close> by the
  host, and the contexts a host can bring about with buffers of the declared sizes: it
  initialises zeroed storage, then makes calls in any order, and may initialise the context
  again. The configuration is the latest one.
\<close>

definition cfg_sized :: "psycho_ctx_cfg \<Rightarrow> bool" where
  "cfg_sized cfg \<longleftrightarrow> buf_size (ram_data cfg) = unat RAM_SIZE
     \<and> buf_size (bios_data cfg) = unat BIOS_SIZE"

inductive api_call :: "psycho_ctx \<Rightarrow> psycho_ctx \<Rightarrow> bool" where
  call_step: "psycho_step ctx = Some ctx' \<Longrightarrow> api_call ctx ctx'"
| call_reset: "api_call ctx (psycho_reset ctx)"
| call_exe_load: "n \<le> buf_size exe \<Longrightarrow> psycho_exe_load ctx exe n = Some (code, ctx') \<Longrightarrow>
    api_call ctx ctx'"
| call_tty: "api_call ctx (psycho_tty_stdout_enable ctx enable)"
| call_trace: "api_call ctx (psycho_disasm_trace_instruction_enable ctx enable)"
| call_disasm: "psycho_disasm_instr ctx i addr = Some ctx' \<Longrightarrow> api_call ctx ctx'"
| call_peek: "psycho_bus_peek_word ctx paddr = Some (w, ctx') \<Longrightarrow> api_call ctx ctx'"
| call_level_global: "api_call ctx (psycho_log_level_set_global ctx level)"
| call_level: "api_call ctx (psycho_log_module_level_set ctx mid level)"

inductive reachable :: "psycho_ctx_cfg \<Rightarrow> psycho_ctx \<Rightarrow> bool" where
  reach_init: "cfg_sized cfg \<Longrightarrow> reachable cfg (psycho_init zero_ctx cfg)"
| reach_again: "reachable old ctx \<Longrightarrow> cfg_sized cfg \<Longrightarrow> reachable cfg (psycho_init ctx cfg)"
| reach_call: "reachable cfg ctx \<Longrightarrow> api_call ctx ctx' \<Longrightarrow> reachable cfg ctx'"

inductive_cases api_callE: "api_call ctx ctx'"

lemma reset_inv: "ctx_inv ctx \<Longrightarrow> ctx_inv (psycho_reset ctx)"
  by (simp add: ctx_inv_def cpu_inv_def psycho_reset_def psycho_cpu_reset_def cpu_shape_def)

lemma setting_inv:
  assumes "ctx_inv ctx"
  shows "ctx_inv (psycho_tty_stdout_enable ctx enable)"
    "ctx_inv (psycho_disasm_trace_instruction_enable ctx enable)"
    "ctx_inv (psycho_log_level_set_global ctx level)"
    "ctx_inv (psycho_log_module_level_set ctx mid level)"
  using assms by (simp_all add: ctx_inv_def cpu_inv_def psycho_tty_stdout_enable_def trace_inv_def
      psycho_disasm_trace_instruction_enable_def psycho_log_level_set_global_def
      psycho_log_module_level_set_def level_set_loop_spec PSYCHO_LOG_MODULE_ID_NUM_def)

lemma step_inv:
  assumes "ctx_inv ctx" "psycho_step ctx = Some ctx'"
  shows "ctx_inv ctx'"
proof -
  have "\<not> trace_faults ctx" "\<not> tty_faults ctx"
    using assms psycho_step_None_iff [OF assms(1)] by auto
  then show ?thesis using psycho_step_simulates(2) [OF assms(1)] assms(2) by blast
qed

lemma query_inv:
  assumes "ctx_inv ctx"
  shows "psycho_disasm_instr ctx i addr = Some ctx' \<Longrightarrow> ctx_inv ctx'"
    and "psycho_bus_peek_word ctx paddr = Some (w, ctx') \<Longrightarrow> ctx_inv ctx'"
proof -
  show "psycho_disasm_instr ctx i addr = Some ctx' \<Longrightarrow> ctx_inv ctx'"
    using assms shown_text_length [of i addr]
    by (cases "unnamed_cop0 i")
      (auto simp: psycho_disasm_instr_eq show_text_def ctx_inv_def cpu_inv_def PSYCHO_DISASM_LEN_MAX_def)
  show "psycho_bus_peek_word ctx paddr = Some (w, ctx') \<Longrightarrow> ctx_inv ctx'"
    using assms by (auto simp: psycho_bus_peek_word_def ctx_inv_def cpu_inv_def dest: word_port.load_frame)
qed

lemma api_call_inv: "api_call ctx ctx' \<Longrightarrow> ctx_inv ctx \<Longrightarrow> ctx_inv ctx'"
  by (erule api_callE) (auto intro: step_inv reset_inv setting_inv exe_load_inv query_inv)

lemma zero_ctx_parts:
  "cpu zero_ctx = zero_cpu" "buf_size (scratchpad (bus zero_ctx)) = unat SCRATCHPAD_SIZE"
  "res_str (result (disasm zero_ctx)) = []"
  "length (modules (log zero_ctx)) = PSYCHO_LOG_MODULE_ID_NUM"
  by (simp_all add: zero_ctx_def zero_buffer_def)

lemma zero_trace_inv: "trace_inv (bios_trace zero_ctx)"
  by (simp add: trace_inv_def zero_ctx_def zero_tty_def PSYCHO_BIOS_TTY_OUTPUT_SIZE_MAX_def
      PSYCHO_BIOS_TRACE_RESULT_SIZE_def)

lemma init_parts:
  "cpu (psycho_init ctx cfg) = (cpu ctx)\<lparr>pc := RESET_PC, next_pc := RESET_PC + 4,
     curr_pc := RESET_PC, in_branch_delay_slot := False, next_in_branch_delay_slot := False,
     ld_next := ld_zero, ld_pend := ld_zero\<rparr>"
  "bus (psycho_init ctx cfg) = (bus ctx)\<lparr>bios := bios_data cfg, ram := ram_data cfg\<rparr>"
  "disasm (psycho_init ctx cfg) = disasm ctx" "log (psycho_init ctx cfg) = log ctx"
  "bios_trace (psycho_init ctx cfg) = bios_trace ctx"
  "event_trace (psycho_init ctx cfg) = event_trace ctx"
  by (simp_all add: psycho_init_def psycho_reset_def psycho_cpu_reset_def)

lemma init_inv:
  assumes "cfg_sized cfg"
  shows "ctx_inv (psycho_init zero_ctx cfg)"
proof -
  have "bus_sized (bus (psycho_init zero_ctx cfg))"
    using assms by (simp add: init_parts zero_ctx_parts cfg_sized_def bus_sized_def)
  moreover have "cpu_shape (cpu (psycho_init zero_ctx cfg))"
    by (simp add: init_parts zero_ctx_parts zero_cpu_def cpu_shape_def)
  moreover have "gpr (cpu (psycho_init zero_ctx cfg)) ! 0 = 0"
    by (simp add: init_parts zero_ctx_parts)
  moreover have "trace_inv (bios_trace (psycho_init zero_ctx cfg))"
    by (simp only: init_parts zero_trace_inv)
  ultimately show ?thesis
    by (simp add: ctx_inv_def cpu_inv_def)
      (simp add: init_parts zero_ctx_parts PSYCHO_DISASM_LEN_MAX_def PSYCHO_LOG_MODULE_ID_NUM_def)
qed

lemma init_again_inv:
  assumes "ctx_inv ctx" "cfg_sized cfg"
  shows "ctx_inv (psycho_init ctx cfg)"
  using assms
  by (simp add: ctx_inv_def cpu_inv_def init_parts cpu_shape_def cfg_sized_def bus_sized_def)

lemma reachable_ctx_inv: "reachable cfg ctx \<Longrightarrow> ctx_inv ctx"
  by (induction rule: reachable.induct) (auto intro: init_inv init_again_inv api_call_inv)

text \<open>A step of the whole machine is safe when its hooks and its CPU step are.\<close>

definition ctx_safe :: "psycho_ctx \<Rightarrow> bool" where
  "ctx_safe ctx \<longleftrightarrow> \<not> trace_faults ctx \<and> \<not> tty_faults ctx \<and> step_safe ctx"

interpretation machine: guarded_step psycho_step ctx_inv ctx_safe
proof
  fix s t :: psycho_ctx
  assume inv: "ctx_inv s"
  then show "psycho_step s = Some t \<Longrightarrow> ctx_inv t" by (rule step_inv)
  have ci: "cpu_inv s" using inv by (simp add: ctx_inv_def)
  show "ctx_safe s \<Longrightarrow> \<exists>t. psycho_step s = Some t"
    using psycho_step_None_iff [OF inv] cpu_machine.step_progress [OF ci]
    by (cases "psycho_step s") (auto simp: ctx_safe_def)
qed

section \<open>Programs in a fresh context\<close>

lemma program_ctx_inv:
  assumes "length regs = 32" "regs ! 0 = 0"
  shows "ctx_inv (program_ctx ws regs)"
  using program_inv [OF assms] zero_trace_inv zero_ctx_parts
  by (simp add: ctx_inv_def PSYCHO_LOG_MODULE_ID_NUM_def PSYCHO_DISASM_LEN_MAX_def)

lemma program_quiet:
  "\<not> trace_faults (program_ctx ws regs)" "\<not> tty_faults (program_ctx ws regs)"
  by (simp_all add: trace_faults_def tty_faults_def)

section \<open>The first fetch\<close>

text \<open>The first word of the BIOS.\<close>

definition bios_word :: "psycho_bus \<Rightarrow> u32" where
  "bios_word b = le_word (map (buf_byte (bios b)) [0..<4])"

lemma load_reset_word:
  "bus_sized (bus ctx) \<Longrightarrow> psycho_bus_load_word ctx 0x1FC00000 = Some (bios_word (bus ctx), ctx)"
  by (simp add: psycho_bus_load_word_def bus_sized_iff region_bounds memcpy_from_def bios_word_def)

lemma fetch_reset_word:
  assumes "cpu_shape (cpu ctx)" "bus_sized (bus ctx)" "pc (cpu ctx) = 0xBFC00000"
  shows "cpu_fetch ctx = Some (cpu_update (after_fetch (bios_word (bus ctx))) (pre_fetch ctx))"
  using assms load_reset_word [of "pre_fetch ctx"]
  by (simp add: cpu_fetch_eq fetch_pc_def vaddr_to_paddr_def)

end
