(* ===== verification/Isa_Simulation.thy ===== *)
theory Isa_Simulation
  imports Isa_Accesses Psycho_Ctx
begin

text \<open>
  The interpreter's step refines the step of the reference machine, and so do its runs, those
  of the CPU alone and those of the whole context with its tracing hooks.
\<close>

section \<open>Fetching\<close>

lemma fetch_isa:
  assumes "cpu_inv ctx" "4 dvd unat (pc (cpu ctx))" "cpu_fetch ctx = Some c"
  shows "just_fetched c" "before c = isa_of ctx" "fetched_word (isa_of ctx) = instr (cpu c)"
proof -
  have sh: "cpu_shape (cpu ctx)" and z: "gpr (cpu ctx) ! 0 = 0" and sized: "bus_sized (bus ctx)"
    using assms(1) by (simp_all add: cpu_inv_def)
  have al: "pc (cpu ctx) AND 3 = 0" using assms(2) by (simp add: mod_and dvd_eq_mod_eq_0)
  note f = fetch_fields [OF sh assms(3) al]
  have rest: "hi (cpu c) = hi (cpu ctx)" "lo (cpu c) = lo (cpu ctx)" "ld_pend (cpu c) = ld_zero"
    "\<not> next_in_branch_delay_slot (cpu c)"
    by (rule cpu_fetch_Some [OF sh assms(3)]; simp add: after_fetch_def)+
  show "just_fetched c"
    using f rest fetch_inv [OF assms(1,3)] by (simp add: just_fetched_def cpu_inv_def)
  have "reg_file (before c) = reg_file (isa_of ctx)" by (simp add: f isa_of_reg_file [OF sh z])
  then show "before c = isa_of ctx"
    by (rule isa.equality) (simp_all add: f rest isa_of_def)
  obtain w ctx1 where
    ld: "psycho_bus_load_word (pre_fetch ctx) (vaddr_to_paddr (fetch_pc (cpu ctx))) = Some (w, ctx1)"
    and c: "c = cpu_update (after_fetch w) ctx1"
    using cpu_fetch_Some [OF sh assms(3)] by metis
  have "read_le (mem_view (bus (pre_fetch ctx))) 4 (vaddr_to_paddr (fetch_pc (cpu ctx))) = unat w"
    by (rule read_word [OF _ paddr_room fetch_pc_aligned ld]) (simp add: sized)
  then show "fetched_word (isa_of ctx) = instr (cpu c)"
    using al by (simp add: fetched_word_def isa_of_def translate_eq fetch_pc_def c after_fetch_def)
qed

section \<open>Decoding\<close>

lemma of_int_imm: "of_int (sint w) = sign_ext_16_32 w" for w :: u16
  by (simp add: sign_ext_16_32_def)

lemma decode_group:
  "instr_op w = 0 \<Longrightarrow> decode w = decode_special w"
  "instr_op w = 1 \<Longrightarrow> decode w = Some (decode_bcond w)"
  "instr_op w = 0x10 \<Longrightarrow> decode w = decode_cop0 w"
  by (simp_all add: decode_def fields)

lemma special_executes:
  assumes "just_fetched c" "special_op f c = Some d" "instr_funct (instr (cpu c)) = special_value f"
    and "decode_special (instr (cpu c)) = Some i" "plain_insn i (before c)"
  shows "executes c d i"
  using assms
  by (cases f) (auto simp: decode_special_def fields Let_def
      intro: shift_handlers shift_handlers [simplified] register_handlers checked_handlers trap_handlers hilo_handlers
        mult_handlers div_handlers jump_handlers)

lemma range_cop_value: "range cop_value = {0, 4}"
proof
  show "range cop_value \<subseteq> {0, 4}"
  proof
    fix v assume "v \<in> range cop_value"
    then obtain m where "v = cop_value m" by blast
    then show "v \<in> {0, 4}" by (cases m) simp_all
  qed
  show "{0, 4} \<subseteq> range cop_value"
    using rangeI [of cop_value INSTR_COP_MF] rangeI [of cop_value INSTR_COP_MT] by simp
qed

lemma cop0_executes:
  assumes "just_fetched c" "exec_cop0 c = Some (Break, d)"
    and "decode_cop0 (instr (cpu c)) = Some i"
  shows "executes c d i"
proof -
  have v: "field 21 5 (instr (cpu c)) = 0 \<longleftrightarrow> instr_rs (instr (cpu c)) = 0"
    "field 21 5 (instr (cpu c)) = 4 \<longleftrightarrow> instr_rs (instr (cpu c)) = 4"
    "field 0 6 (instr (cpu c)) = 16 \<longleftrightarrow> instr_funct (instr (cpu c)) = 0x10"
    unfolding fields by (simp_all add: word_unat_eq_iff)
  show ?thesis
    using assms hilo_handlers [OF assms(1)] unfolding decode_cop0_def v
    by (auto simp: exec_cop0_def fields break_after_def return_after_def group_cop.enum_of_None_iff
        range_cop_value
        group_cop.enum_of_Some_iff group_cop0.enum_of_Some_iff
        split: option.splits instr_group_cop.splits instr_group_cop0.splits if_splits)
qed

lemma plain_atI:
  "just_fetched c \<Longrightarrow> plain_access (before c) (data_vaddr (cpu c)) \<Longrightarrow>
    plain_at c (translate (data_vaddr (cpu c)))"
  by (simp add: plain_at_def)

lemma group_executes:
  assumes "just_fetched c" "instr_op (instr (cpu c)) = op_value g"
    and "g \<notin> {INSTR_GROUP_SPECIAL, INSTR_GROUP_COP0}" "group_op g c = Some (Break, d)"
    and "decode (instr (cpu c)) = Some i" "plain_insn i (before c)"
  shows "executes c d i"
proof -
  note f = assms(1)
  note pa = plain_atI [OF f]
  note simps = decode_def decode_immediate_def decode_bcond_def fields field_imm disp_imm of_int_imm
    Let_def break_after_def ea_eq
  show ?thesis
    using assms(2-)
    by (cases g) (auto simp: simps
      intro: shift_handlers [OF f] shift_handlers [OF f, simplified] immediate_handlers [OF f]
        immediate_handlers [OF f, unfolded sign_ext_16_32_def] immediate_handlers [OF f, simplified]
        checked_handlers [OF f, unfolded sign_ext_16_32_def]
        branch_handlers [OF f] jump_handlers [OF f]
        byte_load_handlers [OF pa] byte_load_handlers [OF pa, simplified] half_load_handlers [OF pa]
        word_load_handler [OF pa] part_load_handlers [OF pa]
        narrow_store_handlers [OF pa] narrow_store_handlers [OF pa, simplified]
        word_store_handler [OF pa]
        part_store_handlers [OF pa, where op = op_SWR and merge = swr_merge]
        part_store_handlers [OF pa, where op = op_SWL and merge = swl_merge])
qed

lemma execute_executes:
  assumes "just_fetched c" "cpu_execute c = Some (Break, d)"
    and "decode (instr (cpu c)) = Some i" "plain_insn i (before c)"
  shows "executes c d i"
proof -
  let ?w = "instr (cpu c)"
  obtain g where g: "enum_of op_value all_ops (instr_op ?w) = Some g"
    and op: "group_op g c = Some (Break, d)"
    using assms(2) by (auto simp: cpu_execute_def return_after_def split: option.splits)
  then have v: "instr_op ?w = op_value g" by (simp only: group_op.enum_of_Some_iff)
  consider "g = INSTR_GROUP_SPECIAL" | "g = INSTR_GROUP_COP0"
    | (other) "g \<notin> {INSTR_GROUP_SPECIAL, INSTR_GROUP_COP0}" by blast
  then show ?thesis
  proof cases
    case 1
    then have dec: "decode_special ?w = Some i" using assms(3) v decode_group(1) by simp
    from 1 op obtain f where "enum_of special_value all_specials (instr_funct ?w) = Some f"
      "special_op f c = Some d"
      by (auto simp: exec_special_def break_after_def return_after_def split: option.splits)
    then show ?thesis
      using special_executes [OF assms(1) _ _ dec assms(4)]
      by (simp add: group_special.enum_of_Some_iff)
  next
    case 2
    then have dec: "decode_cop0 ?w = Some i" using assms(3) v decode_group(3) by simp
    from 2 op have "exec_cop0 c = Some (Break, d)" by simp
    then show ?thesis by (rule cop0_executes [OF assms(1) _ dec])
  next
    case other
    then show ?thesis by (rule group_executes [OF assms(1) v _ op assms(3,4)])
  qed
qed

text \<open>The interpreter and the reference machine decode the same words.\<close>

lemma enum_member: "enum_of v es n \<noteq> None \<longleftrightarrow> n \<in> v ` set es"
  by (auto simp: enum_of_def find_None_iff)

lemma decode_special_iff:
  "decode_special w \<noteq> None \<longleftrightarrow> enum_of special_value all_specials (instr_funct w) \<noteq> None"
  unfolding enum_member by (auto simp: decode_special_def fields Let_def all_specials_def
      word_unat_eq_iff)

lemma decode_cop0_iff:
  "decode_cop0 w \<noteq> None \<longleftrightarrow> enum_of cop_value all_cops (instr_rs w) \<noteq> None
     \<or> enum_of cop0_value all_cop0s (instr_funct w) \<noteq> None"
  unfolding enum_member by (auto simp: decode_cop0_def fields all_cops_def all_cop0s_def
      word_unat_eq_iff)

lemma decode_immediate_iff:
  "decode_immediate w \<noteq> None \<longleftrightarrow> instr_op w \<in> op_value ` (set all_ops -
     {INSTR_GROUP_SPECIAL, INSTR_GROUP_BCOND, INSTR_GROUP_COP0})"
  by (auto simp: decode_immediate_def fields Let_def all_ops_def word_unat_eq_iff)

lemma decodes_iff: "decodes w \<longleftrightarrow> decode w \<noteq> None"
proof -
  have sp: "field 26 6 w = unat (op_value g) \<longleftrightarrow> instr_op w = op_value g" for g
    by (simp only: fields word_unat_eq_iff)
  note k = sp [of INSTR_GROUP_SPECIAL] sp [of INSTR_GROUP_BCOND] sp [of INSTR_GROUP_COP0]
  show ?thesis
  proof (cases "enum_of op_value all_ops (instr_op w)")
    case None
    then have "instr_op w \<notin> op_value ` set all_ops" using enum_member by blast
    then show ?thesis
      using None k decode_immediate_iff [of w] by (auto simp: decodes_def decode_def all_ops_def)
  next
    case (Some g)
    then have v: "instr_op w = op_value g" by (simp only: group_op.enum_of_Some_iff)
    consider "g = INSTR_GROUP_SPECIAL" | "g = INSTR_GROUP_BCOND" | "g = INSTR_GROUP_COP0"
      | (other) "g \<notin> {INSTR_GROUP_SPECIAL, INSTR_GROUP_BCOND, INSTR_GROUP_COP0}" by blast
    then show ?thesis
    proof cases
      case other
      then have "instr_op w \<in> op_value ` (set all_ops -
          {INSTR_GROUP_SPECIAL, INSTR_GROUP_BCOND, INSTR_GROUP_COP0})"
        using v group_op.complete by blast
      moreover have "decodes w" using other Some by (cases g) (auto simp: decodes_def)
      moreover have ne: "instr_op w \<noteq> op_value h"
        if "h \<in> {INSTR_GROUP_SPECIAL, INSTR_GROUP_BCOND, INSTR_GROUP_COP0}" for h
        using that other v group_op.injective by metis
      have "decode w = decode_immediate w"
        using ne [of INSTR_GROUP_SPECIAL] ne [of INSTR_GROUP_BCOND] ne [of INSTR_GROUP_COP0] k
        by (simp add: decode_def)
      ultimately show ?thesis using decode_immediate_iff [of w] by simp
    qed (use Some v decode_special_iff [of w] decode_cop0_iff [of w] decode_group [of w]
        in \<open>auto simp: decodes_def\<close>)
  qed
qed

section \<open>The step\<close>

lemma step_refines:
  assumes "cpu_inv ctx" "psycho_cpu_step ctx = Some ctx'" "plain (isa_of ctx)"
  shows "isa_step (isa_of ctx) = Some (isa_of ctx')"
proof -
  have al: "4 dvd unat (pc (cpu ctx))" using assms(3) by (simp add: plain_def isa_of_def)
  obtain i where i: "decode (fetched_word (isa_of ctx)) = Some i" "plain_insn i (isa_of ctx)"
    using assms(3) by (auto simp: plain_def split: option.splits)
  obtain c fl d where f: "cpu_fetch ctx = Some c" and ex: "cpu_execute c = Some (fl, d)"
    and ctx': "fl = Break \<Longrightarrow> ctx' = clear_zero d"
    using assms(2) by (fastforce simp: psycho_cpu_step_def elim!: bind_eq_SomeE split: flow.splits)
  note fi = fetch_isa [OF assms(1) al f]
  have "fl = Break" using execute_flow [OF ex] decodes_iff i(1) fi(3) by simp
  then have "executes c d i" using execute_executes [OF fi(1), of d i] ex i fi(2,3) by simp
  then show ?thesis
    using i \<open>fl = Break\<close> by (simp add: isa_step_def executes_def fi ctx')
qed

section \<open>Progress\<close>

lemma clear_word:
  assumes "clear_of_gaps p 4"
  shows "\<not> word_hole p"
  using assms by (auto simp: clear_of_gaps_def hole_unat)

lemma clear_narrow:
  "clear_of_gaps p 2 \<Longrightarrow> \<not> halfword_hole p" "clear_of_gaps p (Suc 0) \<Longrightarrow> \<not> byte_hole p"
  by (auto simp: clear_of_gaps_def hole_unat)

lemma data_in_bounds:
  assumes "just_fetched c" "decode (instr (cpu c)) = Some i" "plain_insn i (before c)"
    and "\<And>p n. data_span i (before c) = Some (p, n) \<Longrightarrow> clear_of_gaps p n"
  shows "\<not> exec_faults (cpu c)"
proof (cases "enum_of op_value all_ops (instr_op (instr (cpu c)))")
  case None
  then show ?thesis by (simp add: exec_faults_def)
next
  case (Some g)
  then have v: "instr_op (instr (cpu c)) = op_value g" by (simp only: group_op.enum_of_Some_iff)
  have al: "p - of_nat (unat p mod 4) = p AND - 4" for p :: u32
    by (simp only: align_sub and_3_of_nat)
  note simps = decode_def decode_immediate_def decode_bcond_def fields field_imm disp_imm Let_def ea_eq al
  have "\<not> data_faults g (cpu c)"
    using assms v plain_address [of c]
    by (cases g) (auto simp: simps dest: clear_word clear_narrow)
  with Some show ?thesis by (simp add: exec_faults_def)
qed

lemma plain_step_safe:
  assumes "cpu_inv ctx" "plain (isa_of ctx)" "in_bounds (isa_of ctx)"
  shows "step_safe ctx"
proof -
  have now: "now (isa_of ctx) = pc (cpu ctx)" by (simp add: isa_of_def)
  have al: "4 dvd unat (pc (cpu ctx))" using assms(2) by (simp add: plain_def now)
  then have "fetch_pc (cpu ctx) = pc (cpu ctx)" by (simp add: fetch_pc_def mod_and dvd_eq_mod_eq_0)
  moreover have "\<not> word_hole (translate (pc (cpu ctx)))"
    using assms(3) by (intro clear_word) (simp add: in_bounds_def now)
  moreover have "\<not> exec_faults (cpu c)" if f: "cpu_fetch ctx = Some c" for c
  proof -
    note fi = fetch_isa [OF assms(1) al f]
    obtain i where "decode (instr (cpu c)) = Some i" "plain_insn i (before c)"
      "\<And>p n. data_span i (before c) = Some (p, n) \<Longrightarrow> clear_of_gaps p n"
      using assms(2,3) by (auto simp: plain_def in_bounds_def fi split: option.splits)
    then show ?thesis by (rule data_in_bounds [OF fi(1)])
  qed
  ultimately show ?thesis by (simp add: step_safe_def translate_eq split: option.split)
qed

interpretation isa_cpu: total_simulation psycho_cpu_step cpu_inv bounded_step isa_of
proof
  fix s t :: psycho_ctx and m
  assume inv: "cpu_inv s" and sp: "bounded_step (isa_of s) = Some m"
  then have ok: "plain (isa_of s)" "in_bounds (isa_of s)" "isa_step (isa_of s) = Some m"
    by (auto simp: bounded_step_def plain_step_def split: if_splits)
  show "psycho_cpu_step s = Some t \<Longrightarrow> m = isa_of t"
    using inv ok step_refines [of s t] by simp
  show "\<exists>t. psycho_cpu_step s = Some t"
    using inv ok plain_step_safe [of s] by (intro cpu_machine.step_progress) simp_all
qed

text \<open>With its hooks, the whole context refines the machine as well, as far as it gets.\<close>

lemma psycho_step_refines:
  assumes "ctx_inv ctx" "psycho_step ctx = Some ctx'" "plain (isa_of ctx)"
  shows "isa_step (isa_of ctx) = Some (isa_of ctx')"
proof -
  have ok: "\<not> trace_faults ctx" "\<not> tty_faults ctx"
    using assms(2) psycho_step_None_iff [OF assms(1)] by auto
  have "rel_option same_machine (psycho_step ctx) (psycho_cpu_step ctx)"
    by (rule psycho_step_simulates(1) [OF assms(1) ok])
  then obtain d where d: "psycho_cpu_step ctx = Some d" "same_machine ctx' d"
    using assms(2) by (auto simp: option_rel_Some1)
  have "isa_of ctx' = isa_of d" using d(2) by (intro isa_of_cong) (simp_all add: same_machine_def)
  moreover have "cpu_inv ctx" using assms(1) by (simp add: ctx_inv_def)
  ultimately show ?thesis using step_refines [OF _ d(1) assms(3)] by simp
qed

interpretation isa_machine: simulation psycho_step ctx_inv plain_step isa_of
proof
  fix s t :: psycho_ctx and m
  assume "ctx_inv s" "plain_step (isa_of s) = Some m" "psycho_step s = Some t"
  then show "m = isa_of t"
    using psycho_step_refines [of s t] by (auto simp: plain_step_def split: if_splits)
qed

end
