(* ===== verification/Console_Spec.thy ===== *)
theory Console_Spec
  imports Isa_Spec C_Format
begin

text \<open>
  What the application promises as a whole, as a machine of its own: the processor of
  \<open>Isa_Spec\<close> with a terminal behind one entry point of the BIOS and a file that receives each
  line when it is complete. An image may be waiting; it is put into memory when the processor
  arrives at the shell. Nothing here models the source; \<open>Console_Refines\<close> relates the
  application to it.
\<close>

section \<open>Executables\<close>

record image =
  img_entry :: u32
  img_gp :: u32
  img_base :: u32
  img_off :: u32
  img_dest :: u32
  img_code :: "u8 list"
  img_whole :: bool

definition store_code :: "byte_store \<Rightarrow> nat \<Rightarrow> u8 list \<Rightarrow> byte_store" where
  "store_code m p bs = (\<lambda>q. if p \<le> unat q \<and> unat q < p + length bs
     then Some (bs ! (unat q - p)) else m q)"

definition load_image :: "image \<Rightarrow> isa \<Rightarrow> isa" where
  "load_image i m = m\<lparr>now := img_entry i, after := img_entry i + 4,
     reg_file := (reg_file m)[28 := img_gp i,
       29 := (if img_base i = 0 then reg_file m ! 29 else img_base i) + img_off i,
       30 := img_base i + img_off i],
     byte_at := store_code (byte_at m) (unat (translate (img_dest i))) (img_code i)\<rparr>"

text \<open>All the code the image announces must be there, and fit into the RAM.\<close>

definition loadable :: "image \<Rightarrow> bool" where
  "loadable i \<longleftrightarrow> img_whole i \<and> unat (translate (img_dest i)) + length (img_code i) \<le> 0x200000"

section \<open>The terminal\<close>

abbreviation line_feed :: char where "line_feed \<equiv> CHR 0x0A"

text \<open>A line that is being printed, and the completed lines.\<close>

record terminal =
  open_line :: string
  stored :: string

definition put_char :: "char \<Rightarrow> terminal \<Rightarrow> terminal" where
  "put_char c t = (if c = line_feed then \<lparr>open_line = [], stored = stored t @ open_line t @ [line_feed]\<rparr>
     else t\<lparr>open_line := open_line t @ [c]\<rparr>)"

text \<open>A terminal takes lines of fewer than 255 characters.\<close>

definition accepts :: "char \<Rightarrow> terminal \<Rightarrow> bool" where
  "accepts c t \<longleftrightarrow> c \<noteq> NUL \<and> (c = line_feed \<or> length (open_line t) + 1 < 255)"

section \<open>The console\<close>

record console =
  core :: isa
  terminal :: terminal

definition shell_entry :: u32 where "shell_entry = 0x80030000"

definition print_entry :: u32 where "print_entry = 0xB0"

text \<open>Function \<^verbatim>\<open>0x3D\<close> of the table prints the character in \<^verbatim>\<open>$a0\<close>.\<close>

definition prints :: "isa \<Rightarrow> char option" where
  "prints m = (if now m = print_entry \<and> reg_file m ! 9 = 0x3D
     then Some (char_of (unat (reg_file m ! 4) mod 256)) else None)"

definition arrive :: "image option \<Rightarrow> isa \<Rightarrow> isa option" where
  "arrive img m = (if now m \<noteq> shell_entry then Some m
     else case img of None \<Rightarrow> Some m
     | Some i \<Rightarrow> if loadable i then Some (load_image i m) else None)"

definition display :: "isa \<Rightarrow> terminal \<Rightarrow> terminal option" where
  "display m t = (case prints m of None \<Rightarrow> Some t
     | Some c \<Rightarrow> if accepts c t then Some (put_char c t) else None)"

text \<open>
  Two demands of the trace that the processor itself does not make: a coprocessor register that
  is moved has a name, and the registers are settled where they are looked at, so the last
  instruction before one of the two entries has no load arriving.
\<close>

definition named :: "insn \<Rightarrow> bool" where
  "named i \<longleftrightarrow> (case i of From_Sys rt rd \<Rightarrow> rd \<in> {3, 5, 6, 7, 8, 9, 11, 12, 13, 14, 15}
     | To_Sys rt rd \<Rightarrow> rd \<in> {3, 5, 6, 7, 8, 9, 11, 12, 13, 14, 15} | _ \<Rightarrow> True)"

definition traceable :: "isa \<Rightarrow> bool" where
  "traceable m \<longleftrightarrow> (case decode (fetched_word m) of Some i \<Rightarrow> named i | None \<Rightarrow> False)"

definition settled :: "isa \<Rightarrow> isa \<Rightarrow> bool" where
  "settled m m' \<longleftrightarrow> now m' \<in> {shell_entry, print_entry} \<longrightarrow> arriving m = None"

definition console_step :: "image option \<Rightarrow> console \<Rightarrow> console option" where
  "console_step img s = (case arrive img (core s) of None \<Rightarrow> None
     | Some m \<Rightarrow> (case display m (terminal s) of None \<Rightarrow> None
        | Some t \<Rightarrow> (case bounded_step m of None \<Rightarrow> None
           | Some m' \<Rightarrow> if traceable m \<and> settled m m' then Some \<lparr>core = m', terminal = t\<rparr> else None)))"

text \<open>The console at power-up: the processor at the reset vector, the registers zero.\<close>

definition power_up :: "byte_store \<Rightarrow> console" where
  "power_up mem = \<lparr>core = \<lparr>reg_file = replicate 32 0, sys_file = replicate 32 0, high = 0, low = 0,
       now = 0xBFC00000, after = 0xBFC00004, in_slot = False, arriving = None, byte_at = mem\<rparr>,
     terminal = \<lparr>open_line = [], stored = []\<rparr>\<rparr>"

end
