(* ===== verification/App.thy ===== *)
theory App
  imports Psycho_Ctx
begin

text \<open>
  \<^verbatim>\<open>app/main.c\<close>: the command-line front end. What the operating system decides is a parameter:
  the files and what \<^verbatim>\<open>stat\<close>, \<^verbatim>\<open>fopen\<close> and \<^verbatim>\<open>fread\<close> report of them, which sizes \<^verbatim>\<open>malloc\<close>
  can serve, whether the TTY file can be created, and the text of \<^verbatim>\<open>strerror(errno)\<close>. What the
  program does to its host is collected in a record: the text it prints, the files it holds
  open, the blocks it has allocated and the TTY file.
\<close>

section \<open>The host\<close>

text \<open>
  An output stream holds back what it is given until it is flushed. The library may write
  earlier, so \<open>on_disk\<close> is the least that has reached the file, and what is \<open>unwritten\<close> is lost
  at worst when the program stops by a trap. An exit writes it.
\<close>

record stream =
  on_disk :: string
  unwritten :: string

definition fprintf :: "stream \<Rightarrow> string \<Rightarrow> stream" where
  "fprintf f s = f\<lparr>unwritten := unwritten f @ s\<rparr>"

definition fflush :: "stream \<Rightarrow> stream" where
  "fflush f = \<lparr>on_disk = on_disk f @ unwritten f, unwritten = []\<rparr>"

text \<open>\<open>tty_file\<close> is \<^term>\<open>None\<close> as long as the pointer is null.\<close>

record host =
  host_stdout :: stream
  host_stderr :: string
  open_files :: "string list"
  heap_blocks :: "nat list"
  tty_file :: "stream option"

definition no_host :: host where
  "no_host = \<lparr>host_stdout = \<lparr>on_disk = [], unwritten = []\<rparr>, host_stderr = [], open_files = [], heap_blocks = [], tty_file = None\<rparr>"

text \<open>The program never flushes its standard output.\<close>

definition printf :: "host \<Rightarrow> string \<Rightarrow> host" where
  "printf h s = h\<lparr>host_stdout := fprintf (host_stdout h) s\<rparr>"

definition fopen :: "host \<Rightarrow> string \<Rightarrow> host" where
  "fopen h path = h\<lparr>open_files := path # open_files h\<rparr>"

definition fclose :: "host \<Rightarrow> string \<Rightarrow> host" where
  "fclose h path = h\<lparr>open_files := remove1 path (open_files h)\<rparr>"

text \<open>The program stops by a trap, which leaves the host as it is, or is undefined.\<close>

datatype stop = Trap host | Undefined

record host_file =
  st_size :: nat
  openable :: bool
  content :: "u8 list"
  read_error :: bool

record environment =
  files :: "string \<Rightarrow> host_file option"
  malloc_serves :: "nat \<Rightarrow> bool"
  tty_opens :: bool
  errno_text :: string

record emulator =
  emu_ctx :: psycho_ctx
  exe_data :: buffer
  exe_size :: nat
  emu_host :: host

section \<open>Events\<close>

definition escape :: "string \<Rightarrow> string" where
  "escape code = CHR 0x1B # ''['' @ code @ ''m''"

definition BRED :: string where "BRED = escape ''1;31''"
definition BYEL :: string where "BYEL = escape ''1;33''"
definition BWHT :: string where "BWHT = escape ''1;37''"
definition COLOR_RESET :: string where "COLOR_RESET = escape ''0''"

definition handle_cpu_illegal_instr :: "host \<Rightarrow> stop + host" where
  "handle_cpu_illegal_instr h = Inl (Trap h)"

definition handle_log_message :: "host \<Rightarrow> psycho_log_msg \<Rightarrow> stop + host" where
  "handle_log_message h msg =
     (let line = c_str (msg_text msg) @ [newline]
      in case msg_level msg of
        PSYCHO_LOG_LEVEL_INFO \<Rightarrow>
          Inr (printf h (BWHT @ line @ COLOR_RESET))
      | PSYCHO_LOG_LEVEL_WARN \<Rightarrow>
          Inr (printf h (BYEL @ line @ COLOR_RESET))
      | PSYCHO_LOG_LEVEL_ERROR \<Rightarrow>
          Inr (printf h (BRED @ line @ COLOR_RESET))
      | _ \<Rightarrow> Inr (printf h line))"

definition handle_tty_message :: "host \<Rightarrow> char list \<Rightarrow> stop + host" where
  "handle_tty_message h data =
     (case (tty_file h, c_string_of data) of
        (Some f, Some s) \<Rightarrow> Inr (h\<lparr>tty_file := Some (fflush (fprintf f s))\<rparr>)
      | _ \<Rightarrow> Inl Undefined)"

fun ctx_event_handle :: "host \<Rightarrow> psycho_event \<Rightarrow> stop + host" where
  "ctx_event_handle h PSYCHO_EVENT_CPU_ILLEGAL = handle_cpu_illegal_instr h"
| "ctx_event_handle h (PSYCHO_EVENT_LOG_MESSAGE msg) = handle_log_message h msg"
| "ctx_event_handle h (PSYCHO_EVENT_TTY_MESSAGE data) = handle_tty_message h data"

text \<open>The events of a call, in the order the callback saw them.\<close>

fun handle_events :: "host \<Rightarrow> psycho_event list \<Rightarrow> stop + host" where
  "handle_events h [] = Inr h"
| "handle_events h (ev # evs) =
     (case ctx_event_handle h ev of Inl s \<Rightarrow> Inl s | Inr h' \<Rightarrow> handle_events h' evs)"

section \<open>Files\<close>

text \<open>The size \<^verbatim>\<open>fread\<close> is asked for bounds what it reads; it fills the front of the array.\<close>

definition fread_count :: "host_file \<Rightarrow> nat \<Rightarrow> nat" where
  "fread_count f n = min n (length (content f))"

definition fread_into :: "buffer \<Rightarrow> host_file \<Rightarrow> nat \<Rightarrow> buffer" where
  "fread_into b f n = b\<lparr>buf_byte := (\<lambda>i. if i < fread_count f n then content f ! i else buf_byte b i)\<rparr>"

text \<open>The result, the array and the host. A file that was read is not closed.\<close>

definition load_bios_file :: "environment \<Rightarrow> host \<Rightarrow> buffer \<Rightarrow> string \<Rightarrow> bool \<times> buffer \<times> host" where
  "load_bios_file env h emu_bios bios_file =
     (case files env bios_file of
        None \<Rightarrow> (False, emu_bios, h)
      | Some f \<Rightarrow>
          if \<not> openable f then (False, emu_bios, h)
          else let h = fopen h bios_file;
                   bytes_read = fread_count f (buf_size emu_bios);
                   emu_bios = fread_into emu_bios f (buf_size emu_bios)
               in if bytes_read \<noteq> buf_size emu_bios \<or> read_error f
                  then (False, emu_bios, fclose h bios_file)
                  else (True, emu_bios, h))"

text \<open>
  The image with its size, or nothing, and the host. \<^verbatim>\<open>malloc\<close> is not checked: reading into the
  null pointer is undefined. A request for no bytes is always served, with a null pointer or
  not, and nothing is read into it.
\<close>

definition load_exe_file :: "environment \<Rightarrow> host \<Rightarrow> string \<Rightarrow> stop + (buffer \<times> nat) option \<times> host" where
  "load_exe_file env h exe_file =
     (case files env exe_file of
        None \<Rightarrow> Inr (None, h)
      | Some f \<Rightarrow>
          if \<not> openable f then Inr (None, h)
          else let h = fopen h exe_file
               in if 0 < st_size f \<and> \<not> malloc_serves env (st_size f) then Inl Undefined
                  else let h = h\<lparr>heap_blocks := st_size f # heap_blocks h\<rparr>;
                           bytes_read = fread_count f (st_size f);
                           image = fread_into (zero_buffer (st_size f)) f (st_size f)
                       in if bytes_read \<noteq> st_size f \<or> read_error f
                          then let h = fclose h exe_file
                               in Inr (None, h\<lparr>heap_blocks := remove1 (st_size f) (heap_blocks h)\<rparr>)
                          else Inr (Some (image, st_size f), h))"

section \<open>The program\<close>

definition EXIT_FAILURE :: int where "EXIT_FAILURE = 1"

datatype startup = Exit int host | Aborted stop | Running emulator

definition print_error :: "host \<Rightarrow> string \<Rightarrow> host" where
  "print_error h s = h\<lparr>host_stderr := host_stderr h @ s\<rparr>"

text \<open>An empty \<^verbatim>\<open>argv\<close> begins with a null pointer, which cannot be printed.\<close>

definition main_setup :: "environment \<Rightarrow> string list \<Rightarrow> startup" where
  "main_setup env argv =
     (if argv = [] then Aborted Undefined
      else if length argv < 3 then
        Exit EXIT_FAILURE (print_error (print_error no_host
          (argv ! 0 @ '': missing required argument.'' @ [newline]))
          (''syntax: '' @ argv ! 0 @ '' <bios_file> <exe_file>'' @ [newline]))
      else case load_bios_file env no_host (zero_buffer (unat BIOS_SIZE)) (argv ! 1) of
        (False, _, h) \<Rightarrow>
          Exit EXIT_FAILURE (print_error h (argv ! 0 @ '': error encountered loading bios file ''
            @ argv ! 1 @ '': '' @ errno_text env @ [newline]))
      | (True, emu_bios, h) \<Rightarrow>
          (case load_exe_file env h (argv ! 2) of
             Inl s \<Rightarrow> Aborted s
           | Inr (None, h) \<Rightarrow>
               Exit EXIT_FAILURE (print_error h (argv ! 0 @ '': error encountered loading exe file ''
                 @ argv ! 1 @ '': '' @ errno_text env @ [newline]))
           | Inr (Some (exe, n), h) \<Rightarrow>
               let h = (if tty_opens env
                        then (fopen h ''tty_file.txt'')\<lparr>tty_file := Some \<lparr>on_disk = [], unwritten = []\<rparr>\<rparr>
                        else h);
                   cfg = \<lparr>ram_data = zero_buffer (unat RAM_SIZE), bios_data = emu_bios\<rparr>;
                   ctx = psycho_init zero_ctx cfg;
                   ctx = psycho_tty_stdout_enable ctx True;
                   ctx = psycho_log_level_set_global ctx PSYCHO_LOG_LEVEL_TRACE;
                   ctx = psycho_disasm_trace_instruction_enable ctx True
               in Running \<lparr>emu_ctx = ctx, exe_data = exe, exe_size = n, emu_host = h\<rparr>))"

text \<open>
  One turn of the loop. The callback runs during the calls; the model hands it the events of
  the turn behind them, which is the same because it does not touch the context.
\<close>

definition load_at_shell :: "emulator \<Rightarrow> stop + psycho_ctx" where
  "load_at_shell emu =
     (let ctx = emu_ctx emu
      in if pc (cpu ctx) = 0x80030000 then
           (case psycho_exe_load ctx (exe_data emu) (exe_size emu) of
              None \<Rightarrow> Inl Undefined
            | Some (code, ctx) \<Rightarrow>
                if return_code_value code = 0 then Inl (Trap (emu_host emu))
                else let ctx = psycho_log_level_set_global ctx PSYCHO_LOG_LEVEL_TRACE
                     in Inr (psycho_disasm_trace_instruction_enable ctx True))
         else Inr ctx)"

definition new_events :: "psycho_ctx \<Rightarrow> psycho_ctx \<Rightarrow> psycho_event list" where
  "new_events ctx ctx' = drop (length (event_trace ctx)) (event_trace ctx')"

definition main_turn :: "emulator \<Rightarrow> stop + emulator" where
  "main_turn emu =
     (case load_at_shell emu of
        Inl s \<Rightarrow> Inl s
      | Inr ctx \<Rightarrow>
          (case psycho_step ctx of
             None \<Rightarrow> Inl Undefined
           | Some ctx' \<Rightarrow>
               (case handle_events (emu_host emu) (new_events (emu_ctx emu) ctx') of
                  Inl s \<Rightarrow> Inl s
                | Inr h \<Rightarrow> Inr (emu\<lparr>emu_ctx := ctx', emu_host := h\<rparr>))))"

primrec main_loop :: "nat \<Rightarrow> emulator \<Rightarrow> stop + emulator" where
  "main_loop 0 emu = Inr emu"
| "main_loop (Suc n) emu =
     (case main_turn emu of Inl s \<Rightarrow> Inl s | Inr emu' \<Rightarrow> main_loop n emu')"

end
