(* ===== verification/Ctx_Events.thy ===== *)
theory Ctx_Events
  imports Psycho_Ctx Cpu_Events
begin

text \<open>
  The calls of the host's callback during a step of the whole machine, tracing hooks
  included: every TTY message carries a terminated text, and the illegal instruction is
  reported exactly when the fetched word does not decode.
\<close>

definition calm :: "psycho_ctx \<Rightarrow> psycho_ctx \<Rightarrow> bool" where
  "calm s t \<longleftrightarrow> (\<exists>evs. event_trace t = event_trace s @ evs
     \<and> PSYCHO_EVENT_CPU_ILLEGAL \<notin> set evs
     \<and> (\<forall>d. PSYCHO_EVENT_TTY_MESSAGE d \<in> set evs \<longrightarrow> NUL \<in> set d))"

lemma calm_eq: "event_trace t = event_trace s \<Longrightarrow> calm s t"
  by (simp add: calm_def)

lemma calm_trans: "calm s t \<Longrightarrow> calm t u \<Longrightarrow> calm s u"
  by (fastforce simp: calm_def)

lemma logs_only_calm: "logs_only s t \<Longrightarrow> calm s t"
  by (fastforce simp: calm_def logs_only_def is_log_def)

lemma dispatch_logs:
  "m \<noteq> DISASM \<Longrightarrow> psycho_log_message_dispatch ctx m l s = Some ctx' \<Longrightarrow> logs_only ctx ctx'"
  by (auto simp: psycho_log_message_dispatch_def Let_def is_log_def split: if_splits
      elim!: bind_eq_SomeE intro!: logs_only_event)

lemma calm_tty: "NUL \<in> set d \<Longrightarrow> calm s t \<Longrightarrow> calm s (event_cb t (PSYCHO_EVENT_TTY_MESSAGE d))"
  by (fastforce simp: calm_def)

lemma calm_bios_update [simp]: "calm s (bios_trace_update f t) = calm s t"
  "calm (bios_trace_update f s) t = calm s t"
  by (simp_all add: calm_def)

lemma dispatch_calm: "psycho_log_message_dispatch ctx m l s = Some ctx' \<Longrightarrow> calm ctx ctx'"
  by (auto simp: psycho_log_message_dispatch_def Let_def calm_def split: if_splits
      elim!: bind_eq_SomeE)

lemma calm_log_emit: "calm s t \<Longrightarrow> calm s (log_emit m l t b)"
  by (fastforce simp: calm_def log_emit_def log_event_def)

lemma handle_tty_calm:
  assumes "handle_tty_output ctx = Some ctx'"
  shows "calm ctx ctx'"
proof -
  have refl: "calm ctx ctx" by (rule calm_eq) simp
  obtain chars where wr: "array_write (tty_data (tty_stdout (bios_trace ctx)))
      (tty_len (tty_stdout (bios_trace ctx))) [a0_char ctx] = Some chars"
    using assms by (auto simp: handle_tty_output_def Let_def elim!: bind_eq_SomeE)
  show ?thesis
  proof (cases "a0_char ctx = newline")
    case True
    let ?c = "event_cb (bios_trace_update (\<lambda>b. b\<lparr>tty_stdout := \<lparr>tty_data = chars,
      tty_len = tty_len (tty_stdout (bios_trace ctx)) + 1\<rparr>\<rparr>) ctx) (PSYCHO_EVENT_TTY_MESSAGE chars)"
    from assms True wr obtain s d where s: "c_string_of chars = Some s"
      and d: "psycho_log_message_dispatch ?c PSYCHO_LOG_MODULE_ID_TTY_STDOUT
        PSYCHO_LOG_LEVEL_INFO s = Some d"
      and ctx': "ctx' = bios_trace_update (\<lambda>b. b\<lparr>tty_stdout := zero_tty\<rparr>) d"
      by (auto simp: handle_tty_output_def Let_def elim!: bind_eq_SomeE)
    have "NUL \<in> set chars" using s by (simp add: c_string_of_def split: if_splits)
    then have "calm ctx ?c" using refl by (simp add: calm_tty)
    with d show ?thesis
      by (auto simp: ctx' dest!: dispatch_calm elim: calm_trans)
  next
    case False
    with assms wr refl show ?thesis
      by (auto simp: handle_tty_output_def Let_def split: if_splits intro!: calm_log_emit)
  qed
qed

lemma disasm_instr_logs: "psycho_disasm_instr ctx i addr = Some c \<Longrightarrow> logs_only ctx c"
  by (auto simp: psycho_disasm_instr_eq show_text_def intro!: logs_only_eq split: if_splits)

lemma disasm_pre_logs:
  assumes "disasm_pre ctx = Some c"
  shows "logs_only ctx c"
proof (cases "trace_instruction (disasm ctx)")
  case True
  with assms show ?thesis
    by (auto simp: disasm_pre_def psycho_disasm_trace_begin_def psycho_bus_peek_word_def Let_def
        logs_only_def elim!: bind_eq_SomeE dest!: word_port.load_logs disasm_instr_logs)
qed (use assms in \<open>simp add: disasm_pre_def\<close>)

lemma disasm_pre_calm: "disasm_pre ctx = Some c \<Longrightarrow> calm ctx c"
  by (rule logs_only_calm) (rule disasm_pre_logs)

lemma bios_pre_calm:
  assumes "psycho_bios_trace_begin ctx = Some c"
  shows "calm ctx c"
proof (cases "traced_call ctx")
  case True
  with assms obtain d where d: "(if enable_tty_output (bios_trace ctx)
      then handle_tty_output (set_func ctx) else Some (set_func ctx)) = Some d"
    and c: "process_prototype d = Some c"
    by (auto simp: trace_begin_call elim!: bind_eq_SomeE)
  have "calm (set_func ctx) d"
    using d handle_tty_calm by (auto simp: calm_eq split: if_splits)
  moreover have "calm d c"
    using c by (auto simp: process_prototype_def calm_eq elim!: bind_eq_SomeE)
  ultimately show ?thesis by (auto simp: set_func_def elim: calm_trans)
next
  case False
  with assms show ?thesis by (simp add: trace_begin_idle calm_eq)
qed

text \<open>The hooks behind the CPU deliver log messages only.\<close>

definition silent :: "psycho_ctx \<Rightarrow> psycho_ctx \<Rightarrow> bool" where
  "silent s t \<longleftrightarrow> (\<exists>evs. event_trace t = event_trace s @ evs
     \<and> PSYCHO_EVENT_CPU_ILLEGAL \<notin> set evs \<and> (\<forall>d. PSYCHO_EVENT_TTY_MESSAGE d \<notin> set evs))"

lemma silent_eq: "event_trace t = event_trace s \<Longrightarrow> silent s t"
  by (simp add: silent_def)

lemma silent_trans: "silent s t \<Longrightarrow> silent t u \<Longrightarrow> silent s u"
  by (fastforce simp: silent_def)

lemma silent_bios_update [simp]: "silent s (bios_trace_update f t) = silent s t"
  by (simp add: silent_def)

lemma dispatch_silent: "psycho_log_message_dispatch ctx m l s = Some ctx' \<Longrightarrow> silent ctx ctx'"
  by (auto simp: psycho_log_message_dispatch_def Let_def silent_def split: if_splits
      elim!: bind_eq_SomeE)

lemma LOG_HANDLE_silent: "LOG_HANDLE m l ctx s = Some c \<Longrightarrow> silent ctx c"
  by (auto simp: LOG_HANDLE_def silent_eq dest: dispatch_silent split: if_splits)

lemma disasm_post_silent: "disasm_post ctx = Some c \<Longrightarrow> silent ctx c"
  by (auto simp: disasm_post_def psycho_disasm_trace_end_def silent_eq
      dest!: LOG_HANDLE_silent split: if_splits)

lemma bios_post_silent: "psycho_bios_trace_end ctx = Some c \<Longrightarrow> silent ctx c"
  by (auto simp: psycho_bios_trace_end_def LOG_HANDLE_array_def silent_eq
      dest!: dispatch_silent elim!: bind_eq_SomeE split: if_splits)

text \<open>The events of a step: those up to the CPU's, then those of the CPU and behind it.\<close>

lemma step_events_split:
  assumes "ctx_inv ctx" "psycho_step ctx = Some ctx'"
  obtains before after where "event_trace ctx' = event_trace ctx @ before @ after"
    "PSYCHO_EVENT_CPU_ILLEGAL \<notin> set before" "\<And>d. PSYCHO_EVENT_TTY_MESSAGE d \<notin> set after"
    "PSYCHO_EVENT_CPU_ILLEGAL \<in> set after \<longleftrightarrow> \<not> decodes (fetched_instr ctx)"
    "\<And>d. PSYCHO_EVENT_TTY_MESSAGE d \<in> set before \<Longrightarrow> NUL \<in> set d"
proof -
  obtain b c d where b: "pre_hooks ctx = Some b" and c: "psycho_cpu_step b = Some c"
    and d: "disasm_post c = Some d" "psycho_bios_trace_end d = Some ctx'"
    using assms(2) by (auto simp: psycho_step_split elim!: bind_eq_SomeE)
  have pre: "calm ctx b"
    using b by (auto simp: pre_hooks_def elim!: bind_eq_SomeE
        dest!: disasm_pre_calm bios_pre_calm elim: calm_trans)
  have post: "silent c ctx'"
    using d by (auto dest!: disasm_post_silent bios_post_silent elim: silent_trans)
  have inv: "ctx_inv b" "same_machine b ctx" using pre_hooks_facts(2) [OF assms(1) b] by simp_all
  have "rel_option same_machine (cpu_fetch b) (cpu_fetch ctx)"
    using inv(2) assms(1) by (intro cpu_fetch_same) (simp_all add: ctx_inv_def cpu_inv_def)
  then have fi: "fetched_instr b = fetched_instr ctx"
    by (cases "cpu_fetch b"; cases "cpu_fetch ctx") (auto simp: fetched_instr_def same_machine_def)
  have cpu: "reports (\<not> decodes (fetched_instr ctx)) b c"
    using cpu_step_reports [OF _ c] inv(1) by (simp add: ctx_inv_def fi)
  from pre obtain e1 where e1: "event_trace b = event_trace ctx @ e1"
    "PSYCHO_EVENT_CPU_ILLEGAL \<notin> set e1" "\<And>d. PSYCHO_EVENT_TTY_MESSAGE d \<in> set e1 \<Longrightarrow> NUL \<in> set d"
    by (auto simp: calm_def)
  from post obtain e3 where e3: "event_trace ctx' = event_trace c @ e3"
    "PSYCHO_EVENT_CPU_ILLEGAL \<notin> set e3" "\<And>d. PSYCHO_EVENT_TTY_MESSAGE d \<notin> set e3"
    by (auto simp: silent_def)
  from cpu obtain e2 where e2: "event_trace c = event_trace b @ e2
      @ (if \<not> decodes (fetched_instr ctx) then [PSYCHO_EVENT_CPU_ILLEGAL] else [])"
    "\<forall>ev \<in> set e2. is_log ev"
    by (auto simp: reports_def)
  then have "PSYCHO_EVENT_CPU_ILLEGAL \<notin> set e2" "\<And>d. PSYCHO_EVENT_TTY_MESSAGE d \<notin> set e2"
    by auto
  with e1 e2 e3 show thesis
    by (intro that [of e1 "e2 @ (if \<not> decodes (fetched_instr ctx)
      then [PSYCHO_EVENT_CPU_ILLEGAL] else []) @ e3"]) auto
qed

lemma step_events:
  assumes "ctx_inv ctx" "psycho_step ctx = Some ctx'"
  obtains evs where "event_trace ctx' = event_trace ctx @ evs"
    "PSYCHO_EVENT_CPU_ILLEGAL \<in> set evs \<longleftrightarrow> \<not> decodes (fetched_instr ctx)"
    "\<And>d. PSYCHO_EVENT_TTY_MESSAGE d \<in> set evs \<Longrightarrow> NUL \<in> set d"
proof (rule step_events_split [OF assms])
  fix before after
  assume "event_trace ctx' = event_trace ctx @ before @ after"
    "PSYCHO_EVENT_CPU_ILLEGAL \<notin> set before" "\<And>d. PSYCHO_EVENT_TTY_MESSAGE d \<notin> set after"
    "PSYCHO_EVENT_CPU_ILLEGAL \<in> set after \<longleftrightarrow> \<not> decodes (fetched_instr ctx)"
    "\<And>d. PSYCHO_EVENT_TTY_MESSAGE d \<in> set before \<Longrightarrow> NUL \<in> set d"
  then show thesis by (intro that [of "before @ after"]) auto
qed

end
