(* ===== verification/App_Facts.thy ===== *)
theory App_Facts
  imports App Ctx_Events Cpu_Control
begin

text \<open>
  What the application does with the library: when it starts, what every turn of its loop keeps
  and how it stops, which files and blocks it holds, and what it writes.
\<close>

section \<open>The invariant\<close>

definition emu_inv :: "emulator \<Rightarrow> bool" where
  "emu_inv emu \<longleftrightarrow> ctx_inv (emu_ctx emu) \<and> exe_size emu = buf_size (exe_data emu)"

lemma sum_case_InrE:
  assumes "(case x of Inl s \<Rightarrow> Inl s | Inr y \<Rightarrow> f y) = Inr z"
  obtains y where "x = Inr y" "f y = Inr z"
  using assms by (cases x) auto

lemma option_case_InrE:
  assumes "(case x of None \<Rightarrow> Inl s | Some y \<Rightarrow> f y) = Inr z"
  obtains y where "x = Some y" "f y = Inr z"
  using assms by (cases x) auto

lemma load_at_shell_inv:
  assumes "emu_inv emu" "load_at_shell emu = Inr ctx"
  shows "ctx_inv ctx"
proof (cases "pc (cpu (emu_ctx emu)) = 0x80030000")
  case True
  then obtain code c where "psycho_exe_load (emu_ctx emu) (exe_data emu) (exe_size emu) = Some (code, c)"
    and ctx: "ctx = psycho_disasm_trace_instruction_enable
      (psycho_log_level_set_global c PSYCHO_LOG_LEVEL_TRACE) True"
    using assms(2) by (auto simp: load_at_shell_def Let_def split: option.splits if_splits)
  then have "ctx_inv c"
    using assms(1) exe_load_inv [of "emu_ctx emu" "exe_size emu" "exe_data emu" code c]
    by (simp add: emu_inv_def)
  then show ?thesis unfolding ctx by (intro setting_inv)
next
  case False
  with assms show ?thesis by (simp add: load_at_shell_def Let_def emu_inv_def)
qed

lemma main_turn_inv:
  assumes "emu_inv emu" "main_turn emu = Inr emu'"
  shows "emu_inv emu'"
proof -
  obtain ctx ctx' h where "load_at_shell emu = Inr ctx" "psycho_step ctx = Some ctx'"
    and emu': "emu' = emu\<lparr>emu_ctx := ctx', emu_host := h\<rparr>"
    using assms(2) unfolding main_turn_def by (auto elim!: sum_case_InrE option_case_InrE)
  then have "ctx_inv ctx'" using load_at_shell_inv [OF assms(1)] step_inv by blast
  then show ?thesis using assms(1) by (simp add: emu' emu_inv_def)
qed

section \<open>What the event handlers write\<close>

fun colours :: "psycho_log_level \<Rightarrow> string \<times> string" where
  "colours PSYCHO_LOG_LEVEL_INFO = (BWHT, COLOR_RESET)"
| "colours PSYCHO_LOG_LEVEL_WARN = (BYEL, COLOR_RESET)"
| "colours PSYCHO_LOG_LEVEL_ERROR = (BRED, COLOR_RESET)"
| "colours _ = ([], [])"

fun log_shown :: "psycho_event \<Rightarrow> string" where
  "log_shown (PSYCHO_EVENT_LOG_MESSAGE msg) =
     fst (colours (msg_level msg)) @ c_str (msg_text msg) @ [newline] @ snd (colours (msg_level msg))"
| "log_shown _ = []"

fun tty_shown :: "psycho_event \<Rightarrow> string" where
  "tty_shown (PSYCHO_EVENT_TTY_MESSAGE data) = c_str data"
| "tty_shown _ = []"

definition log_output :: "psycho_event list \<Rightarrow> string" where
  "log_output evs = concat (map log_shown evs)"

definition tty_output :: "psycho_event list \<Rightarrow> string" where
  "tty_output evs = concat (map tty_shown evs)"

lemma output_simps [simp]:
  "log_output [] = []" "log_output (xs @ ys) = log_output xs @ log_output ys"
  "log_output (ev # xs) = log_shown ev @ log_output xs"
  "tty_output [] = []" "tty_output (xs @ ys) = tty_output xs @ tty_output ys"
  "tty_output (ev # xs) = tty_shown ev @ tty_output xs"
  by (simp_all add: log_output_def tty_output_def)

text \<open>
  The host shows a list of events: all log lines have been given to standard output, which has
  not been flushed, and all TTY text is on the disk.
\<close>

definition shows_events :: "host \<Rightarrow> psycho_event list \<Rightarrow> bool" where
  "shows_events h evs \<longleftrightarrow> host_stdout h = \<lparr>on_disk = [], unwritten = log_output evs\<rparr>
     \<and> (\<forall>f. tty_file h = Some f \<longrightarrow> f = \<lparr>on_disk = tty_output evs, unwritten = []\<rparr>)"

definition same_holdings :: "host \<Rightarrow> host \<Rightarrow> bool" where
  "same_holdings h h' \<longleftrightarrow> open_files h' = open_files h \<and> heap_blocks h' = heap_blocks h
     \<and> host_stderr h' = host_stderr h \<and> (tty_file h' = None \<longleftrightarrow> tty_file h = None)"

lemma same_holdings_refl [simp]: "same_holdings h h"
  by (simp add: same_holdings_def)

lemma same_holdings_trans: "same_holdings h1 h2 \<Longrightarrow> same_holdings h2 h3 \<Longrightarrow> same_holdings h1 h3"
  by (simp add: same_holdings_def)

lemma event_trap_iff: "ctx_event_handle h ev = Inl (Trap h') \<longleftrightarrow> ev = PSYCHO_EVENT_CPU_ILLEGAL \<and> h' = h"
  by (cases ev) (auto simp: handle_cpu_illegal_instr_def handle_log_message_def Let_def
      handle_tty_message_def split: psycho_log_level.split option.split)

lemma log_message_shown:
  "handle_log_message h msg = Inr (printf h (log_shown (PSYCHO_EVENT_LOG_MESSAGE msg)))"
  by (simp add: handle_log_message_def Let_def split: psycho_log_level.split)

lemma tty_message_shown:
  assumes "tty_file h = Some f"
  shows "handle_tty_message h d = (if NUL \<in> set d
    then Inr (h\<lparr>tty_file := Some \<lparr>on_disk = on_disk f @ unwritten f @ tty_shown (PSYCHO_EVENT_TTY_MESSAGE d),
      unwritten = []\<rparr>\<rparr>) else Inl Undefined)"
  by (simp add: handle_tty_message_def assms c_string_of_def fflush_def fprintf_def)

lemma event_shown:
  assumes "ctx_event_handle h ev = Inr h'"
  shows "shows_events h old \<Longrightarrow> shows_events h' (old @ [ev])" and "same_holdings h h'"
proof -
  have "(shows_events h old \<longrightarrow> shows_events h' (old @ [ev])) \<and> same_holdings h h'"
  proof (cases ev)
    case (PSYCHO_EVENT_TTY_MESSAGE d)
    with assms have d: "handle_tty_message h d = Inr h'" by simp
    then obtain f where f: "tty_file h = Some f"
      by (cases "tty_file h") (simp_all add: handle_tty_message_def)
    with d have "NUL \<in> set d" and h': "h' = h\<lparr>tty_file := Some \<lparr>on_disk =
        on_disk f @ unwritten f @ tty_shown ev, unwritten = []\<rparr>\<rparr>"
      by (simp_all add: tty_message_shown PSYCHO_EVENT_TTY_MESSAGE split: if_splits)
    with f show ?thesis by (simp add: shows_events_def same_holdings_def PSYCHO_EVENT_TTY_MESSAGE)
  qed (use assms in \<open>auto simp: handle_cpu_illegal_instr_def log_message_shown shows_events_def
         same_holdings_def printf_def fprintf_def\<close>)
  then show "shows_events h old \<Longrightarrow> shows_events h' (old @ [ev])" and "same_holdings h h'" by auto
qed

lemma events_shown:
  assumes "shows_events h old" "handle_events h evs = Inr h'"
  shows "shows_events h' (old @ evs) \<and> same_holdings h h'"
  using assms
proof (induction evs arbitrary: h old)
  case (Cons ev evs)
  then obtain h1 where h1: "ctx_event_handle h ev = Inr h1" "handle_events h1 evs = Inr h'"
    by (auto split: sum.splits)
  with Cons.IH [OF event_shown(1) [OF h1(1) Cons.prems(1)]] event_shown(2) [OF h1(1)]
  show ?case by (auto intro: same_holdings_trans)
qed simp

lemma events_shown_until_trap:
  assumes "shows_events h old" "handle_events h evs = Inl (Trap h')"
  shows "\<exists>before after. evs = before @ PSYCHO_EVENT_CPU_ILLEGAL # after
    \<and> shows_events h' (old @ before) \<and> same_holdings h h'"
  using assms
proof (induction evs arbitrary: h old)
  case (Cons ev evs)
  show ?case
  proof (cases "ctx_event_handle h ev")
    case (Inl s)
    with Cons.prems have "ev = PSYCHO_EVENT_CPU_ILLEGAL \<and> h' = h" by (simp add: event_trap_iff)
    with Cons.prems(1) show ?thesis by (intro exI [of _ "[]"] exI [of _ evs]) auto
  next
    case (Inr h1)
    with Cons.prems Cons.IH [OF event_shown(1) [OF Inr Cons.prems(1)]]
    obtain before after where "evs = before @ PSYCHO_EVENT_CPU_ILLEGAL # after"
      "shows_events h' ((old @ [ev]) @ before)" "same_holdings h1 h'" by auto
    with event_shown(2) [OF Inr] show ?thesis
      by (intro exI [of _ "ev # before"] exI [of _ after]) (auto intro: same_holdings_trans)
  qed
qed simp

section \<open>How a turn stops\<close>

lemma events_accepted:
  assumes "\<And>d. PSYCHO_EVENT_TTY_MESSAGE d \<in> set evs \<Longrightarrow> tty_file h \<noteq> None \<and> NUL \<in> set d"
  shows "(\<exists>h'. handle_events h evs = Inl (Trap h')) \<longleftrightarrow> PSYCHO_EVENT_CPU_ILLEGAL \<in> set evs"
    and "handle_events h evs \<noteq> Inl Undefined"
proof -
  have "handle_events h evs \<noteq> Inl Undefined \<and>
    ((\<exists>h'. handle_events h evs = Inl (Trap h')) \<longleftrightarrow> PSYCHO_EVENT_CPU_ILLEGAL \<in> set evs)"
    using assms
  proof (induction evs arbitrary: h)
    case (Cons ev evs)
    show ?case
    proof (cases "ev = PSYCHO_EVENT_CPU_ILLEGAL")
      case True
      then show ?thesis by (simp add: handle_cpu_illegal_instr_def)
    next
      case False
      have "\<exists>h'. ctx_event_handle h ev = Inr h'"
      proof (cases ev)
        case (PSYCHO_EVENT_TTY_MESSAGE d)
        then have "tty_file h \<noteq> None" "NUL \<in> set d" using Cons.prems [of d] by simp_all
        then show ?thesis by (auto simp: tty_message_shown PSYCHO_EVENT_TTY_MESSAGE)
      qed (use False in \<open>simp_all add: log_message_shown\<close>)
      then obtain h' where h': "ctx_event_handle h ev = Inr h'" ..
      then have "tty_file h' = None \<longleftrightarrow> tty_file h = None"
        using event_shown(2) by (auto simp: same_holdings_def)
      then have "tty_file h' \<noteq> None \<and> NUL \<in> set d" if "PSYCHO_EVENT_TTY_MESSAGE d \<in> set evs" for d
        using Cons.prems [of d] that by simp
      from Cons.IH [OF this] False h' show ?thesis by simp
    qed
  qed simp
  then show "(\<exists>h'. handle_events h evs = Inl (Trap h')) \<longleftrightarrow> PSYCHO_EVENT_CPU_ILLEGAL \<in> set evs"
    and "handle_events h evs \<noteq> Inl Undefined" by blast+
qed

text \<open>Without the file, a TTY message is printed through a null pointer.\<close>

lemma events_unopened:
  assumes "tty_file h = None" "PSYCHO_EVENT_TTY_MESSAGE d \<in> set before"
    and "PSYCHO_EVENT_CPU_ILLEGAL \<notin> set before"
  shows "handle_events h (before @ after) = Inl Undefined"
  using assms
proof (induction before arbitrary: h)
  case (Cons ev before)
  show ?case
  proof (cases "\<exists>d. ev = PSYCHO_EVENT_TTY_MESSAGE d")
    case True
    with Cons.prems(1) show ?thesis by (auto simp: handle_tty_message_def)
  next
    case False
    then obtain h' where h': "ctx_event_handle h ev = Inr h'"
      using Cons.prems(3) by (cases ev) (auto simp: log_message_shown)
    then have "tty_file h' = None" using event_shown(2) Cons.prems(1) by (auto simp: same_holdings_def)
    moreover have "PSYCHO_EVENT_TTY_MESSAGE d \<in> set before" using Cons.prems(2) False by auto
    ultimately show ?thesis using Cons.IH [of h'] Cons.prems(3) h' by simp
  qed
qed simp

lemma exe_load_calm:
  assumes "psycho_exe_load ctx exe n = Some (code, ctx')"
  shows "calm ctx ctx'"
  using assms
  by (auto simp: psycho_exe_load_def set_reg_def Let_def calm_eq elim!: bind_eq_SomeE
      intro!: calm_log_emit split: if_splits)

lemma load_at_shell_calm:
  assumes "load_at_shell emu = Inr ctx"
  shows "calm (emu_ctx emu) ctx"
  using assms exe_load_calm [of "emu_ctx emu" "exe_data emu" "exe_size emu"]
  by (fastforce simp: load_at_shell_def Let_def psycho_disasm_trace_instruction_enable_def
      psycho_log_level_set_global_def calm_def split: option.splits if_splits)

lemma return_code_nonzero: "return_code_value code \<noteq> 0"
  by (cases code) simp_all

lemma load_at_shell_total:
  "load_at_shell emu \<noteq> Inl (Trap h)"
  "load_at_shell emu = Inl Undefined \<longleftrightarrow> pc (cpu (emu_ctx emu)) = 0x80030000
     \<and> psycho_exe_load (emu_ctx emu) (exe_data emu) (exe_size emu) = None"
  by (simp_all add: load_at_shell_def Let_def return_code_nonzero split: option.split prod.split)

lemma turn_events:
  assumes "emu_inv emu" "load_at_shell emu = Inr ctx" "psycho_step ctx = Some ctx'"
  shows "event_trace ctx' = event_trace (emu_ctx emu) @ new_events (emu_ctx emu) ctx'"
    and "PSYCHO_EVENT_CPU_ILLEGAL \<in> set (new_events (emu_ctx emu) ctx') \<longleftrightarrow> \<not> decodes (fetched_instr ctx)"
    and "PSYCHO_EVENT_TTY_MESSAGE d \<in> set (new_events (emu_ctx emu) ctx') \<Longrightarrow> NUL \<in> set d"
    and "\<exists>before after. new_events (emu_ctx emu) ctx' = before @ after
      \<and> PSYCHO_EVENT_CPU_ILLEGAL \<notin> set before \<and> (\<forall>d. PSYCHO_EVENT_TTY_MESSAGE d \<notin> set after)"
proof -
  obtain e1 where e1: "event_trace ctx = event_trace (emu_ctx emu) @ e1"
    "PSYCHO_EVENT_CPU_ILLEGAL \<notin> set e1"
    "\<And>d. PSYCHO_EVENT_TTY_MESSAGE d \<in> set e1 \<Longrightarrow> NUL \<in> set d"
    using load_at_shell_calm [OF assms(2)] by (auto simp: calm_def)
  obtain b a where e2: "event_trace ctx' = event_trace ctx @ b @ a"
    "PSYCHO_EVENT_CPU_ILLEGAL \<notin> set b" "\<And>d. PSYCHO_EVENT_TTY_MESSAGE d \<notin> set a"
    "PSYCHO_EVENT_CPU_ILLEGAL \<in> set a \<longleftrightarrow> \<not> decodes (fetched_instr ctx)"
    "\<And>d. PSYCHO_EVENT_TTY_MESSAGE d \<in> set b \<Longrightarrow> NUL \<in> set d"
    by (rule step_events_split [OF load_at_shell_inv [OF assms(1,2)] assms(3)]) blast
  have new: "new_events (emu_ctx emu) ctx' = (e1 @ b) @ a" by (simp add: new_events_def e1(1) e2(1))
  show "event_trace ctx' = event_trace (emu_ctx emu) @ new_events (emu_ctx emu) ctx'"
    by (simp add: new e1(1) e2(1))
  show "PSYCHO_EVENT_CPU_ILLEGAL \<in> set (new_events (emu_ctx emu) ctx') \<longleftrightarrow> \<not> decodes (fetched_instr ctx)"
    using e1(2) e2(2,4) by (simp add: new)
  show "PSYCHO_EVENT_TTY_MESSAGE d \<in> set (new_events (emu_ctx emu) ctx') \<Longrightarrow> NUL \<in> set d"
    using e1(3) e2(3,5) by (auto simp: new)
  show "\<exists>before after. new_events (emu_ctx emu) ctx' = before @ after
      \<and> PSYCHO_EVENT_CPU_ILLEGAL \<notin> set before \<and> (\<forall>d. PSYCHO_EVENT_TTY_MESSAGE d \<notin> set after)"
    using e1(2) e2(2,3) new by (intro exI [of _ "e1 @ b"] exI [of _ a]) simp
qed

text \<open>A TTY message among the events of a turn, with no file to take it.\<close>

definition tty_unopened :: "emulator \<Rightarrow> psycho_ctx \<Rightarrow> bool" where
  "tty_unopened emu ctx' \<longleftrightarrow> tty_file (emu_host emu) = None
     \<and> (\<exists>d. PSYCHO_EVENT_TTY_MESSAGE d \<in> set (new_events (emu_ctx emu) ctx'))"

lemma turn_handles:
  assumes "emu_inv emu" "load_at_shell emu = Inr ctx" "psycho_step ctx = Some ctx'"
  shows "main_turn emu = Inl Undefined \<longleftrightarrow> tty_unopened emu ctx'"
    and "(\<exists>h. main_turn emu = Inl (Trap h)) \<longleftrightarrow> \<not> tty_unopened emu ctx' \<and> \<not> decodes (fetched_instr ctx)"
proof -
  let ?evs = "new_events (emu_ctx emu) ctx'"
  note evs = turn_events [OF assms]
  have turn: "(main_turn emu = Inl Undefined \<longleftrightarrow> handle_events (emu_host emu) ?evs = Inl Undefined)
    \<and> ((\<exists>h. main_turn emu = Inl (Trap h)) \<longleftrightarrow> (\<exists>h. handle_events (emu_host emu) ?evs = Inl (Trap h)))"
    using assms(2,3) by (simp add: main_turn_def split: sum.split)
  have "(handle_events (emu_host emu) ?evs = Inl Undefined \<longleftrightarrow> tty_unopened emu ctx')
    \<and> ((\<exists>h. handle_events (emu_host emu) ?evs = Inl (Trap h))
      \<longleftrightarrow> \<not> tty_unopened emu ctx' \<and> \<not> decodes (fetched_instr ctx))"
  proof (cases "tty_unopened emu ctx'")
    case True
    then obtain d where d: "tty_file (emu_host emu) = None" "PSYCHO_EVENT_TTY_MESSAGE d \<in> set ?evs"
      by (auto simp: tty_unopened_def)
    obtain before after where split: "?evs = before @ after" "PSYCHO_EVENT_CPU_ILLEGAL \<notin> set before"
      "\<forall>d. PSYCHO_EVENT_TTY_MESSAGE d \<notin> set after" using evs(4) by blast
    then have "PSYCHO_EVENT_TTY_MESSAGE d \<in> set before" using d(2) by auto
    from events_unopened [OF d(1) this split(2)] show ?thesis using True by (simp add: split(1))
  next
    case False
    then have "\<And>d. PSYCHO_EVENT_TTY_MESSAGE d \<in> set ?evs \<Longrightarrow> tty_file (emu_host emu) \<noteq> None \<and> NUL \<in> set d"
      using evs(3) by (auto simp: tty_unopened_def)
    from events_accepted [OF this] evs(2) False show ?thesis by simp
  qed
  with turn show "main_turn emu = Inl Undefined \<longleftrightarrow> tty_unopened emu ctx'"
    and "(\<exists>h. main_turn emu = Inl (Trap h)) \<longleftrightarrow> \<not> tty_unopened emu ctx' \<and> \<not> decodes (fetched_instr ctx)"
    by simp_all
qed

lemma main_turn_stops:
  assumes "emu_inv emu" "tty_file (emu_host emu) \<noteq> None" "load_at_shell emu = Inr ctx"
  shows "(main_turn emu = Inl Undefined \<longleftrightarrow> psycho_step ctx = None)
    \<and> ((\<exists>h. main_turn emu = Inl (Trap h)) \<longleftrightarrow> psycho_step ctx \<noteq> None \<and> \<not> decodes (fetched_instr ctx))"
proof (cases "psycho_step ctx")
  case None
  with assms(3) show ?thesis by (simp add: main_turn_def)
next
  case (Some ctx')
  with turn_handles [OF assms(1,3) Some] assms(2) show ?thesis by (simp add: tty_unopened_def)
qed

text \<open>When the loader leaves the image or the RAM.\<close>

lemma loader_undefined:
  assumes "emu_inv emu"
  shows "load_at_shell emu = Inl Undefined \<longleftrightarrow> pc (cpu (emu_ctx emu)) = 0x80030000
    \<and> 0x800 \<le> exe_size emu \<and> exe_has_id (exe_data emu)
    \<and> \<not> (0x800 + exe_size_field (exe_data emu) \<le> exe_size emu
        \<and> exe_dst (exe_data emu) + exe_size_field (exe_data emu) \<le> 0x200000)"
proof -
  have size: "exe_size emu = buf_size (exe_data emu)" and inv: "ctx_inv (emu_ctx emu)"
    using assms by (simp_all add: emu_inv_def)
  have ram: "buf_size (ram (bus (emu_ctx emu))) = 0x200000"
    and len: "length (gpr (cpu (emu_ctx emu))) = CPU_GPR_NUM"
    using inv by (simp_all add: ctx_inv_def cpu_inv_def bus_sized_iff cpu_shape_def)
  have "psycho_exe_load (emu_ctx emu) (exe_data emu) (exe_size emu) = None
      \<longleftrightarrow> 0x800 \<le> exe_size emu \<and> exe_has_id (exe_data emu)
        \<and> \<not> (0x800 + exe_size_field (exe_data emu) \<le> exe_size emu
          \<and> exe_dst (exe_data emu) + exe_size_field (exe_data emu) \<le> 0x200000)"
  proof (cases "exe_size emu < 0x800")
    case True
    then show ?thesis by (simp add: psycho_exe_load_def EXE_MIN_SIZE_def)
  next
    case False
    then show ?thesis
      using exe_load_bad(2) [of "exe_data emu" "exe_size emu" "emu_ctx emu"]
        exe_load_good [of "exe_data emu" "exe_size emu" "emu_ctx emu"] len
      by (cases "exe_has_id (exe_data emu)") (simp_all add: size ram)
  qed
  then show ?thesis unfolding load_at_shell_total(2) by blast
qed

section \<open>Starting\<close>

text \<open>A file that can be opened and of which \<open>n\<close> bytes can be read.\<close>

definition readable :: "environment \<Rightarrow> string \<Rightarrow> (host_file \<Rightarrow> nat) \<Rightarrow> bool" where
  "readable env path n \<longleftrightarrow> (\<exists>f. files env path = Some f \<and> openable f \<and> \<not> read_error f
     \<and> n f \<le> length (content f))"

text \<open>\<^verbatim>\<open>malloc\<close> fails for the file, and the null pointer is read into.\<close>

definition starved :: "environment \<Rightarrow> string \<Rightarrow> bool" where
  "starved env path \<longleftrightarrow> (\<exists>f. files env path = Some f \<and> openable f \<and> 0 < st_size f
     \<and> \<not> malloc_serves env (st_size f))"

lemma load_bios_file_cases:
  assumes "load_bios_file env h b p = (ok, b', h')"
  shows "ok \<longleftrightarrow> readable env p (\<lambda>_. buf_size b)" "buf_size b' = buf_size b"
    "h' = (if ok then fopen h p else h)"
    "ok \<Longrightarrow> files env p = Some f \<Longrightarrow> i < buf_size b \<Longrightarrow> buf_byte b' i = content f ! i"
  using assms
  by (auto simp: load_bios_file_def readable_def fread_count_def fread_into_def fopen_def fclose_def
      Let_def split: option.splits if_splits)

lemma load_exe_file_cases:
  "case load_exe_file env h p of
     Inl s \<Rightarrow> s = Undefined \<and> starved env p
   | Inr (None, h') \<Rightarrow> \<not> starved env p \<and> \<not> readable env p st_size \<and> h' = h
   | Inr (Some (exe, n), h') \<Rightarrow> \<not> starved env p \<and> readable env p st_size \<and> n = buf_size exe
       \<and> h' = (fopen h p)\<lparr>heap_blocks := n # heap_blocks h\<rparr>"
  by (auto simp: load_exe_file_def readable_def starved_def fread_count_def fread_into_def fopen_def
      fclose_def zero_buffer_def Let_def split: option.split)

text \<open>The host of a run that has been set up, given the size of the image.\<close>

definition started_host :: "environment \<Rightarrow> string list \<Rightarrow> nat \<Rightarrow> host" where
  "started_host env argv n = \<lparr>host_stdout = \<lparr>on_disk = [], unwritten = []\<rparr>, host_stderr = [],
     open_files = (if tty_opens env then [''tty_file.txt''] else []) @ [argv ! 2, argv ! 1],
     heap_blocks = [n],
     tty_file = (if tty_opens env then Some \<lparr>on_disk = [], unwritten = []\<rparr> else None)\<rparr>"

text \<open>The context of a run that has been set up, given the array of the BIOS.\<close>

definition setup_ctx :: "buffer \<Rightarrow> psycho_ctx" where
  "setup_ctx b = psycho_disasm_trace_instruction_enable (psycho_log_level_set_global
     (psycho_tty_stdout_enable (psycho_init zero_ctx
       \<lparr>ram_data = zero_buffer (unat RAM_SIZE), bios_data = b\<rparr>) True) PSYCHO_LOG_LEVEL_TRACE) True"

lemma setup_ctx_inv: "buf_size b = 0x7FFFF \<Longrightarrow> ctx_inv (setup_ctx b)"
  unfolding setup_ctx_def
  by (intro setting_inv init_inv) (simp add: cfg_sized_def zero_buffer_def region_consts)

lemma setup_ctx_parts:
  "cpu (setup_ctx b) = zero_cpu\<lparr>pc := 0xBFC00000, next_pc := 0xBFC00004, curr_pc := 0xBFC00000\<rparr>"
  "bios (bus (setup_ctx b)) = b" "event_trace (setup_ctx b) = []"
  by (simp_all add: setup_ctx_def psycho_tty_stdout_enable_def psycho_log_level_set_global_def
      psycho_disasm_trace_instruction_enable_def init_parts zero_ctx_parts zero_ctx_def zero_cpu_def
      RESET_PC_def)

lemma setup_ctx_trace:
  "bios_trace (setup_ctx b) = (bios_trace zero_ctx)\<lparr>enable_tty_output := True\<rparr>"
  by (simp add: setup_ctx_def psycho_tty_stdout_enable_def psycho_log_level_set_global_def
      psycho_disasm_trace_instruction_enable_def init_parts)

text \<open>The array holds the front of the file.\<close>

definition holds_file :: "buffer \<Rightarrow> environment \<Rightarrow> string \<Rightarrow> bool" where
  "holds_file b env path \<longleftrightarrow> buf_size b = 0x7FFFF
     \<and> (\<exists>f. files env path = Some f \<and> 0x7FFFF \<le> length (content f)
         \<and> (\<forall>i < 0x7FFFF. buf_byte b i = content f ! i))"

definition startable :: "environment \<Rightarrow> string list \<Rightarrow> bool" where
  "startable env argv \<longleftrightarrow> 3 \<le> length argv \<and> readable env (argv ! 1) (\<lambda>_. 0x7FFFF)
     \<and> readable env (argv ! 2) st_size \<and> \<not> starved env (argv ! 2)"

lemma loaded_bios:
  assumes "load_bios_file env no_host (zero_buffer (unat BIOS_SIZE)) path = (True, b, h)"
  shows "holds_file b env path" "ctx_inv (setup_ctx b)"
proof -
  have size: "buf_size (zero_buffer (unat BIOS_SIZE)) = 0x7FFFF"
    by (simp add: zero_buffer_def region_consts)
  note bios = load_bios_file_cases [OF assms, unfolded size]
  show "holds_file b env path" using bios(1,2) bios(4) by (auto simp: holds_file_def readable_def)
  show "ctx_inv (setup_ctx b)" using bios(2) by (rule setup_ctx_inv)
qed

lemma main_setup_cases:
  "case main_setup env argv of
     Running emu \<Rightarrow> startable env argv \<and> emu_inv emu
       \<and> (\<exists>b. emu_ctx emu = setup_ctx b \<and> holds_file b env (argv ! 1))
       \<and> emu_host emu = started_host env argv (exe_size emu)
   | Aborted s \<Rightarrow> s = Undefined \<and> (argv = [] \<or> 3 \<le> length argv
       \<and> readable env (argv ! 1) (\<lambda>_. 0x7FFFF) \<and> starved env (argv ! 2))
   | Exit code h \<Rightarrow> \<not> startable env argv \<and> argv \<noteq> [] \<and> code = 1 \<and> heap_blocks h = []
       \<and> host_stderr h \<noteq> [] \<and> host_stdout h = \<lparr>on_disk = [], unwritten = []\<rparr> \<and> tty_file h = None
       \<and> open_files h = (if 3 \<le> length argv \<and> readable env (argv ! 1) (\<lambda>_. 0x7FFFF)
           then [argv ! 1] else [])
       \<and> \<not> (3 \<le> length argv \<and> readable env (argv ! 1) (\<lambda>_. 0x7FFFF) \<and> starved env (argv ! 2))"
proof (cases "3 \<le> length argv")
  case False
  then show ?thesis
    by (simp add: main_setup_def print_error_def no_host_def EXIT_FAILURE_def startable_def)
next
  case True
  let ?b = "zero_buffer (unat BIOS_SIZE)"
  obtain ok b h where l: "load_bios_file env no_host ?b (argv ! 1) = (ok, b, h)"
    by (cases "load_bios_file env no_host ?b (argv ! 1)")
  have size: "buf_size ?b = 0x7FFFF" by (simp add: zero_buffer_def region_consts)
  note bios = load_bios_file_cases [OF l, unfolded size]
  show ?thesis
  proof (cases ok)
    case False
    with True l bios show ?thesis
      by (auto simp: main_setup_def print_error_def no_host_def EXIT_FAILURE_def startable_def)
  next
    case ok: True
    note exe = load_exe_file_cases [of env "argv ! 2" h]
    have start: "holds_file b env (argv ! 1)" "ctx_inv (setup_ctx b)"
      using l ok loaded_bios [of env "argv ! 1" b h] by simp_all
    consider (starved) s where "load_exe_file env h (argv ! 2) = Inl s"
      | (unread) h' where "load_exe_file env h (argv ! 2) = Inr (None, h')"
      | (loaded) e n h' where "load_exe_file env h (argv ! 2) = Inr (Some (e, n), h')"
      by (metis sum.exhaust option.exhaust prod.exhaust)
    then show ?thesis
    proof cases
      case starved
      with True ok l bios exe show ?thesis by (auto simp: main_setup_def)
    next
      case unread
      with True ok l bios exe show ?thesis
        by (auto simp: main_setup_def print_error_def no_host_def EXIT_FAILURE_def startable_def
            fopen_def)
    next
      case loaded
      with True ok l bios(1-3) exe start show ?thesis
        by (auto simp: main_setup_def startable_def emu_inv_def started_host_def fopen_def no_host_def
            setup_ctx_def Let_def)
    qed
  qed
qed

lemma setup_RunningD:
  assumes "main_setup env argv = Running emu"
  shows "startable env argv" "emu_inv emu"
    "\<exists>b. emu_ctx emu = setup_ctx b \<and> holds_file b env (argv ! 1)"
    "emu_host emu = started_host env argv (exe_size emu)"
  using main_setup_cases [of env argv] assms by simp_all

lemma setup_startable: "startable env argv \<Longrightarrow> \<exists>emu. main_setup env argv = Running emu"
  using main_setup_cases [of env argv]
  by (cases "main_setup env argv") (auto simp: startable_def)

end
