(* ===== verification/App_Runs.thy ===== *)
theory App_Runs
  imports App_Facts
begin

text \<open>
  Runs of the application from its start: what the loop keeps, how the first turn begins, what
  has been written and what is held open after any number of turns.
\<close>

section \<open>The loop\<close>

definition turn :: "emulator \<Rightarrow> emulator option" where
  "turn emu = (case main_turn emu of Inl _ \<Rightarrow> None | Inr emu' \<Rightarrow> Some emu')"

lemma stop_cases: "r = Inl Undefined \<or> (\<exists>h. r = Inl (Trap h)) \<or> (\<exists>x. r = Inr x)"
  for r :: "stop + 'a"
  by (cases r) (auto intro: stop.exhaust)

lemma turn_Some_iff: "turn emu = Some emu' \<longleftrightarrow> main_turn emu = Inr emu'"
  by (simp add: turn_def split: sum.split)

lemma main_loop_run: "main_loop n emu = Inr emu' \<longleftrightarrow> run_steps turn n emu = Some emu'"
  by (induction n arbitrary: emu) (auto simp: turn_def split: sum.split)

lemma main_loop_Inl:
  assumes "main_loop n emu = Inl s"
  shows "\<exists>k emu'. k < n \<and> main_loop k emu = Inr emu' \<and> main_turn emu' = Inl s"
  using assms
proof (induction n arbitrary: emu)
  case (Suc n)
  show ?case
  proof (cases "main_turn emu")
    case (Inl r)
    with Suc.prems show ?thesis by (intro exI [of _ 0]) auto
  next
    case (Inr emu1)
    with Suc.prems Suc.IH [of emu1]
    obtain k emu' where "k < n" "main_loop k emu1 = Inr emu'" "main_turn emu' = Inl s" by auto
    with Inr show ?thesis by (intro exI [of _ "Suc k"]) auto
  qed
qed simp

text \<open>
  The state of a run that began with a given host: the machine is well-formed, the host shows
  all events, and it holds what it held at the start.
\<close>

definition run_inv_from :: "host \<Rightarrow> emulator \<Rightarrow> bool" where
  "run_inv_from h0 emu \<longleftrightarrow> emu_inv emu \<and> shows_events (emu_host emu) (event_trace (emu_ctx emu))
     \<and> same_holdings h0 (emu_host emu)"

lemma turn_keeps_run:
  assumes "run_inv_from h0 emu" "main_turn emu = Inr emu'"
  shows "run_inv_from h0 emu' \<and> exe_size emu' = exe_size emu"
proof -
  have inv: "emu_inv emu" using assms(1) by (simp add: run_inv_from_def)
  obtain ctx ctx' h where l: "load_at_shell emu = Inr ctx" and st: "psycho_step ctx = Some ctx'"
    and h: "handle_events (emu_host emu) (new_events (emu_ctx emu) ctx') = Inr h"
    and emu': "emu' = emu\<lparr>emu_ctx := ctx', emu_host := h\<rparr>"
    using assms(2) unfolding main_turn_def by (auto elim!: sum_case_InrE option_case_InrE)
  have "shows_events h (event_trace (emu_ctx emu) @ new_events (emu_ctx emu) ctx')
      \<and> same_holdings (emu_host emu) h"
    using assms(1) h by (intro events_shown) (simp_all add: run_inv_from_def)
  moreover have "event_trace (emu_ctx emu) @ new_events (emu_ctx emu) ctx' = event_trace ctx'"
    using turn_events [OF inv l st] by metis
  ultimately show ?thesis
    using assms(1) main_turn_inv [OF inv assms(2)]
    by (auto simp: run_inv_from_def emu' intro: same_holdings_trans)
qed

interpretation app: invariant_step turn emu_inv
  by unfold_locales (auto simp: turn_Some_iff intro: main_turn_inv)

interpretation app_run: invariant_step turn "\<lambda>emu. run_inv_from h0 emu \<and> exe_size emu = n" for h0 and n
  by unfold_locales (auto simp: turn_Some_iff dest: turn_keeps_run)

lemma run_from_start:
  assumes "main_setup env argv = Running emu" "main_loop n emu = Inr emu'"
  shows "run_inv_from (started_host env argv (exe_size emu)) emu' \<and> exe_size emu' = exe_size emu"
proof -
  note start = setup_RunningD [OF assms(1)]
  have "run_inv_from (started_host env argv (exe_size emu)) emu \<and> exe_size emu = exe_size emu"
    using start by (auto simp: run_inv_from_def setup_ctx_parts shows_events_def started_host_def)
  from app_run.run_inv [OF this] show ?thesis using assms(2) by (simp add: main_loop_run)
qed

section \<open>The first turn\<close>

lemma setup_fetch:
  assumes "buf_size b = 0x7FFFF"
  shows "cpu_fetch (setup_ctx b)
    = Some (cpu_update (after_fetch (le_word (map (buf_byte b) [0..<4]))) (pre_fetch (setup_ctx b)))"
  using fetch_reset_word [of "setup_ctx b"] setup_ctx_inv [OF assms]
  by (simp add: ctx_inv_def cpu_inv_def setup_ctx_parts bios_word_def)

lemma setup_fetched:
  assumes "buf_size b = 0x7FFFF"
  shows "fetched_instr (setup_ctx b) = le_word (map (buf_byte b) [0..<4])"
  by (simp add: fetched_instr_def setup_fetch [OF assms] after_fetch_def)

lemma setup_steps:
  assumes "buf_size b = 0x7FFFF" "le_word (map (buf_byte b) [0..<4]) = w"
    and "\<not> unnamed_cop0 w" "\<And>c. instr c = w \<Longrightarrow> \<not> exec_faults c"
  shows "psycho_step (setup_ctx b) \<noteq> None"
proof -
  have inv: "ctx_inv (setup_ctx b)" by (rule setup_ctx_inv [OF assms(1)])
  have "\<not> trace_faults (setup_ctx b)"
    using load_reset_word [of "setup_ctx b"] inv assms(2,3)
    by (simp add: trace_faults_def disasm_faults_def setup_ctx_parts vaddr_to_paddr_def bios_word_def
        ctx_inv_def cpu_inv_def)
  moreover have "\<not> tty_faults (setup_ctx b)"
    by (simp add: tty_faults_def traced_call_def setup_ctx_parts)
  moreover have "step_safe (setup_ctx b)"
    using assms(4) by (simp add: step_safe_def setup_fetch [OF assms(1)] assms(2) word_hole_def
        fetch_pc_def vaddr_to_paddr_def setup_ctx_parts after_fetch_def)
  ultimately show ?thesis using machine.step_progress [OF inv] by (auto simp: ctx_safe_def)
qed

lemma holds_file_front:
  assumes "holds_file b env path" "files env path = Some f"
  shows "map (buf_byte b) [0..<4] = take 4 (content f)"
  using assms by (intro nth_equalityI) (auto simp: holds_file_def)

section \<open>Concrete runs\<close>

text \<open>A BIOS filled with one byte, and an empty executable.\<close>

definition sample_env :: "u8 \<Rightarrow> environment" where
  "sample_env x = \<lparr>files = (\<lambda>p.
       if p = ''bios'' then Some \<lparr>st_size = 0x80000, openable = True, content = replicate 0x80000 x,
                                  read_error = False\<rparr>
       else if p = ''exe'' then Some \<lparr>st_size = 0, openable = True, content = [], read_error = False\<rparr>
       else None),
     malloc_serves = (\<lambda>_. True), tty_opens = True, errno_text = []\<rparr>"

definition sample_args :: "string list" where
  "sample_args = [''psycho'', ''bios'', ''exe'']"

lemma sample_startable: "startable (sample_env x) sample_args"
  by (simp add: startable_def readable_def starved_def sample_env_def sample_args_def)

text \<open>The application at the start of its loop, and its first turn.\<close>

lemma sample_start:
  obtains emu where "main_setup (sample_env x) sample_args = Running emu"
    "emu_inv emu" "tty_file (emu_host emu) \<noteq> None" "load_at_shell emu = Inr (emu_ctx emu)"
    "fetched_instr (emu_ctx emu) = le_word (replicate 4 x)"
    "\<lbrakk>\<not> unnamed_cop0 (le_word (replicate 4 x));
      \<And>c. instr c = le_word (replicate 4 x) \<Longrightarrow> \<not> exec_faults c\<rbrakk> \<Longrightarrow> psycho_step (emu_ctx emu) \<noteq> None"
proof -
  obtain emu where emu: "main_setup (sample_env x) sample_args = Running emu"
    using setup_startable [OF sample_startable] by blast
  note start = setup_RunningD [OF emu]
  from start(3) obtain b where b: "emu_ctx emu = setup_ctx b" "holds_file b (sample_env x) (sample_args ! 1)"
    by blast
  have "map (buf_byte b) [0..<4] = replicate 4 x"
    using holds_file_front [OF b(2)] by (simp add: sample_env_def sample_args_def take_replicate)
  moreover have "buf_size b = 0x7FFFF" using b(2) by (simp add: holds_file_def)
  moreover have "tty_file (emu_host emu) \<noteq> None"
    using start(4) by (simp add: started_host_def sample_env_def)
  moreover have "load_at_shell emu = Inr (emu_ctx emu)"
    by (simp add: load_at_shell_def b(1) setup_ctx_parts)
  ultimately show thesis
    using that emu start(2) setup_fetched [of b] setup_steps [of b] b(1) by metis
qed

lemma bad_word: "enum_of op_value all_ops (instr_op 0xFC000000) = None"
  "enum_of op_value all_ops (instr_op 0xFFFFFFFF) = None"
proof -
  have "enum_of op_value all_ops 63 = None"
  proof (cases "enum_of op_value all_ops (63 :: u32)")
    case (Some g)
    then show ?thesis by (cases g) (simp_all add: group_op.enum_of_Some_iff)
  qed
  then show "enum_of op_value all_ops (instr_op 0xFC000000) = None"
    "enum_of op_value all_ops (instr_op 0xFFFFFFFF) = None" by (simp_all add: instr_op_def)
qed

lemma bad_word_safe: "ctx_safe (program_ctx [0xFC000000] (replicate 32 0))"
  using program_quiet [of "[0xFC000000]" "replicate 32 0"]
  by (simp add: ctx_safe_def step_safe_def fetch_program_first word_hole_def vaddr_to_paddr_def
      fetch_pc_def exec_faults_def after_fetch_def bad_word)

lemma four_times: "replicate 4 x = [x, x, x, x]"
  by (simp add: numeral_eq_Suc)

text \<open>A first turn that executes a nop, and one that ends in a trap.\<close>

lemma nop_turn:
  obtains emu emu' where "main_setup (sample_env 0) sample_args = Running emu" "main_loop 1 emu = Inr emu'"
proof -
  obtain emu where emu: "main_setup (sample_env 0) sample_args = Running emu" "emu_inv emu"
    "tty_file (emu_host emu) \<noteq> None" "load_at_shell emu = Inr (emu_ctx emu)"
    "fetched_instr (emu_ctx emu) = le_word (replicate 4 0)"
    "\<lbrakk>\<not> unnamed_cop0 (le_word (replicate 4 0));
      \<And>c. instr c = le_word (replicate 4 0) \<Longrightarrow> \<not> exec_faults c\<rbrakk> \<Longrightarrow> psycho_step (emu_ctx emu) \<noteq> None"
    by (rule sample_start [of 0]) blast
  have word: "le_word (replicate 4 0) = 0" by (simp add: four_times)
  have op: "enum_of op_value all_ops (instr_op 0) = Some INSTR_GROUP_SPECIAL"
    by (simp add: group_op.enum_of_Some_iff instr_op_def)
  have "enum_of special_value all_specials (instr_funct 0) = Some INSTR_SLL"
    by (simp add: group_special.enum_of_Some_iff instr_funct_def)
  with op have "decodes 0" by (simp add: decodes_def)
  moreover have "psycho_step (emu_ctx emu) \<noteq> None"
    using emu(6) op by (simp add: word unnamed_cop0_def exec_faults_def)
  ultimately have "main_turn emu \<noteq> Inl Undefined" "\<And>h. main_turn emu \<noteq> Inl (Trap h)"
    using main_turn_stops [OF emu(2-4)] emu(5) by (auto simp: word)
  then obtain emu' where "main_turn emu = Inr emu'" using stop_cases [of "main_turn emu"] by blast
  with emu(1) show thesis by (intro that [of emu emu']) simp_all
qed

lemma trap_turn:
  obtains emu h where "main_setup (sample_env 0xFF) sample_args = Running emu"
    "main_loop 1 emu = Inl (Trap h)"
proof -
  obtain emu where emu: "main_setup (sample_env 0xFF) sample_args = Running emu" "emu_inv emu"
    "tty_file (emu_host emu) \<noteq> None" "load_at_shell emu = Inr (emu_ctx emu)"
    "fetched_instr (emu_ctx emu) = le_word (replicate 4 0xFF)"
    "\<lbrakk>\<not> unnamed_cop0 (le_word (replicate 4 0xFF));
      \<And>c. instr c = le_word (replicate 4 0xFF) \<Longrightarrow> \<not> exec_faults c\<rbrakk> \<Longrightarrow> psycho_step (emu_ctx emu) \<noteq> None"
    by (rule sample_start [of "0xFF"]) blast
  have word: "le_word (replicate 4 0xFF) = 0xFFFFFFFF" by (simp add: four_times)
  have "psycho_step (emu_ctx emu) \<noteq> None"
    using emu(6) by (simp add: word bad_word unnamed_cop0_def exec_faults_def)
  moreover have "\<not> decodes 0xFFFFFFFF" by (simp add: decodes_def bad_word)
  ultimately obtain h where "main_turn emu = Inl (Trap h)"
    using main_turn_stops [OF emu(2-4)] emu(5) by (auto simp: word)
  with emu(1) show thesis by (intro that [of emu h]) simp_all
qed

section \<open>Properties\<close>

text \<open>
  C38: the application starts exactly when it is given two files that can be opened and read
  without an error, the first with at least the bytes of its BIOS array (one fewer than a BIOS
  has) and the second with the bytes its size says, and memory for the second; the start is
  undefined exactly without any argument vector or without that memory; it exits otherwise.
\<close>

theorem app_starts_iff:
  "((\<exists>emu. main_setup env argv = Running emu) \<longleftrightarrow> 3 \<le> length argv
      \<and> readable env (argv ! 1) (\<lambda>_. 0x7FFFF) \<and> readable env (argv ! 2) st_size
      \<and> \<not> starved env (argv ! 2))
   \<and> ((\<exists>s. main_setup env argv = Aborted s) \<longleftrightarrow> argv = [] \<or> (3 \<le> length argv
      \<and> readable env (argv ! 1) (\<lambda>_. 0x7FFFF) \<and> starved env (argv ! 2)))"
  using main_setup_cases [of env argv]
  by (cases "main_setup env argv") (auto simp: startable_def)

text \<open>
  The machine boots from the file: the first instruction the loop fetches is the
  little-endian word of the first four bytes of the BIOS file.
\<close>

lemma app_boots_bios:
  assumes "main_setup env argv = Running emu"
  shows "\<exists>f. files env (argv ! 1) = Some f
    \<and> fetched_instr (emu_ctx emu) = le_word (take 4 (content f))"
proof -
  obtain b where b: "emu_ctx emu = setup_ctx b" "holds_file b env (argv ! 1)"
    using setup_RunningD(3) [OF assms] by blast
  then obtain f where f: "files env (argv ! 1) = Some f" "buf_size b = 0x7FFFF"
    by (auto simp: holds_file_def)
  then show ?thesis using setup_fetched holds_file_front [OF b(2) f(1)] by (simp add: b(1))
qed

text \<open>
  C10: after any number of turns the machine is well-formed, every log line has been given to
  standard output, in order and in the colour of its level, and every text of the TTY is in the
  file on the disk, with nothing left in a buffer. Standard output has not been flushed.
\<close>

theorem app_output:
  assumes "main_setup env argv = Running emu" "main_loop n emu = Inr emu'"
  shows "ctx_inv (emu_ctx emu')
    \<and> host_stdout (emu_host emu') = \<lparr>on_disk = [], unwritten = log_output (event_trace (emu_ctx emu'))\<rparr>
    \<and> tty_file (emu_host emu') = (if tty_opens env
        then Some \<lparr>on_disk = tty_output (event_trace (emu_ctx emu')), unwritten = []\<rparr> else None)"
  using run_from_start [OF assms]
  by (auto simp: run_inv_from_def emu_inv_def shows_events_def same_holdings_def started_host_def
      split: if_splits)

lemma app_output_witness:
  "\<exists>emu emu'. main_setup (sample_env 0) sample_args = Running emu \<and> main_loop 1 emu = Inr emu'
    \<and> unwritten (host_stdout (emu_host emu')) = log_output (event_trace (emu_ctx emu'))"
proof -
  obtain emu emu' where "main_setup (sample_env 0) sample_args = Running emu" "main_loop 1 emu = Inr emu'"
    by (rule nop_turn)
  with app_output [OF this] show ?thesis by (auto intro!: exI [of _ emu] exI [of _ emu'])
qed

text \<open>
  C29: a trap happens in a turn whose fetched word is an illegal instruction. It loses no TTY
  text: what was delivered before that event is in the TTY file on the disk. It can lose the log:
  what was delivered before the event, up to the lines about the illegal instruction, has been
  given to standard output and none of it has been flushed.
\<close>

theorem trap_keeps_output:
  assumes "main_setup env argv = Running emu" "main_loop n emu = Inl (Trap h)"
  shows "\<exists>k emu' ctx ctx' before after. k < n \<and> main_loop k emu = Inr emu'
    \<and> load_at_shell emu' = Inr ctx \<and> psycho_step ctx = Some ctx' \<and> \<not> decodes (fetched_instr ctx)
    \<and> event_trace ctx' = before @ PSYCHO_EVENT_CPU_ILLEGAL # after
    \<and> host_stdout h = \<lparr>on_disk = [], unwritten = log_output before\<rparr>
    \<and> (tty_opens env \<longrightarrow> tty_file h = Some \<lparr>on_disk = tty_output before, unwritten = []\<rparr>)"
proof -
  obtain k emu' where k: "k < n" "main_loop k emu = Inr emu'" and trap: "main_turn emu' = Inl (Trap h)"
    using main_loop_Inl [OF assms(2)] by blast
  have run: "run_inv_from (started_host env argv (exe_size emu)) emu'"
    using run_from_start [OF assms(1) k(2)] by blast
  obtain ctx ctx' where st: "load_at_shell emu' = Inr ctx" "psycho_step ctx = Some ctx'"
    and h: "handle_events (emu_host emu') (new_events (emu_ctx emu') ctx') = Inl (Trap h)"
    using trap load_at_shell_total(1) [of emu'] unfolding main_turn_def
    by (auto split: sum.splits option.splits)
  obtain b a where ev: "new_events (emu_ctx emu') ctx' = b @ PSYCHO_EVENT_CPU_ILLEGAL # a"
    and sh: "shows_events h (event_trace (emu_ctx emu') @ b)" "same_holdings (emu_host emu') h"
    using events_shown_until_trap [OF _ h, of "event_trace (emu_ctx emu')"] run
    by (auto simp: run_inv_from_def)
  have inv: "emu_inv emu'" using run by (simp add: run_inv_from_def)
  have "\<not> decodes (fetched_instr ctx)" using turn_events(2) [OF inv st] ev by simp
  moreover have "event_trace ctx' = (event_trace (emu_ctx emu') @ b) @ PSYCHO_EVENT_CPU_ILLEGAL # a"
    using turn_events(1) [OF inv st] ev by simp
  moreover have "tty_file h \<noteq> None" if "tty_opens env"
    using run sh(2) that by (simp add: run_inv_from_def same_holdings_def started_host_def)
  then have "tty_opens env \<longrightarrow> tty_file h
      = Some \<lparr>on_disk = tty_output (event_trace (emu_ctx emu') @ b), unwritten = []\<rparr>"
    using sh(1) by (auto simp: shows_events_def simp del: output_simps)
  moreover have "host_stdout h = \<lparr>on_disk = [], unwritten = log_output (event_trace (emu_ctx emu') @ b)\<rparr>"
    using sh(1) by (simp add: shows_events_def del: output_simps)
  ultimately show ?thesis using k st by blast
qed

lemma trap_keeps_output_witness:
  "\<exists>emu h f. main_setup (sample_env 0xFF) sample_args = Running emu \<and> main_loop 1 emu = Inl (Trap h)
    \<and> tty_file h = Some f \<and> unwritten f = []"
proof -
  obtain emu h where run: "main_setup (sample_env 0xFF) sample_args = Running emu"
    "main_loop 1 emu = Inl (Trap h)" by (rule trap_turn)
  have "tty_opens (sample_env 0xFF)" by (simp add: sample_env_def)
  with trap_keeps_output [OF run] run show ?thesis by auto
qed

text \<open>
  The two files read at the start are never closed: a run holds them open, with the TTY file
  and the block of the image, after any number of turns. An exit at the start frees the image,
  but leaves the BIOS file open when the second file fails.
\<close>

lemma app_holdings:
  assumes "main_setup env argv = Running emu" "main_loop n emu = Inr emu'"
  shows "open_files (emu_host emu') = (if tty_opens env then [''tty_file.txt''] else []) @ [argv ! 2, argv ! 1]
    \<and> heap_blocks (emu_host emu') = [exe_size emu']"
  using run_from_start [OF assms]
  by (auto simp: run_inv_from_def same_holdings_def started_host_def)

lemma app_holdings_witness:
  "\<exists>emu emu'. main_setup (sample_env 0) sample_args = Running emu \<and> main_loop 1 emu = Inr emu'
    \<and> open_files (emu_host emu') = [''tty_file.txt'', ''exe'', ''bios'']"
proof -
  obtain emu emu' where run: "main_setup (sample_env 0) sample_args = Running emu"
    "main_loop 1 emu = Inr emu'" by (rule nop_turn)
  from app_holdings [OF run] run show ?thesis by (auto simp: sample_env_def sample_args_def)
qed

text \<open>
  C39: at the shell's entry point the check of the loader's result never fires: an image that is
  too short or has no identification is ignored, and the machine goes on with the shell.
\<close>

theorem bad_image_ignored:
  assumes "emu_inv emu" "exe_size emu < 0x800 \<or> \<not> exe_has_id (exe_data emu)"
  shows "\<exists>ctx. load_at_shell emu = Inr ctx \<and> cpu ctx = cpu (emu_ctx emu) \<and> bus ctx = bus (emu_ctx emu)"
proof (cases "exe_size emu < 0x800")
  case True
  then show ?thesis
    by (simp add: load_at_shell_def psycho_exe_load_def EXE_MIN_SIZE_def Let_def
        psycho_disasm_trace_instruction_enable_def psycho_log_level_set_global_def)
next
  case False
  then have "psycho_exe_load (emu_ctx emu) (exe_data emu) (exe_size emu)
      = Some (PSYCHO_EXE_ID_BAD, emu_ctx emu)"
    using assms by (intro exe_load_bad(2)) (auto simp: emu_inv_def)
  then show ?thesis
    by (simp add: load_at_shell_def Let_def psycho_disasm_trace_instruction_enable_def
        psycho_log_level_set_global_def)
qed

text \<open>The application with an empty image at the shell's entry point.\<close>

definition shell_emu :: emulator where
  "shell_emu = \<lparr>emu_ctx = cpu_update (\<lambda>c. c\<lparr>pc := 0x80030000, next_pc := 0x80030004\<rparr>)
       (program_ctx [] (replicate 32 0)),
     exe_data = zero_buffer 0, exe_size = 0, emu_host = no_host\<lparr>tty_file := Some \<lparr>on_disk = [], unwritten = []\<rparr>\<rparr>\<rparr>"

lemma shell_emu_inv: "emu_inv shell_emu"
  using program_ctx_inv [of "replicate 32 0" "[]"]
  by (simp add: emu_inv_def shell_emu_def ctx_inv_def cpu_inv_def cpu_shape_def zero_buffer_def)

lemma bad_image_ignored_witness:
  "\<exists>ctx. load_at_shell shell_emu = Inr ctx \<and> pc (cpu ctx) = 0x80030000"
  using bad_image_ignored [OF shell_emu_inv] by (auto simp: shell_emu_def)

text \<open>
  C28: the three ways a turn of the loop can go. It is undefined exactly when the loader leaves
  the image or the RAM (an identified image at the shell's entry point whose code is not all
  there or does not fit), when the step leaves a buffer, or when a TTY message is delivered
  although the TTY file could not be opened. It stops by a trap exactly when the loader and the
  step return, the fetched word is an illegal instruction and no message hits the missing file,
  and goes on otherwise.
\<close>

theorem app_turn_stops:
  assumes "emu_inv emu"
  shows "(main_turn emu = Inl Undefined \<longleftrightarrow>
      (pc (cpu (emu_ctx emu)) = 0x80030000 \<and> 0x800 \<le> exe_size emu \<and> exe_has_id (exe_data emu)
        \<and> \<not> (0x800 + exe_size_field (exe_data emu) \<le> exe_size emu
          \<and> exe_dst (exe_data emu) + exe_size_field (exe_data emu) \<le> 0x200000))
      \<or> (\<exists>ctx. load_at_shell emu = Inr ctx
        \<and> (case psycho_step ctx of None \<Rightarrow> True | Some ctx' \<Rightarrow> tty_unopened emu ctx')))
    \<and> ((\<exists>h. main_turn emu = Inl (Trap h)) \<longleftrightarrow> (\<exists>ctx ctx'. load_at_shell emu = Inr ctx
        \<and> psycho_step ctx = Some ctx' \<and> \<not> tty_unopened emu ctx' \<and> \<not> decodes (fetched_instr ctx)))
    \<and> ((\<exists>emu'. main_turn emu = Inr emu') \<longleftrightarrow> (\<exists>ctx ctx'. load_at_shell emu = Inr ctx
        \<and> psycho_step ctx = Some ctx' \<and> \<not> tty_unopened emu ctx' \<and> decodes (fetched_instr ctx)))"
proof (cases "load_at_shell emu")
  case (Inl s)
  then have "s = Undefined" using load_at_shell_total(1) [of emu] by (cases s) auto
  with Inl show ?thesis using loader_undefined [OF assms] by (simp add: main_turn_def)
next
  case (Inr ctx)
  then have ok: "load_at_shell emu \<noteq> Inl Undefined" by simp
  show ?thesis
  proof (cases "psycho_step ctx")
    case None
    with Inr show ?thesis by (simp add: main_turn_def)
  next
    case (Some ctx')
    have "main_turn emu = Inl Undefined \<or> (\<exists>h. main_turn emu = Inl (Trap h))
        \<or> (\<exists>emu'. main_turn emu = Inr emu')" by (rule stop_cases)
    then show ?thesis
      using turn_handles [OF assms Inr Some] ok [unfolded loader_undefined [OF assms]] Inr Some by auto
  qed
qed

text \<open>An application that runs the illegal word \<^verbatim>\<open>0xFC000000\<close>.\<close>

lemma app_turn_stops_witness:
  "\<exists>h. main_turn (shell_emu\<lparr>emu_ctx := program_ctx [0xFC000000] (replicate 32 0)\<rparr>) = Inl (Trap h)"
proof -
  let ?ctx = "program_ctx [0xFC000000] (replicate 32 0)"
  let ?emu = "shell_emu\<lparr>emu_ctx := ?ctx\<rparr>"
  have inv: "emu_inv ?emu"
    using shell_emu_inv program_ctx_inv [of "replicate 32 0" "[0xFC000000]"]
    by (simp add: emu_inv_def)
  have load: "load_at_shell ?emu = Inr ?ctx" by (simp add: load_at_shell_def)
  obtain ctx' where "psycho_step ?ctx = Some ctx'"
    using machine.step_progress [OF program_ctx_inv bad_word_safe] by auto
  moreover have "\<not> decodes (fetched_instr ?ctx)" by (simp add: decodes_def bad_word)
  moreover have "\<not> tty_unopened ?emu ctx'" by (simp add: tty_unopened_def shell_emu_def)
  ultimately show ?thesis using app_turn_stops [OF inv] load by blast
qed



end
