(* ===== verification/Exe_Load.thy ===== *)
theory Exe_Load
  imports Isa_Simulation Console_Spec App_Runs
begin

text \<open>
  The loader of executables against the reference machine: which image a buffer holds, and what
  a successful call leaves.
\<close>

definition image_in :: "buffer \<Rightarrow> image" where
  "image_in exe = \<lparr>img_entry = exe_word exe EXE_OFF_INITIAL_PC, img_gp = exe_word exe EXE_OFF_INITIAL_GP,
     img_base = exe_word exe EXE_OFF_INITIAL_SP_FP_BASE, img_off = exe_word exe EXE_OFF_INITIAL_SP_FP_OFF,
     img_dest = exe_word exe EXE_OFF_DEST_ADDR, img_code = exe_code exe,
     img_whole = (0x800 + exe_size_field exe \<le> buf_size exe)\<rparr>"

text \<open>A buffer that is too short for a header or lacks the identification holds no image.\<close>

definition image_of :: "buffer \<Rightarrow> image option" where
  "image_of exe = (if buf_size exe < 0x800 \<or> \<not> exe_has_id exe then None else Some (image_in exe))"

lemma exe_dst_translate: "exe_dst exe = unat (translate (img_dest (image_in exe)))"
  by (simp add: exe_dst_def image_in_def translate_eq)

lemma length_exe_code [simp]: "length (exe_code exe) = exe_size_field exe"
  by (simp add: exe_code_def)

text \<open>Code that fits is the only thing that changes in the memory.\<close>

lemma store_code_view:
  assumes "bus_sized b" "memcpy_to (ram b) p bs = Some r" "p + length bs \<le> 0x200000"
  shows "mem_view (b\<lparr>ram := r\<rparr>) = store_code (mem_view b) p bs"
proof
  fix q :: u32
  have sized: "bus_sized (b\<lparr>ram := r\<rparr>)"
    using assms(1,2) memcpy_to_size [OF assms(2)] by (simp add: bus_sized_iff)
  have "buf_byte r i = (if p \<le> i \<and> i < p + length bs then bs ! (i - p) else buf_byte (ram b) i)" for i
    using assms(2) by (auto simp: memcpy_to_def split: if_splits)
  then show "mem_view (b\<lparr>ram := r\<rparr>) q = store_code (mem_view b) p bs q"
    using assms(3) by (simp add: mem_view_eq [OF sized] mem_view_eq [OF assms(1)] store_code_def)
qed

text \<open>The call, for a context in which no load is about to land.\<close>

lemma exe_load_isa:
  assumes "ctx_inv ctx" "image_of exe = Some i" "loadable i"
    and "ld_dst (ld_next (cpu ctx)) = 0"
  shows "\<exists>c. psycho_exe_load ctx exe (buf_size exe) = Some (PSYCHO_OK, c)
    \<and> isa_of c = load_image i (isa_of ctx) \<and> ld_next (cpu c) = ld_next (cpu ctx)"
proof -
  have size: "0x800 \<le> buf_size exe" and id: "exe_has_id exe" and i: "i = image_in exe"
    using assms(2) by (auto simp: image_of_def split: if_splits)
  have sized: "bus_sized (bus ctx)" and len: "length (gpr (cpu ctx)) = CPU_GPR_NUM"
    using assms(1) by (simp_all add: ctx_inv_def cpu_inv_def cpu_shape_def)
  have fits: "exe_dst exe + exe_size_field exe \<le> 0x200000"
    using assms(3) by (simp add: i loadable_def exe_dst_translate) (simp add: image_in_def)
  have room: "0x800 + exe_size_field exe \<le> buf_size exe"
    using assms(3) by (simp add: i loadable_def image_in_def)
  let ?r = "the (memcpy_to (ram (bus ctx)) (exe_dst exe) (exe_code exe))"
  have r: "memcpy_to (ram (bus ctx)) (exe_dst exe) (exe_code exe) = Some ?r"
    using fits sized by (simp add: memcpy_to_def bus_sized_iff)
  define c where "c = log_emit PSYCHO_LOG_MODULE_ID_CTX PSYCHO_LOG_LEVEL_INFO
    (cpu_update (exe_entry exe) (bus_update (\<lambda>b. b\<lparr>ram :=
      the (memcpy_to (ram b) (exe_dst exe) (exe_code exe))\<rparr>) ctx)) ''EXE loaded''"
  have call: "psycho_exe_load ctx exe (buf_size exe) = Some (PSYCHO_OK, c)"
    using exe_load_good [OF size size id len] room fits sized by (simp add: c_def bus_sized_iff)
  have cb: "cpu c = exe_entry exe (cpu ctx)" "bus c = (bus ctx)\<lparr>ram := ?r\<rparr>" by (simp_all add: c_def)
  have next_same: "ld_next (cpu c) = ld_next (cpu ctx)" by (simp add: cb exe_entry_def Let_def)
  have "mem_view (bus c) = store_code (mem_view (bus ctx)) (exe_dst exe) (exe_code exe)"
    unfolding cb by (rule store_code_view [OF sized r]) (simp add: fits)
  then have "isa_of c = load_image i (isa_of ctx)"
    using assms(4) by (intro isa.equality)
      (simp_all add: isa_of_def reg_file_land cb exe_entry_def Let_def load_image_def i
        exe_dst_translate, simp_all add: image_in_def)
  with call next_same show ?thesis by blast
qed

text \<open>The application allocates and fills what the file system reports.\<close>

lemma setup_exe_data:
  assumes "main_setup env argv = Running emu" "files env (argv ! 2) = Some f"
  shows "buf_size (exe_data emu) = st_size f"
    and "i < st_size f \<Longrightarrow> buf_byte (exe_data emu) i = content f ! i"
  using assms
  by (auto simp: main_setup_def load_exe_file_def fread_into_def zero_buffer_def Let_def
      split: if_splits prod.splits bool.splits sum.splits option.splits)

end
