(* ===== verification/Cpu_Settled.thy ===== *)
theory Cpu_Settled
  imports Cpu_Invariant
begin

text \<open>
  The load that lands with the next fetch: an instruction either leaves it or cancels it, so
  after a step it is the one that was pending before the step, or none.
\<close>

definition settles :: "psycho_ctx \<Rightarrow> psycho_ctx \<Rightarrow> bool" where
  "settles s t \<longleftrightarrow> ld_dst (ld_next (cpu t)) = ld_dst (ld_next (cpu s)) \<or> ld_dst (ld_next (cpu t)) = 0"

lemma settles_refl [simp, intro]: "settles s s"
  by (simp add: settles_def)

lemma settles_trans: "settles s t \<Longrightarrow> settles t u \<Longrightarrow> settles s u"
  by (auto simp: settles_def)

lemma settles_same_cpu: "cpu t = cpu s \<Longrightarrow> settles s t"
  by (simp add: settles_def)

lemma next_load_effects [simp]:
  "ld_next (exception_entry e c) = ld_next c" "ld_next (branch_entry b c) = ld_next c"
  "ld_next (jump_entry t c) = ld_next c" "ld_next (bp_entry c) = ld_next c"
  "ld_next (reg_write r x c) = (if ld_dst (ld_next c) = r then ld_zero else ld_next c)"
  "ld_next (reg_load r x c) = (if ld_dst (ld_next c) = r then ld_zero else ld_next c)"
  by (auto simp: exception_entry_def reg_write_def reg_load_def branch_entry_def jump_entry_def
      bp_entry_def)

lemma ld_dst_zero [simp]: "ld_dst ld_zero = 0"
  by (simp add: ld_zero_def)

lemma settles_simps [simp]:
  "settles s (log_emit m l t b) = settles s t" "settles s (event_cb t e) = settles s t"
  "settles s (bp_check t v) = settles s t" "settles (bp_check s v) t = settles s t"
  by (simp_all add: settles_def bp_check_def)

lemma special_op_settles: "special_op f ctx = Some ctx' \<Longrightarrow> settles ctx ctx'"
  by (cases f) (auto simp: op_defs helper_eqs Let_def settles_def split: if_splits prod.splits)

lemma imm_op_settles:
  "op_BCOND ctx = Some ctx' \<Longrightarrow> settles ctx ctx'" "op_MFC0 ctx = Some ctx' \<Longrightarrow> settles ctx ctx'"
  "op_MTC0 ctx = Some ctx' \<Longrightarrow> settles ctx ctx'" "op_RFE ctx = Some ctx' \<Longrightarrow> settles ctx ctx'"
  "op_J ctx = Some ctx' \<Longrightarrow> settles ctx ctx'" "op_JAL ctx = Some ctx' \<Longrightarrow> settles ctx ctx'"
  "op_BEQ ctx = Some ctx' \<Longrightarrow> settles ctx ctx'" "op_BNE ctx = Some ctx' \<Longrightarrow> settles ctx ctx'"
  "op_BLEZ ctx = Some ctx' \<Longrightarrow> settles ctx ctx'" "op_BGTZ ctx = Some ctx' \<Longrightarrow> settles ctx ctx'"
  "op_ADDI ctx = Some ctx' \<Longrightarrow> settles ctx ctx'" "op_ADDIU ctx = Some ctx' \<Longrightarrow> settles ctx ctx'"
  "op_SLTI ctx = Some ctx' \<Longrightarrow> settles ctx ctx'" "op_SLTIU ctx = Some ctx' \<Longrightarrow> settles ctx ctx'"
  "op_ANDI ctx = Some ctx' \<Longrightarrow> settles ctx ctx'" "op_ORI ctx = Some ctx' \<Longrightarrow> settles ctx ctx'"
  "op_XORI ctx = Some ctx' \<Longrightarrow> settles ctx ctx'" "op_LUI ctx = Some ctx' \<Longrightarrow> settles ctx ctx'"
  by (auto simp: imm_op_defs helper_eqs Let_def settles_def split: if_splits prod.splits)

lemma access_settles:
  "psycho_bus_load_byte ctx p = Some (b, ctx') \<Longrightarrow> settles ctx ctx'"
  "psycho_bus_load_halfword ctx p = Some (h, ctx') \<Longrightarrow> settles ctx ctx'"
  "psycho_bus_load_word ctx p = Some (w, ctx') \<Longrightarrow> settles ctx ctx'"
  "psycho_bus_store_byte ctx p b = Some ctx' \<Longrightarrow> settles ctx ctx'"
  "psycho_bus_store_halfword ctx p h = Some ctx' \<Longrightarrow> settles ctx ctx'"
  "psycho_bus_store_word ctx p w = Some ctx' \<Longrightarrow> settles ctx ctx'"
  by (simp_all add: settles_same_cpu byte_port.load_frame half_port.load_frame word_port.load_frame
      byte_port.store_frame half_port.store_frame word_port.store_frame)

lemma helper_settles:
  "gpr_set_delayed ctx r x = Some ctx' \<Longrightarrow> settles ctx ctx'"
  "raise_exception ctx e = Some ctx' \<Longrightarrow> settles ctx ctx'"
  "illegal ctx = Some ctx' \<Longrightarrow> settles ctx ctx'"
  by (auto simp: helper_eqs settles_def split: if_splits)

lemma mem_op_settles:
  "op_LB ctx = Some ctx' \<Longrightarrow> settles ctx ctx'" "op_LH ctx = Some ctx' \<Longrightarrow> settles ctx ctx'"
  "op_LWL ctx = Some ctx' \<Longrightarrow> settles ctx ctx'" "op_LW ctx = Some ctx' \<Longrightarrow> settles ctx ctx'"
  "op_LBU ctx = Some ctx' \<Longrightarrow> settles ctx ctx'" "op_LHU ctx = Some ctx' \<Longrightarrow> settles ctx ctx'"
  "op_LWR ctx = Some ctx' \<Longrightarrow> settles ctx ctx'" "op_SB ctx = Some ctx' \<Longrightarrow> settles ctx ctx'"
  "op_SH ctx = Some ctx' \<Longrightarrow> settles ctx ctx'" "op_SWL ctx = Some ctx' \<Longrightarrow> settles ctx ctx'"
  "op_SW ctx = Some ctx' \<Longrightarrow> settles ctx ctx'" "op_SWR ctx = Some ctx' \<Longrightarrow> settles ctx ctx'"
  by (auto simp: mem_op_defs get_phys_addr_eq Let_def elim!: bind_eq_SomeE split: if_splits
      dest!: access_settles helper_settles intro: settles_trans)

lemma execute_settles: "cpu_execute ctx = Some (fl, ctx') \<Longrightarrow> settles ctx ctx'"
proof -
  have special: "exec_special ctx = Some (fl, ctx') \<Longrightarrow> settles ctx ctx'" for fl
    by (auto simp: exec_special_def break_after_def return_after_def split: option.splits
        intro: special_op_settles helper_settles(3))
  have cop0: "exec_cop0 ctx = Some (fl, ctx') \<Longrightarrow> settles ctx ctx'" for fl
    by (auto simp: exec_cop0_def break_after_def return_after_def
        split: option.splits instr_group_cop.splits instr_group_cop0.splits
        intro: imm_op_settles helper_settles(3))
  have "group_op g ctx = Some (fl, ctx') \<Longrightarrow> settles ctx ctx'" for g
    by (cases g) (auto simp: break_after_def intro: special cop0 imm_op_settles mem_op_settles)
  then show "cpu_execute ctx = Some (fl, ctx') \<Longrightarrow> settles ctx ctx'"
    by (auto simp: cpu_execute_def return_after_def split: option.splits intro: helper_settles(3))
qed

lemma step_settles:
  assumes "cpu_inv ctx" "psycho_cpu_step ctx = Some ctx'" "ld_dst (ld_pend (cpu ctx)) = 0"
  shows "ld_dst (ld_next (cpu ctx')) = 0"
proof -
  have sh: "cpu_shape (cpu ctx)" using assms(1) by (simp add: cpu_inv_def)
  have fetched: "ld_dst (ld_next (cpu c)) = 0" if f: "cpu_fetch ctx = Some c" for c
    by (rule cpu_fetch_Some [OF sh f]) (use assms(3) in \<open>simp add: after_fetch_def pre_fetch_def
      enter_slot_def load_delay_shift_def Let_def\<close>)
  show ?thesis
  proof (rule step_cases [OF assms(2)])
    fix c assume "cpu_fetch ctx = Some c" "illegal c = Some ctx'"
    then show ?thesis using fetched helper_settles(3) [of c ctx'] by (auto simp: settles_def)
  next
    fix c d assume "cpu_fetch ctx = Some c" "cpu_execute c = Some (Break, d)"
      "ctx' = cpu_update (\<lambda>c. c\<lparr>gpr := (gpr c)[0 := 0]\<rparr>) d"
    then show ?thesis using fetched execute_settles [of c Break d] by (auto simp: settles_def)
  qed
qed

end
