(* ===== verification/Trace_Properties.thy ===== *)
theory Trace_Properties
  imports Ctx_Events
begin

text \<open>
  What the tracing parts promise: the disassembler and its log line, the levels and the size
  of log messages, the TTY line buffer and the trace of the BIOS's character function.
\<close>

section \<open>Disassembly\<close>

text \<open>
  C33: the disassembler prints a text of at most 40 characters for every word except a move to
  or from a coprocessor register without a name, where it would print a null pointer; the
  text is "illegal" exactly for the words the CPU does not decode and for some it
  does: \<^verbatim>\<open>SRLV\<close>, \<^verbatim>\<open>SRAV\<close>, \<^verbatim>\<open>SYSCALL\<close>, \<^verbatim>\<open>BREAK\<close>, \<^verbatim>\<open>RFE\<close> and the \<^verbatim>\<open>BCOND\<close> codes without a name.
\<close>

theorem disassembly_illegal_iff:
  "if unnamed_cop0 i then psycho_disasm_instr ctx i addr = None
   else \<exists>s c. psycho_disasm_instr ctx i addr = Some c \<and> res_str (result (disasm c)) = s
     \<and> res_len (result (disasm c)) = length s \<and> length s \<le> 40 \<and> same_machine c ctx
     \<and> (s \<noteq> ''illegal 0x'' @ fmt_0X 8 (unat i) \<longleftrightarrow> decodes i \<and> \<not> undisassembled i)"
  using shown_text_illegal_iff [of i addr] shown_text_length [of i addr]
  by (simp add: psycho_disasm_instr_eq show_text_def illegal_text_def text1_def same_machine_def)

lemma gpr_name_no_NUL: "k < 32 \<Longrightarrow> NUL \<notin> set (gpr_names ! k)"
proof -
  have "\<forall>s \<in> set gpr_names. NUL \<notin> set s" by (simp add: gpr_names_def NUL_def)
  moreover have "length gpr_names = 32" by (simp add: gpr_names_def)
  ultimately show "k < 32 \<Longrightarrow> NUL \<notin> set (gpr_names ! k)" by (metis nth_mem)
qed

lemma name_no_NUL: "NUL \<notin> set (n_rs i)" "NUL \<notin> set (n_rt i)" "NUL \<notin> set (n_rd i)"
  by (simp_all add: gpr_name_no_NUL)

lemma cop0_name_no_NUL: "cop0_cpr n = Some s \<Longrightarrow> NUL \<notin> set s"
proof -
  have "NUL \<notin> set (cop0_name r)" for r by (cases r) (simp_all add: NUL_def)
  then show "cop0_cpr n = Some s \<Longrightarrow> NUL \<notin> set s" by (auto simp: cop0_cpr_def)
qed

lemmas fmt_no_zero = NUL_not_in_fmt [unfolded NUL_def]

lemma shown_text_no_NUL:
  assumes "\<not> unnamed_cop0 i"
  shows "NUL \<notin> set (shown_text i addr)"
proof (cases "disasm_text i addr")
  case None
  then show ?thesis by (simp add: shown_text_def illegal_text_def text_defs) (simp add: NUL_def)
next
  case (Some s)
  have "NUL \<notin> set s"
  proof (rule disasm_text_cases [OF Some])
    fix f assume "special_text f i = Some (Return, s)"
    then show "NUL \<notin> set s" using name_no_NUL [of i]
      by (cases f) (auto simp: text_defs NUL_def fmt_no_zero split: if_splits)
  next
    fix b assume s: "s = text2 (bcond_mnemonic b) (n_rs i) (n_addr (calc_branch_addr i addr))"
    show "NUL \<notin> set s" using name_no_NUL [of i] unfolding s
      by (cases b) (auto simp: text_defs NUL_def fmt_no_zero)
  next
    fix m assume s: "s = cop_text m i"
      and op: "enum_of op_value all_ops (instr_op i) = Some INSTR_GROUP_COP0"
        "enum_of cop_value all_cops (instr_rs i) = Some m"
    then obtain n where n: "cop0_cpr (unat (instr_rd i)) = Some n"
      using assms by (auto simp: unnamed_cop0_iff)
    show "NUL \<notin> set s" using name_no_NUL [of i] cop0_name_no_NUL [OF n] unfolding s
      by (cases m) (auto simp: text_defs NUL_def fmt_no_zero n)
  next
    fix g assume "group_text g i addr = Some s"
    then show "NUL \<notin> set s" using name_no_NUL [of i]
      by (cases g) (auto simp: text_defs NUL_def fmt_no_zero)
  qed
  with Some show ?thesis by (simp add: shown_text_def)
qed

text \<open>
  The line the trace logs for a step is the program counter of its start and the text of
  the word that is there.
\<close>

lemma trace_line:
  assumes "psycho_disasm_trace_begin ctx = Some c" "disasm d = disasm c"
    and "psycho_bus_load_word ctx (vaddr_to_paddr (pc (cpu ctx))) = Some (w, e)"
  shows "psycho_disasm_trace_end d = Some (log_emit DISASM PSYCHO_LOG_LEVEL_INFO d
    (''0x'' @ fmt_0X 8 (unat (pc (cpu ctx))) @ '': '' @ shown_text w (pc (cpu ctx))))"
proof -
  have facts: "res_pc (result (disasm c)) = pc (cpu ctx)" "length (res_str (result (disasm c))) \<le> 40"
    using disasm_begin_cases(2) [OF assms(1)] by simp_all
  have "\<not> disasm_faults ctx" using disasm_begin_cases(1) [of ctx] assms(1) by simp
  then have nu: "\<not> unnamed_cop0 w" by (simp add: disasm_faults_def assms(3))
  have str: "res_str (result (disasm c)) = shown_text w (pc (cpu ctx))"
    by (rule disasm_begin_text [OF assms(1,3)])
  have "c_str (shown_text w (pc (cpu ctx))) = shown_text w (pc (cpu ctx))"
    by (rule c_str_id) (rule shown_text_no_NUL [OF nu])
  then show ?thesis
    using disasm_end_eq [of d] facts by (simp add: assms(2) str PSYCHO_DISASM_LEN_MAX_def)
qed

section \<open>Log messages\<close>

text \<open>
  A message of a module reaches the callback exactly when its level is at most the one
  last set for the module, globally or for it alone, with the level and the module in front
  of its text.
\<close>

lemma log_levels:
  assumes "length (modules (log ctx)) = PSYCHO_LOG_MODULE_ID_NUM"
    and "lvl \<noteq> PSYCHO_LOG_LEVEL_OFF" "length body \<le> 492"
  shows "LOG_HANDLE mid lvl (psycho_log_level_set_global ctx g) body =
      Some (let c = psycho_log_level_set_global ctx g
        in if lvl \<le> g then event_cb c (log_event mid lvl body) else c)
    \<and> LOG_HANDLE mid lvl (psycho_log_module_level_set ctx mid' g) body =
      Some (let c = psycho_log_module_level_set ctx mid' g
        in if lvl \<le> (if mid = mid' then g else modules (log ctx) ! log_module_index mid)
           then event_cb c (log_event mid lvl body) else c)"
proof -
  have "modules (log (psycho_log_level_set_global ctx g)) = replicate 6 g"
    using assms(1) by (simp add: psycho_log_level_set_global_def level_set_loop_spec
        PSYCHO_LOG_MODULE_ID_NUM_def)
  moreover have "modules (log (psycho_log_module_level_set ctx mid' g)) ! log_module_index mid
      = (if mid = mid' then g else modules (log ctx) ! log_module_index mid)"
    using assms(1) by (simp add: psycho_log_module_level_set_def PSYCHO_LOG_MODULE_ID_NUM_def
        nth_list_update)
  ultimately show ?thesis using assms(2,3) by (simp add: log_emit_def)
qed

lemma log_levels_witness:
  "LOG_HANDLE PSYCHO_LOG_MODULE_ID_CPU PSYCHO_LOG_LEVEL_WARN
      (psycho_log_level_set_global zero_ctx PSYCHO_LOG_LEVEL_INFO) ''x''
    = Some (psycho_log_level_set_global zero_ctx PSYCHO_LOG_LEVEL_INFO)"
proof -
  have len: "length (modules (log zero_ctx)) = PSYCHO_LOG_MODULE_ID_NUM"
    by (simp add: PSYCHO_LOG_MODULE_ID_NUM_def)
  have "\<not> PSYCHO_LOG_LEVEL_WARN \<le> PSYCHO_LOG_LEVEL_INFO" by (simp add: less_eq_psycho_log_level_def)
  then show ?thesis
    using log_levels [OF len, of PSYCHO_LOG_LEVEL_WARN "''x''" PSYCHO_LOG_MODULE_ID_CPU
      PSYCHO_LOG_LEVEL_INFO] by simp
qed

text \<open>
  C37: a message overruns its array exactly when prefix and text together reach its size; the
  assertion of the source rules out only a text of that size alone, so texts a few characters
  shorter pass it and overrun.
\<close>

theorem log_message_bound:
  assumes "lvl \<noteq> PSYCHO_LOG_LEVEL_OFF"
  shows "(psycho_log_message_dispatch ctx mid lvl body = None
      \<longleftrightarrow> PSYCHO_LOG_MSG_SIZE_MAX \<le> length (log_text mid lvl body))
    \<and> (\<exists>body. length body < PSYCHO_LOG_MSG_SIZE_MAX \<and> psycho_log_message_dispatch ctx mid lvl body = None)"
proof -
  have iff: "psycho_log_message_dispatch ctx mid lvl body = None
      \<longleftrightarrow> PSYCHO_LOG_MSG_SIZE_MAX \<le> length (log_text mid lvl body)" for body
    using log_dispatch_iff [OF assms] by (simp add: PSYCHO_LOG_MSG_SIZE_MAX_def)
  have "length (replicate 511 (CHR ''x'')) < PSYCHO_LOG_MSG_SIZE_MAX
    \<and> psycho_log_message_dispatch ctx mid lvl (replicate 511 (CHR ''x'')) = None"
    unfolding iff by (simp add: PSYCHO_LOG_MSG_SIZE_MAX_def log_text_def)
  with iff show ?thesis by blast
qed

lemma log_message_bound_witness:
  "psycho_log_message_dispatch zero_ctx PSYCHO_LOG_MODULE_ID_CPU PSYCHO_LOG_LEVEL_WARN
     (replicate 505 (CHR ''x'')) = None"
  using log_message_bound [of PSYCHO_LOG_LEVEL_WARN zero_ctx PSYCHO_LOG_MODULE_ID_CPU
      "replicate 505 (CHR ''x'')"]
  by (simp add: PSYCHO_LOG_MSG_SIZE_MAX_def log_text_def)

section \<open>The TTY\<close>

lemma to_char_eq_iff: "to_char w = c \<longleftrightarrow> unat w mod 256 = of_char c"
  by (simp add: to_char_def char_of_eq_iff unsigned_ucast_eq take_bit_eq_mod)

lemma to_char_newline: "to_char 0x0A = newline"
  by (simp add: to_char_eq_iff newline_def)

lemmas char_facts = to_char_eq_iff eq_commute [of _ "to_char _"] newline_def NUL_def

lemma zero_ctx_tty: "tty_empty zero_ctx" "regs_wide zero_ctx"
  by (simp_all add: tty_empty_def regs_wide_def zero_ctx_def CPU_GPR_NUM_def)

text \<open>
  C32: a line of exactly 255 characters fills the array with its newline: no NUL is left, and
  the text handed to the log has no end inside the array.
\<close>

theorem tty_overlong_line:
  assumes "tty_empty ctx" "regs_wide ctx" "length ws = 255"
    and "newline \<notin> to_char ` set ws" "NUL \<notin> to_char ` set ws"
  shows "(\<exists>c. tty_feed ctx ws = Some c) \<and> tty_feed ctx (ws @ [0x0A]) = None"
proof -
  obtain c where c: "tty_feed ctx ws = Some c" "tty_holds c (map to_char ws)" "regs_wide c"
    using tty_feed_line [of ctx "[]" ws] assms by (auto simp: tty_holds_nil)
  have "handle_tty_output (with_a0 c 0x0A) = None"
    by (rule tty_newline_full [where p = "map to_char ws"]) (use assms c in \<open>auto simp: to_char_newline\<close>)
  with c show ?thesis by (simp add: tty_feed_append)
qed

lemma tty_overlong_line_witness: "tty_feed zero_ctx (replicate 255 0x78 @ [0x0A]) = None"
proof -
  have "newline \<notin> to_char ` set (replicate 255 0x78)" "NUL \<notin> to_char ` set (replicate 255 0x78)"
    by (auto simp: char_facts)
  with tty_overlong_line [OF zero_ctx_tty length_replicate] show ?thesis by blast
qed

section \<open>The trace of the character function\<close>

lemma trace_begin_result:
  assumes "traced_call ctx" "trace_inv (bios_trace ctx)" "psycho_bios_trace_begin ctx = Some c"
  shows "curr_func (bios_trace c) = b0_funcs 0x3D"
    and "waiting_for_return (bios_trace c) = waiting_for_return (bios_trace ctx)"
    and "c_string_of (trace_result (bios_trace c))
      = Some (c_str (''void std_out_putchar(char c='' @ process_arg_char (a0_char ctx) @ '')''))"
    and "length (trace_result (bios_trace c)) = 128"
proof -
  let ?s = "set_func ctx"
  from assms(1,3) obtain d where
    d: "(if enable_tty_output (bios_trace ctx) then handle_tty_output ?s else Some ?s) = Some d"
    and p: "process_prototype d = Some c"
    by (auto simp: trace_begin_call elim!: bind_eq_SomeE)
  have d_cpu: "cpu d = cpu ctx"
    using d handle_tty_output_frame [of ?s d] by (auto simp: set_func_def trace_only_def split: if_splits)
  have func: "curr_func (bios_trace d) = b0_funcs 0x3D" "length (trace_result (bios_trace d)) = 128"
    "waiting_for_return (bios_trace d) = waiting_for_return (bios_trace ctx)"
    using d assms(2) handle_tty_output_func [of ?s d]
    by (auto simp: set_func_def trace_inv_def split: if_splits)
  obtain res where "process_prototype d = Some (bios_trace_update (\<lambda>b. b\<lparr>trace_result := res\<rparr>) d)"
    and res: "length res = 128" "NUL \<in> set res"
      "c_str res = c_str (''void std_out_putchar(char c='' @ process_arg_char (a0_char d) @ '')'')"
    by (rule process_prototype_frame [OF func(1,2)])
  with p have "c = bios_trace_update (\<lambda>b. b\<lparr>trace_result := res\<rparr>) d" by simp
  with func res d_cpu show "curr_func (bios_trace c) = b0_funcs 0x3D"
    "waiting_for_return (bios_trace c) = waiting_for_return (bios_trace ctx)"
    "c_string_of (trace_result (bios_trace c))
      = Some (c_str (''void std_out_putchar(char c='' @ process_arg_char (a0_char ctx) @ '')''))"
    "length (trace_result (bios_trace c)) = 128"
    by (simp_all add: c_string_of_def a0_char_def)
qed

text \<open>
  A call of the BIOS's character function is logged at the end of the step with the
  character of its start, in quotes and a newline escaped, and then forgotten.
\<close>

lemma putchar_traced:
  assumes "traced_call ctx" "trace_inv (bios_trace ctx)" "\<not> waiting_for_return (bios_trace ctx)"
    and "psycho_bios_trace_begin ctx = Some c" "bios_trace d = bios_trace c"
  shows "psycho_bios_trace_end d = Some (bios_trace_update (\<lambda>b. b\<lparr>curr_func := None\<rparr>)
    (log_emit BIOS PSYCHO_LOG_LEVEL_INFO d
      (c_str (''void std_out_putchar(char c='' @ process_arg_char (a0_char ctx) @ '')''))))"
proof -
  note r = trace_begin_result [OF assms(1,2,4)]
  let ?t = "c_str (''void std_out_putchar(char c='' @ process_arg_char (a0_char ctx) @ '')'')"
  have "length ?t \<le> length (trace_result (bios_trace c))"
    using r(3) length_c_str_le [of "trace_result (bios_trace c)"]
    unfolding c_string_of_def by (metis option.distinct(1) option.inject)
  then have "length ?t \<le> 492" using r(4) by simp
  then have log: "LOG_HANDLE BIOS PSYCHO_LOG_LEVEL_INFO d ?t = Some (log_emit BIOS PSYCHO_LOG_LEVEL_INFO d ?t)"
    by (intro LOG_HANDLE_fits) simp_all
  have "LOG_HANDLE_array BIOS PSYCHO_LOG_LEVEL_INFO d (trace_result (bios_trace c))
      = LOG_HANDLE BIOS PSYCHO_LOG_LEVEL_INFO d ?t"
    by (simp only: LOG_HANDLE_array_def LOG_HANDLE_def r(3) bind.bind_lunit)
  with log r(1,2) assms(3,5) show ?thesis
    by (simp add: psycho_bios_trace_end_def b0_funcs_def)
qed

text \<open>The call that prints a newline.\<close>

lemma putchar_traced_witness:
  "\<exists>ctx c. psycho_bios_trace_begin ctx = Some c
    \<and> psycho_bios_trace_end c = Some (bios_trace_update (\<lambda>b. b\<lparr>curr_func := None\<rparr>)
      (log_emit BIOS PSYCHO_LOG_LEVEL_INFO c
        (''void std_out_putchar(char c='' @ [CHR 0x27, CHR 0x5C, CHR ''n'', CHR 0x27] @ '')'')))"
proof -
  obtain ctx where ctx: "ctx = cpu_update (\<lambda>c. c\<lparr>pc := 0xB0,
      gpr := (replicate 32 0)[gpr_index CPU_GPR_T1 := 0x3D, gpr_index CPU_GPR_A0 := 0x0A]\<rparr>) zero_ctx"
    by blast
  have call: "traced_call ctx" and a0: "a0_char ctx = newline"
    by (simp_all add: ctx traced_call_def a0_char_def to_char_newline)
  have inv: "trace_inv (bios_trace ctx)" and idle: "\<not> waiting_for_return (bios_trace ctx)"
    and tty: "\<not> enable_tty_output (bios_trace ctx)"
    by (simp_all add: ctx trace_inv_def zero_ctx_def zero_tty_def PSYCHO_BIOS_TTY_OUTPUT_SIZE_MAX_def
        PSYCHO_BIOS_TRACE_RESULT_SIZE_def)
  then obtain c where c: "psycho_bios_trace_begin ctx = Some c"
    using trace_begin_None_iff [OF inv] by blast
  have "c_str (''void std_out_putchar(char c='' @ process_arg_char newline @ '')'')
    = ''void std_out_putchar(char c='' @ [CHR 0x27, CHR 0x5C, CHR ''n'', CHR 0x27] @ '')''"
    by (simp add: process_arg_char_def escape_seq_def c_str_def NUL_def)
  with putchar_traced [OF call inv idle c refl] c show ?thesis unfolding a0 by auto
qed

end
