(* ===== verification/Tty_Runs.thy ===== *)
theory Tty_Runs
  imports App_Runs Trace_Properties
begin

text \<open>
  From the characters a guest program prints to the file on the host's disk. A step of the
  machine prints a character when it is about to enter the character function of the BIOS; the
  line buffer, the TTY message and the flushed file carry each completed line to the disk.
\<close>

section \<open>Parts of a step that do not touch the line buffer\<close>

definition tty_same :: "psycho_ctx \<Rightarrow> psycho_ctx \<Rightarrow> bool" where
  "tty_same s t \<longleftrightarrow> tty_stdout (bios_trace t) = tty_stdout (bios_trace s)
     \<and> enable_tty_output (bios_trace t) = enable_tty_output (bios_trace s)
     \<and> tty_output (event_trace t) = tty_output (event_trace s)"

lemma tty_same_refl [simp]: "tty_same s s"
  by (simp add: tty_same_def)

lemma tty_same_trans: "tty_same s t \<Longrightarrow> tty_same t u \<Longrightarrow> tty_same s u"
  by (simp add: tty_same_def)

lemma logs_no_tty: "\<forall>ev \<in> set evs. is_log ev \<Longrightarrow> tty_output evs = []"
  by (induction evs) (auto simp: is_log_def)

lemma logs_tty_same:
  assumes "logs_only s t" "bios_trace t = bios_trace s"
  shows "tty_same s t"
  using assms logs_no_tty by (auto simp: logs_only_def tty_same_def)

lemma reports_tty_same:
  assumes "reports b s t" "bios_trace t = bios_trace s"
  shows "tty_same s t"
  using assms logs_no_tty by (auto simp: reports_def tty_same_def)

lemma disasm_pre_tty:
  assumes "ctx_inv ctx" "disasm_pre ctx = Some c"
  shows "tty_same ctx c"
proof (rule logs_tty_same)
  show "bios_trace c = bios_trace ctx" using disasm_pre_facts(2) [OF assms] by simp
qed (rule disasm_pre_logs [OF assms(2)])

lemma cpu_step_tty:
  assumes "ctx_inv ctx" "psycho_cpu_step ctx = Some c"
  shows "tty_same ctx c"
proof -
  have inv: "cpu_inv ctx" using assms(1) by (simp add: ctx_inv_def)
  show ?thesis
    by (rule reports_tty_same [OF cpu_step_reports [OF inv assms(2)]])
      (use step_keeps [OF inv assms(2)] in \<open>simp add: keeps_def\<close>)
qed

lemma dispatch_tty: "psycho_log_message_dispatch ctx m l s = Some c \<Longrightarrow> tty_same ctx c"
  by (auto simp: psycho_log_message_dispatch_def Let_def tty_same_def split: if_splits
      elim!: bind_eq_SomeE)

lemma disasm_post_tty: "disasm_post ctx = Some c \<Longrightarrow> tty_same ctx c"
  by (auto simp: disasm_post_def psycho_disasm_trace_end_def LOG_HANDLE_def dest: dispatch_tty
      split: if_splits)

lemma bios_post_tty: "psycho_bios_trace_end ctx = Some c \<Longrightarrow> tty_same ctx c"
  by (auto simp: psycho_bios_trace_end_def LOG_HANDLE_array_def elim!: bind_eq_SomeE
      dest!: dispatch_tty split: if_splits) (auto simp: tty_same_def)

lemma prototype_tty:
  assumes "process_prototype ctx = Some c"
  shows "tty_same ctx c"
  using assms by (auto simp: process_prototype_def tty_same_def elim!: bind_eq_SomeE)

section \<open>A step\<close>

text \<open>The character a step prints, if it prints one.\<close>

definition printed :: "psycho_ctx \<Rightarrow> string" where
  "printed ctx = (if traced_call ctx then [a0_char ctx] else [])"

text \<open>The capture is on, the line buffer holds \<open>p\<close>, and \<open>out\<close> has been delivered.\<close>

definition captures :: "psycho_ctx \<Rightarrow> string \<Rightarrow> string \<Rightarrow> bool" where
  "captures ctx p out \<longleftrightarrow> enable_tty_output (bios_trace ctx) \<and> tty_holds ctx p
     \<and> tty_output (event_trace ctx) = out"

lemma captures_same: "captures s p out \<Longrightarrow> tty_same s t \<Longrightarrow> captures t p out"
  by (simp add: captures_def tty_same_def tty_holds_def)

lemma captures_set_func [simp]: "captures (set_func ctx) p out = captures ctx p out"
  by (simp add: captures_def set_func_def tty_holds_def)

lemma captures_char:
  assumes "captures ctx p out" "length p < 255" "a0_char ctx \<noteq> newline"
    and "handle_tty_output ctx = Some c"
  shows "captures c (p @ [a0_char ctx]) out"
  using assms tty_char_step [of ctx p]
  by (auto simp: captures_def with_tty_def tty_holds_def tty_of_def)

lemma captures_newline:
  assumes "captures ctx p out" "length p < 255" "NUL \<notin> set p" "a0_char ctx = newline"
    and "handle_tty_output ctx = Some c"
  shows "captures c [] (out @ p @ [newline])"
proof -
  let ?d = "tty_data (tty_of (p @ [newline]))"
  have "?d = (p @ [newline]) @ NUL # replicate (254 - length p) NUL"
    using assms(2) by (cases "255 - length p") (auto simp: tty_of_def)
  then have "c_str ?d = p @ [newline]"
    using assms(3) by (simp only:, subst c_str_append_NUL) (auto simp: newline_def NUL_def)
  then show ?thesis
    using assms tty_newline_step [of ctx p]
    by (auto simp: captures_def with_tty_def tty_holds_nil tty_empty_def log_event_def)
qed

text \<open>What a character does to the pending text and to what has been delivered.\<close>

fun deliver :: "string \<Rightarrow> string \<Rightarrow> string \<Rightarrow> string \<times> string" where
  "deliver p out [] = (p, out)"
| "deliver p out (c # cs) =
     (if c = newline then deliver [] (out @ p @ [newline]) cs else deliver (p @ [c]) out cs)"

text \<open>Lines of fewer than 255 characters, the first of which has \<open>k\<close> already, and no NUL.\<close>

fun short_lines :: "nat \<Rightarrow> string \<Rightarrow> bool" where
  "short_lines k [] = True"
| "short_lines k (c # cs) \<longleftrightarrow> c \<noteq> NUL \<and>
     (if c = newline then short_lines 0 cs else Suc k < 255 \<and> short_lines (Suc k) cs)"

lemma deliver_append: "deliver p out (xs @ ys) = (case deliver p out xs of (q, o1) \<Rightarrow> deliver q o1 ys)"
  by (induction p out xs rule: deliver.induct) simp_all

text \<open>Delivered and pending text make up what was printed; the delivered text ends a line.\<close>

lemma deliver_split:
  assumes "deliver p out cs = (q, o1)" "newline \<notin> set p"
  shows "newline \<notin> set q" "o1 @ q = out @ p @ cs" "o1 = out \<or> last o1 = newline \<and> o1 \<noteq> []"
proof -
  have "newline \<notin> set q \<and> o1 @ q = out @ p @ cs \<and> (o1 = out \<or> last o1 = newline \<and> o1 \<noteq> [])"
    using assms
  proof (induction p out cs rule: deliver.induct)
    case (2 p out c cs)
    then show ?case by (cases "c = newline") auto
  qed simp
  then show "newline \<notin> set q" "o1 @ q = out @ p @ cs" "o1 = out \<or> last o1 = newline \<and> o1 \<noteq> []"
    by simp_all
qed

lemma step_captures:
  assumes "ctx_inv ctx" "captures ctx p out" "length p < 255" "NUL \<notin> set p"
    and "psycho_step ctx = Some c" "deliver p out (printed ctx) = (q, o1)"
  shows "captures c q o1"
proof -
  obtain d b e f where d: "disasm_pre ctx = Some d" and b: "psycho_bios_trace_begin d = Some b"
    and e: "psycho_cpu_step b = Some e" and f: "disasm_post e = Some f" "psycho_bios_trace_end f = Some c"
    using assms(5) by (auto simp: psycho_step_fold elim!: bind_eq_SomeE)
  have "ctx_inv d" "same_machine d ctx" using disasm_pre_facts(2) [OF assms(1) d] by simp_all
  moreover from this have "ctx_inv b" using bios_pre_facts(2) b by blast
  ultimately have rest: "tty_same b c"
    using cpu_step_tty [OF _ e] disasm_post_tty [OF f(1)] bios_post_tty [OF f(2)]
    by (blast intro: tty_same_trans)
  have sm: "traced_call d = traced_call ctx" "a0_char d = a0_char ctx"
    using \<open>same_machine d ctx\<close> by (simp_all add: same_machine_def traced_call_def a0_char_def)
  have cap: "captures d p out"
    using assms(2) disasm_pre_tty [OF assms(1) d] by (rule captures_same)
  have "captures b q o1"
  proof (cases "traced_call ctx")
    case False
    with b assms(6) cap sm show ?thesis by (simp add: trace_begin_idle printed_def)
  next
    case True
    then obtain h where h: "handle_tty_output (set_func d) = Some h" "process_prototype h = Some b"
      using b sm(1) cap by (auto simp: trace_begin_call captures_def elim!: bind_eq_SomeE)
    have a0: "a0_char (set_func d) = a0_char ctx"
      using sm(2) by (simp add: set_func_def a0_char_def)
    have "captures h q o1"
    proof (cases "a0_char ctx = newline")
      case nl: True
      with captures_newline [OF _ assms(3,4) _ h(1)] cap a0 assms(6) True show ?thesis
        by (auto simp: printed_def)
    next
      case nl: False
      with captures_char [OF _ assms(3) _ h(1)] cap a0 assms(6) True show ?thesis
        by (simp add: printed_def)
    qed
    then show ?thesis using prototype_tty [OF h(2)] by (rule captures_same)
  qed
  then show ?thesis using rest by (rule captures_same)
qed

text \<open>A step keeps the pending text short when the printed text has short lines.\<close>

lemma printed_short:
  assumes "short_lines (length p) (printed ctx @ cs)" "length p < 255" "NUL \<notin> set p"
    and "deliver p out (printed ctx) = (q, o1)"
  shows "short_lines (length q) cs \<and> length q < 255 \<and> NUL \<notin> set q"
  using assms by (auto simp: printed_def split: if_splits)

section \<open>Runs of the machine\<close>

primrec printed_run :: "nat \<Rightarrow> psycho_ctx \<Rightarrow> string" where
  "printed_run 0 ctx = []"
| "printed_run (Suc n) ctx =
     printed ctx @ (case psycho_step ctx of None \<Rightarrow> [] | Some ctx' \<Rightarrow> printed_run n ctx')"

lemma run_captures:
  assumes "ctx_inv ctx" "captures ctx p out" "short_lines (length p) (printed_run n ctx)"
    and "length p < 255" "NUL \<notin> set p" "run_steps psycho_step n ctx = Some c"
    and "deliver p out (printed_run n ctx) = (q, o1)"
  shows "captures c q o1"
  using assms
proof (induction n arbitrary: ctx p out)
  case (Suc n)
  from Suc.prems(6) obtain d where d: "psycho_step ctx = Some d" "run_steps psycho_step n d = Some c"
    by (auto elim!: bind_eq_SomeE)
  obtain p1 o2 where del: "deliver p out (printed ctx) = (p1, o2)"
    by (cases "deliver p out (printed ctx)")
  have "captures d p1 o2" using step_captures [OF Suc.prems(1,2,4,5) d(1) del] .
  moreover have "short_lines (length p1) (printed_run n d) \<and> length p1 < 255 \<and> NUL \<notin> set p1"
    using printed_short [OF _ Suc.prems(4,5) del] Suc.prems(3) d(1) by simp
  moreover have "deliver p1 o2 (printed_run n d) = (q, o1)"
    using Suc.prems(7) d(1) del by (simp add: deliver_append)
  ultimately show ?case
    using Suc.IH [of d p1 o2] machine.step_inv [OF Suc.prems(1) d(1)] d(2) by blast
qed simp

text \<open>
  C30: started with a line of which some characters are already in the buffer, what a guest
  prints while the capture is on, without NUL and in lines of fewer than 255 characters, is
  delivered to the host up to the last newline, complete and in order behind those characters,
  whatever else the machine executes, logs and traces in between.
\<close>

theorem tty_captures_run:
  assumes "ctx_inv ctx" "enable_tty_output (bios_trace ctx)"
    and "tty_holds ctx held" "length held < 255" "NUL \<notin> set held" "newline \<notin> set held"
    and "short_lines (length held) (printed_run n ctx)" "run_steps psycho_step n ctx = Some ctx'"
  shows "\<exists>lines rest. held @ printed_run n ctx = lines @ rest \<and> newline \<notin> set rest
    \<and> (lines = [] \<or> last lines = newline)
    \<and> tty_output (event_trace ctx') = tty_output (event_trace ctx) @ lines"
proof -
  obtain q l where del: "deliver held [] (printed_run n ctx) = (q, l)"
    by (cases "deliver held [] (printed_run n ctx)")
  have shift: "deliver p (out @ x) cs = (case deliver p x cs of (q, y) \<Rightarrow> (q, out @ y))" for p out x cs
    by (induction p x cs rule: deliver.induct) simp_all
  let ?out = "tty_output (event_trace ctx)"
  have "deliver held ?out (printed_run n ctx) = (q, ?out @ l)"
    using shift [of held ?out "[]"] del by simp
  with assms have "captures ctx' q (?out @ l)"
    by - (rule run_captures [of ctx held ?out n], simp_all add: captures_def)
  then have "tty_output (event_trace ctx') = ?out @ l" by (simp add: captures_def)
  moreover have "held @ printed_run n ctx = l @ q" "newline \<notin> set q" "l = [] \<or> last l = newline"
    using deliver_split [OF del assms(6)] by auto
  ultimately show ?thesis by blast
qed

text \<open>A guest about to print a newline.\<close>

definition newline_regs :: "u32 list" where
  "newline_regs = (replicate 32 0)[9 := 0x3D, 4 := 0x0A]"

definition newline_ctx :: psycho_ctx where
  "newline_ctx = psycho_tty_stdout_enable (cpu_update (\<lambda>c. c\<lparr>pc := 0xB0, next_pc := 0xB4\<rparr>)
     (program_ctx (replicate 45 0) newline_regs)) True"

lemma newline_ctx_parts:
  "cpu newline_ctx = (cpu (program_ctx (replicate 45 0) newline_regs))\<lparr>pc := 0xB0, next_pc := 0xB4\<rparr>"
  "bus newline_ctx = bus (program_ctx (replicate 45 0) newline_regs)"
  "disasm newline_ctx = disasm zero_ctx" "log newline_ctx = log zero_ctx"
  "bios_trace newline_ctx = (bios_trace zero_ctx)\<lparr>enable_tty_output := True\<rparr>"
  "event_trace newline_ctx = []"
  by (simp_all add: newline_ctx_def psycho_tty_stdout_enable_def)

lemma newline_ctx_inv: "ctx_inv newline_ctx"
proof -
  have "ctx_inv (program_ctx (replicate 45 0) newline_regs)"
    by (rule program_ctx_inv) (simp_all add: newline_regs_def)
  then show ?thesis
    unfolding newline_ctx_def by (intro setting_inv) (simp add: ctx_inv_def cpu_inv_def cpu_shape_def)
qed

lemma newline_ctx_prints: "printed newline_ctx = [newline]"
  by (simp add: printed_def traced_call_def newline_ctx_parts newline_regs_def a0_char_def
      to_char_newline)

lemma newline_ctx_steps: "psycho_step newline_ctx \<noteq> None"
proof -
  have zero: "tty_stdout (bios_trace zero_ctx) = zero_tty" using zero_ctx_tty by (simp add: tty_empty_def)
  have "\<not> trace_faults newline_ctx" by (simp add: trace_faults_def newline_ctx_parts)
  moreover have "\<not> tty_faults newline_ctx"
    by (simp add: tty_faults_def tty_unterminated_def newline_ctx_parts zero zero_tty_def
        PSYCHO_BIOS_TTY_OUTPUT_SIZE_MAX_def set_conv_nth) (intro impI exI [of _ 1], simp)
  moreover have "step_safe newline_ctx"
  proof -
    have sh: "cpu_shape (cpu newline_ctx)" using newline_ctx_inv by (simp add: ctx_inv_def cpu_inv_def)
    have "psycho_bus_load_word (pre_fetch newline_ctx) 0xB0 = Some (0, pre_fetch newline_ctx)"
      using load_word_program [of "pre_fetch newline_ctx" "replicate 45 0" 44 "0xB0"]
      by (simp add: newline_ctx_parts)
    then have f: "cpu_fetch newline_ctx = Some (cpu_update (after_fetch 0) (pre_fetch newline_ctx))"
      by (simp add: cpu_fetch_eq [OF sh] fetch_pc_def newline_ctx_parts vaddr_to_paddr_def)
    have "enum_of op_value all_ops (instr_op 0) = Some INSTR_GROUP_SPECIAL"
      by (simp add: group_op.enum_of_Some_iff instr_op_def)
    then show ?thesis
      by (simp add: step_safe_def f word_hole_def fetch_pc_def newline_ctx_parts vaddr_to_paddr_def
          exec_faults_def after_fetch_def)
  qed
  ultimately show ?thesis
    using machine.step_progress [OF newline_ctx_inv] by (auto simp: ctx_safe_def)
qed

lemma tty_captures_run_witness:
  "\<exists>c. psycho_step newline_ctx = Some c \<and> tty_output (event_trace c) = [newline]"
proof -
  obtain c where c: "psycho_step newline_ctx = Some c" using newline_ctx_steps by blast
  have run: "printed_run 1 newline_ctx = [newline]" by (simp add: newline_ctx_prints c)
  have empty: "tty_empty newline_ctx"
    using zero_ctx_tty by (simp add: tty_empty_def newline_ctx_parts)
  have short: "short_lines (length []) (printed_run 1 newline_ctx)" unfolding run by (simp add: newline_def NUL_def)
  have "tty_holds newline_ctx []" using empty by (simp add: tty_holds_nil)
  from tty_captures_run [OF newline_ctx_inv _ this _ _ _ short, of c] c
  obtain lines rest where "printed_run 1 newline_ctx = lines @ rest" "newline \<notin> set rest"
    "lines = [] \<or> last lines = newline"
    "tty_output (event_trace c) = tty_output (event_trace newline_ctx) @ lines"
    by (auto simp: newline_ctx_parts)
  then show ?thesis using c run by (cases lines) (auto simp: newline_ctx_parts)
qed

section \<open>Runs of the application\<close>

text \<open>What the guest prints in the turns of the loop.\<close>

primrec app_printed :: "nat \<Rightarrow> emulator \<Rightarrow> string" where
  "app_printed 0 emu = []"
| "app_printed (Suc n) emu = (case load_at_shell emu of
     Inl _ \<Rightarrow> []
   | Inr ctx \<Rightarrow> printed ctx @ (case main_turn emu of Inl _ \<Rightarrow> [] | Inr emu' \<Rightarrow> app_printed n emu'))"

lemma exe_load_tty:
  "psycho_exe_load ctx exe n = Some (code, c) \<Longrightarrow> tty_same ctx c"
  by (auto simp: psycho_exe_load_def set_reg_def Let_def tty_same_def log_emit_def log_event_def
      elim!: bind_eq_SomeE split: if_splits)

lemma load_at_shell_tty: "load_at_shell emu = Inr ctx \<Longrightarrow> tty_same (emu_ctx emu) ctx"
  by (auto simp: load_at_shell_def Let_def psycho_disasm_trace_instruction_enable_def
      psycho_log_level_set_global_def tty_same_def split: option.splits if_splits
      dest!: exe_load_tty)

lemma loop_captures:
  assumes "emu_inv emu" "captures (emu_ctx emu) p out" "short_lines (length p) (app_printed n emu)"
    and "length p < 255" "NUL \<notin> set p" "main_loop n emu = Inr emu'"
    and "deliver p out (app_printed n emu) = (q, o1)"
  shows "captures (emu_ctx emu') q o1"
  using assms
proof (induction n arbitrary: emu p out)
  case (Suc n)
  from Suc.prems(6) obtain e where e: "main_turn emu = Inr e" "main_loop n e = Inr emu'"
    by (auto elim!: sum_case_InrE)
  then obtain ctx ctx' h where l: "load_at_shell emu = Inr ctx" and st: "psycho_step ctx = Some ctx'"
    and e': "e = emu\<lparr>emu_ctx := ctx', emu_host := h\<rparr>"
    unfolding main_turn_def by (auto elim!: sum_case_InrE option_case_InrE)
  obtain p1 o2 where del: "deliver p out (printed ctx) = (p1, o2)"
    by (cases "deliver p out (printed ctx)")
  have "captures ctx p out" using Suc.prems(2) load_at_shell_tty [OF l] by (rule captures_same)
  then have "captures ctx' p1 o2"
    using step_captures [OF load_at_shell_inv [OF Suc.prems(1) l] _ Suc.prems(4,5) st del] by blast
  moreover have "short_lines (length p1) (app_printed n e) \<and> length p1 < 255 \<and> NUL \<notin> set p1"
    using printed_short [OF _ Suc.prems(4,5) del] Suc.prems(3) e(1) l by simp
  moreover have "deliver p1 o2 (app_printed n e) = (q, o1)"
    using Suc.prems(7) e(1) l del by (simp add: deliver_append)
  ultimately show ?case
    using Suc.IH [of e p1 o2] main_turn_inv [OF Suc.prems(1) e(1)] e(2) by (simp add: e')
qed simp

text \<open>The file on the disk, and the text it is the front of.\<close>

lemma text_on_disk:
  assumes "main_setup env argv = Running emu" "tty_opens env" "main_loop n emu = Inr emu'"
    and "short_lines 0 (app_printed n emu)"
  shows "\<exists>f rest. tty_file (emu_host emu') = Some f \<and> unwritten f = []
    \<and> app_printed n emu = on_disk f @ rest \<and> newline \<notin> set rest
    \<and> (on_disk f = [] \<or> last (on_disk f) = newline)"
proof -
  obtain q l where del: "deliver [] [] (app_printed n emu) = (q, l)"
    by (cases "deliver [] [] (app_printed n emu)")
  obtain b where b: "emu_ctx emu = setup_ctx b" using setup_RunningD(3) [OF assms(1)] by blast
  have "captures (emu_ctx emu) [] []"
    using zero_ctx_tty by (simp add: b captures_def tty_holds_nil tty_empty_def setup_ctx_parts
        setup_ctx_trace)
  with setup_RunningD(2) [OF assms(1)] assms(3,4) del have "captures (emu_ctx emu') q l"
    by - (rule loop_captures [of emu "[]" "[]" n], simp_all)
  moreover have "shows_events (emu_host emu') (event_trace (emu_ctx emu'))"
    "tty_file (emu_host emu') \<noteq> None"
    using run_from_start [OF assms(1,3)] assms(2)
    by (simp_all add: run_inv_from_def same_holdings_def started_host_def)
  ultimately have "tty_file (emu_host emu') = Some \<lparr>on_disk = l, unwritten = []\<rparr>"
    by (auto simp: shows_events_def captures_def)
  moreover have "app_printed n emu = l @ q" "newline \<notin> set q" "l = [] \<or> last l = newline"
    using deliver_split [OF del] by auto
  ultimately show ?thesis by simp
qed

end
