(* ===== verification/Cpu_Isolation.thy ===== *)
theory Cpu_Isolation
  imports Memory_Map
begin

text \<open>
  The isolate-cache bit of the status register and the five stores: the memory a store leaves
  depends on the context only through the buffers, the address and the register it stores.
\<close>

context bus_reader begin

lemma load_bus_cong:
  assumes "bus a = bus b"
  shows "map_option (\<lambda>(x, c). (x, bus c)) (load a p) = map_option (\<lambda>(x, c). (x, bus c)) (load b p)"
proof (cases "covers p")
  case True
  with assms show ?thesis by (simp add: load_mapped option.map_comp o_def)
next
  case False
  then show ?thesis using load_unmapped [OF False, of a] load_unmapped [OF False, of b] assms by auto
qed

end

context bus_writer begin

lemma store_bus_cong:
  assumes "bus a = bus b"
  shows "map_option bus (store a p x) = map_option bus (store b p x)"
proof (cases "writable p")
  case True
  with assms show ?thesis by (simp add: store_writable option.map_comp o_def)
next
  case False
  then show ?thesis using store_other [OF False, of a x] store_other [OF False, of b x] assms by auto
qed

end

text \<open>A context whose status register has been replaced.\<close>

definition with_sr :: "u32 \<Rightarrow> psycho_ctx \<Rightarrow> psycho_ctx" where
  "with_sr x ctx = cpu_update (\<lambda>c. c\<lparr>cop0 := (cop0 c)[cop0_index CPU_COP0_SR := x]\<rparr>) ctx"

lemma with_sr_simps [simp]:
  "bus (with_sr x ctx) = bus ctx" "data_paddr (cpu (with_sr x ctx)) = data_paddr (cpu ctx)"
  "data_vaddr (cpu (with_sr x ctx)) = data_vaddr (cpu ctx)" "gpr_rt (with_sr x ctx) = gpr_rt ctx"
  by (simp_all add: with_sr_def data_paddr_def data_vaddr_def)

lemma partial_store_cong:
  assumes "bus a = bus b" "gpr_rt a = gpr_rt b"
  shows "map_option bus (Option.bind (psycho_bus_load_word a p)
      (\<lambda>(w, c). psycho_bus_store_word c p (f w (gpr_rt c))))
    = map_option bus (Option.bind (psycho_bus_load_word b p)
      (\<lambda>(w, c). psycho_bus_store_word c p (f w (gpr_rt c))))"
proof (cases "psycho_bus_load_word a p")
  case None
  with word_port.load_bus_cong [OF assms(1), of p] show ?thesis by simp
next
  case (Some r)
  then obtain w c where c: "psycho_bus_load_word a p = Some (w, c)" by (cases r) simp
  with word_port.load_bus_cong [OF assms(1), of p]
  obtain d where d: "psycho_bus_load_word b p = Some (w, d)" "bus c = bus d" by (cases "psycho_bus_load_word b p") auto
  moreover have "gpr_rt c = gpr_rt d"
    using assms(2) word_port.load_frame(1) [OF c] word_port.load_frame(1) [OF d(1)] by simp
  ultimately show ?thesis using word_port.store_bus_cong [of c d] c by simp
qed

text \<open>
  C40: a set isolate-cache bit makes \<^verbatim>\<open>SW\<close> do nothing at all, not even report a misaligned
  address; the memory that the other four stores leave never depends on the status register.
\<close>

theorem isolation_only_words:
  "(cop0_reg ctx CPU_COP0_SR AND CPU_SR_ISC \<noteq> 0 \<longrightarrow> op_SW ctx = Some ctx)
   \<and> map_option bus (op_SB (with_sr x ctx)) = map_option bus (op_SB ctx)
   \<and> map_option bus (op_SH (with_sr x ctx)) = map_option bus (op_SH ctx)
   \<and> map_option bus (op_SWL (with_sr x ctx)) = map_option bus (op_SWL ctx)
   \<and> map_option bus (op_SWR (with_sr x ctx)) = map_option bus (op_SWR ctx)"
proof (intro conjI)
  note eqs = get_phys_addr_eq raise_exception_eq Let_def
  show "cop0_reg ctx CPU_COP0_SR AND CPU_SR_ISC \<noteq> 0 \<longrightarrow> op_SW ctx = Some ctx"
    by (simp add: op_SW_def)
  show "map_option bus (op_SB (with_sr x ctx)) = map_option bus (op_SB ctx)"
    by (simp add: op_SB_def eqs) (rule byte_port.store_bus_cong, simp)
  show "map_option bus (op_SH (with_sr x ctx)) = map_option bus (op_SH ctx)"
    by (simp add: op_SH_def eqs) (intro impI half_port.store_bus_cong, simp)
  show "map_option bus (op_SWL (with_sr x ctx)) = map_option bus (op_SWL ctx)"
    by (simp add: op_SWL_def eqs) (rule partial_store_cong; simp)
  show "map_option bus (op_SWR (with_sr x ctx)) = map_option bus (op_SWR ctx)"
    by (simp add: op_SWR_def eqs) (rule partial_store_cong; simp)
qed

text \<open>A misaligned \<^verbatim>\<open>sw $v0, 1($zero)\<close> with the cache isolated.\<close>

lemma isolation_only_words_witness:
  "op_SW (with_sr 0x00010000 (instr_ctx 0xAC020001 (replicate 32 0)))
    = Some (with_sr 0x00010000 (instr_ctx 0xAC020001 (replicate 32 0)))"
proof -
  let ?ctx = "with_sr 0x00010000 (instr_ctx 0xAC020001 (replicate 32 0))"
  have "cop0_reg ?ctx CPU_COP0_SR AND CPU_SR_ISC \<noteq> 0"
    by (simp add: with_sr_def CPU_SR_ISC_def)
  then show ?thesis using isolation_only_words [of ?ctx] by blast
qed

end
