(* ===== verification/Trace_Listing.thy ===== *)
theory Trace_Listing
  imports Trace_Properties App_Runs Isa_Accesses Cpu_Isolation
begin

text \<open>
  The listing the application prints: the lines of the disassembler among all messages are one
  for every turn, with the program counter and the text of the word that is there.
\<close>

section \<open>Lines\<close>

fun line_of :: "psycho_event \<Rightarrow> string list" where
  "line_of (PSYCHO_EVENT_LOG_MESSAGE msg) = (if msg_id msg = DISASM then [msg_text msg] else [])"
| "line_of _ = []"

definition listing :: "psycho_event list \<Rightarrow> string list" where
  "listing evs = concat (map line_of evs)"

lemma listing_simps [simp]:
  "listing [] = []" "listing (ev # evs) = line_of ev @ listing evs"
  "listing (evs @ evs') = listing evs @ listing evs'"
  by (simp_all add: listing_def)

definition unlisted :: "psycho_ctx \<Rightarrow> psycho_ctx \<Rightarrow> bool" where
  "unlisted s t \<longleftrightarrow> listing (event_trace t) = listing (event_trace s)"

lemma unlisted_trans: "unlisted s t \<Longrightarrow> unlisted t u \<Longrightarrow> unlisted s u"
  by (simp add: unlisted_def)

lemma logs_unlisted: "\<forall>ev \<in> set evs. is_log ev \<Longrightarrow> listing evs = []"
  by (induction evs) (auto simp: is_log_def)

lemma logs_only_unlisted: "logs_only s t \<Longrightarrow> unlisted s t"
  by (auto simp: logs_only_def unlisted_def logs_unlisted)

lemma reports_unlisted: "reports b s t \<Longrightarrow> unlisted s t"
  by (auto simp: reports_def unlisted_def logs_unlisted)

section \<open>A step\<close>

lemma handle_tty_unlisted:
  assumes "handle_tty_output ctx = Some ctx'"
  shows "unlisted ctx ctx'"
proof (cases "a0_char ctx = newline")
  case True
  then obtain chars s d where "psycho_log_message_dispatch (event_cb (bios_trace_update (\<lambda>b. b\<lparr>tty_stdout :=
        \<lparr>tty_data = chars, tty_len = tty_len (tty_stdout (bios_trace ctx)) + 1\<rparr>\<rparr>) ctx)
      (PSYCHO_EVENT_TTY_MESSAGE chars)) PSYCHO_LOG_MODULE_ID_TTY_STDOUT PSYCHO_LOG_LEVEL_INFO s = Some d"
    and "ctx' = bios_trace_update (\<lambda>b. b\<lparr>tty_stdout := zero_tty\<rparr>) d"
    using assms by (auto simp: handle_tty_output_def Let_def elim!: bind_eq_SomeE)
  then show ?thesis
    using logs_only_unlisted [OF dispatch_logs] by (fastforce simp: unlisted_def)
next
  case False
  have "unlisted ctx (log_emit BIOS l c b)" if "event_trace c = event_trace ctx" for l c b
    using that by (simp add: unlisted_def log_emit_def log_event_def)
  with assms False show ?thesis
    by (auto simp: handle_tty_output_def Let_def unlisted_def split: if_splits elim!: bind_eq_SomeE)
qed

lemma bios_pre_unlisted:
  assumes "psycho_bios_trace_begin ctx = Some c"
  shows "unlisted ctx c"
proof (cases "traced_call ctx")
  case True
  with assms obtain d where d: "(if enable_tty_output (bios_trace ctx)
      then handle_tty_output (set_func ctx) else Some (set_func ctx)) = Some d"
    and c: "process_prototype d = Some c"
    by (auto simp: trace_begin_call elim!: bind_eq_SomeE)
  have "unlisted (set_func ctx) d"
    using d handle_tty_unlisted by (auto simp: unlisted_def split: if_splits)
  moreover have "event_trace c = event_trace d"
    using c by (auto simp: process_prototype_def elim!: bind_eq_SomeE)
  ultimately show ?thesis by (simp add: unlisted_def set_func_def)
next
  case False
  with assms show ?thesis by (simp add: trace_begin_idle unlisted_def)
qed

lemma bios_post_unlisted: "psycho_bios_trace_end ctx = Some c \<Longrightarrow> unlisted ctx c"
  using logs_only_unlisted [OF dispatch_logs]
  by (fastforce simp: psycho_bios_trace_end_def LOG_HANDLE_array_def unlisted_def elim!: bind_eq_SomeE
      split: if_splits)

text \<open>The line of a step: the program counter at its start and the word there.\<close>

definition word_there :: "psycho_ctx \<Rightarrow> u32" where
  "word_there ctx = (case psycho_bus_load_word ctx (vaddr_to_paddr (pc (cpu ctx))) of
     Some (w, _) \<Rightarrow> w | None \<Rightarrow> 0)"

lemma word_there_cong:
  assumes "pc (cpu a) = pc (cpu b)" "bus a = bus b"
  shows "word_there a = word_there b"
  using word_port.load_bus_cong [OF assms(2), of "vaddr_to_paddr (pc (cpu b))"]
  unfolding word_there_def assms(1)
  by (cases "psycho_bus_load_word a (vaddr_to_paddr (pc (cpu b)))";
      cases "psycho_bus_load_word b (vaddr_to_paddr (pc (cpu b)))") auto

definition shown_line :: "psycho_ctx \<Rightarrow> string" where
  "shown_line ctx = ''[info/disasm] 0x'' @ fmt_0X 8 (unat (pc (cpu ctx))) @ '': ''
     @ shown_text (word_there ctx) (pc (cpu ctx))"

definition lists_steps :: "psycho_ctx \<Rightarrow> bool" where
  "lists_steps ctx \<longleftrightarrow> trace_instruction (disasm ctx)
     \<and> PSYCHO_LOG_LEVEL_INFO \<le> modules (log ctx) ! log_module_index DISASM"

lemma step_listed:
  assumes "ctx_inv ctx" "lists_steps ctx" "psycho_step ctx = Some ctx'"
  shows "listing (event_trace ctx') = listing (event_trace ctx) @ [shown_line ctx]"
    and "lists_steps ctx'"
proof -
  obtain d b e f where d: "disasm_pre ctx = Some d" and b: "psycho_bios_trace_begin d = Some b"
    and e: "psycho_cpu_step b = Some e" and f: "disasm_post e = Some f" "psycho_bios_trace_end f = Some ctx'"
    using assms(3) by (auto simp: psycho_step_fold elim!: bind_eq_SomeE)
  have inv: "ctx_inv d" "log d = log ctx" using disasm_pre_facts(2) [OF assms(1) d] by simp_all
  have pre: "psycho_disasm_trace_begin ctx = Some d"
    using d assms(2) by (simp add: disasm_pre_def lists_steps_def)
  then have tr: "trace_instruction (disasm d)"
    using disasm_begin_cases(2) [OF pre] assms(2) by (simp add: lists_steps_def)
  have b': "disasm b = disasm d" "log b = log d" "ctx_inv b"
    using trace_begin_frame [OF b] trace_only_inv(1) [OF trace_begin_frame [OF b] inv(1)] inv(1)
    by (simp_all add: trace_only_def ctx_inv_def)
  then have k: "keeps b e" by (intro step_keeps [OF _ e]) (simp add: ctx_inv_def)
  obtain w x where w: "psycho_bus_load_word ctx (vaddr_to_paddr (pc (cpu ctx))) = Some (w, x)"
    using disasm_begin_cases(1) [of ctx] pre
    by (cases "psycho_bus_load_word ctx (vaddr_to_paddr (pc (cpu ctx)))") (auto simp: disasm_faults_def)
  have dis: "disasm e = disasm d" "log e = log ctx" using k b' inv(2) by (simp_all add: keeps_def)
  have "psycho_disasm_trace_end e = Some f" using f(1) tr by (simp add: disasm_post_def dis(1))
  then have f': "f = log_emit DISASM PSYCHO_LOG_LEVEL_INFO e
      (''0x'' @ fmt_0X 8 (unat (pc (cpu ctx))) @ '': '' @ shown_text w (pc (cpu ctx)))"
    using trace_line [OF pre dis(1) w] by simp
  have "unlisted ctx e"
    using unlisted_trans [OF unlisted_trans [OF logs_only_unlisted [OF disasm_pre_logs [OF d]]
          bios_pre_unlisted [OF b]] reports_unlisted [OF cpu_step_reports [OF _ e]]] b'(3)
    by (simp add: ctx_inv_def)
  then have "listing (event_trace f) = listing (event_trace ctx) @ [shown_line ctx]"
    using assms(2) by (simp add: f' log_emit_def log_event_def log_text_def dis(2) lists_steps_def
        unlisted_def shown_line_def word_there_def w)
  then show "listing (event_trace ctx') = listing (event_trace ctx) @ [shown_line ctx]"
    using bios_post_unlisted [OF f(2)] by (simp add: unlisted_def)
  show "lists_steps ctx'"
    using trace_end_frame [OF f(2)] tr dis assms(2) by (simp add: f' lists_steps_def trace_only_def)
qed

text \<open>At an aligned address the word there is the one the step fetches.\<close>

lemma fetched_there:
  assumes "cpu_inv ctx" "4 dvd unat (pc (cpu ctx))" "cpu_fetch ctx = Some c"
  obtains x where
    "psycho_bus_load_word ctx (vaddr_to_paddr (pc (cpu ctx))) = Some (fetched_instr ctx, x)"
proof -
  have sh: "cpu_shape (cpu ctx)" using assms(1) by (simp add: cpu_inv_def)
  have "fetch_pc (cpu ctx) = pc (cpu ctx)"
    using assms(2) by (simp add: fetch_pc_def mod_and dvd_eq_mod_eq_0)
  then obtain w x where l: "psycho_bus_load_word (pre_fetch ctx) (vaddr_to_paddr (pc (cpu ctx))) = Some (w, x)"
    and c: "c = cpu_update (after_fetch w) x"
    using cpu_fetch_Some [OF sh assms(3)] by metis
  have "fetched_instr ctx = w" by (simp add: fetched_instr_def assms(3) c after_fetch_def)
  then show thesis
    using word_port.load_bus_cong [of "pre_fetch ctx" ctx "vaddr_to_paddr (pc (cpu ctx))"] l that
    by (cases "psycho_bus_load_word ctx (vaddr_to_paddr (pc (cpu ctx)))") auto
qed

lemma word_there_fetched:
  "cpu_inv ctx \<Longrightarrow> 4 dvd unat (pc (cpu ctx)) \<Longrightarrow> cpu_fetch ctx = Some c \<Longrightarrow>
    word_there ctx = fetched_instr ctx"
  by (erule (2) fetched_there) (simp add: word_there_def)

section \<open>The application\<close>

lemma exe_load_unlisted: "psycho_exe_load ctx exe n = Some (code, c) \<Longrightarrow> unlisted ctx c"
  by (auto simp: psycho_exe_load_def set_reg_def Let_def unlisted_def log_emit_def log_event_def
      elim!: bind_eq_SomeE split: if_splits)

lemma all_traced:
  assumes "length (modules (log c)) = PSYCHO_LOG_MODULE_ID_NUM"
  shows "lists_steps (psycho_disasm_trace_instruction_enable
    (psycho_log_level_set_global c PSYCHO_LOG_LEVEL_TRACE) True)"
  using assms by (simp add: lists_steps_def psycho_disasm_trace_instruction_enable_def
      psycho_log_level_set_global_def level_set_loop_spec PSYCHO_LOG_MODULE_ID_NUM_def
      less_eq_psycho_log_level_def)

lemma load_at_shell_listed:
  assumes "emu_inv emu" "lists_steps (emu_ctx emu)" "load_at_shell emu = Inr ctx"
  shows "lists_steps ctx" "listing (event_trace ctx) = listing (event_trace (emu_ctx emu))"
proof -
  have "lists_steps ctx \<and> unlisted (emu_ctx emu) ctx"
  proof (cases "pc (cpu (emu_ctx emu)) = 0x80030000")
    case False
    with assms(2,3) show ?thesis by (simp add: load_at_shell_def unlisted_def)
  next
    case True
    with assms(3) obtain code c where
      c: "psycho_exe_load (emu_ctx emu) (exe_data emu) (exe_size emu) = Some (code, c)"
      and ctx: "ctx = psycho_disasm_trace_instruction_enable
        (psycho_log_level_set_global c PSYCHO_LOG_LEVEL_TRACE) True"
      by (auto simp: load_at_shell_def Let_def split: option.splits if_splits)
    have "length (modules (log c)) = PSYCHO_LOG_MODULE_ID_NUM"
      using exe_load_inv [OF _ _ c] assms(1) by (simp add: emu_inv_def ctx_inv_def)
    moreover have "unlisted c ctx"
      by (simp add: ctx unlisted_def psycho_disasm_trace_instruction_enable_def
          psycho_log_level_set_global_def)
    ultimately show ?thesis
      using all_traced exe_load_unlisted [OF c] by (auto simp: ctx elim: unlisted_trans)
  qed
  then show "lists_steps ctx" "listing (event_trace ctx) = listing (event_trace (emu_ctx emu))"
    by (simp_all add: unlisted_def)
qed

text \<open>The lines of the first \<open>n\<close> turns.\<close>

primrec app_lines :: "nat \<Rightarrow> emulator \<Rightarrow> string list" where
  "app_lines 0 emu = []"
| "app_lines (Suc n) emu = (case load_at_shell emu of Inl _ \<Rightarrow> []
   | Inr ctx \<Rightarrow> shown_line ctx # (case main_turn emu of Inl _ \<Rightarrow> [] | Inr emu' \<Rightarrow> app_lines n emu'))"

lemma loop_listed:
  assumes "emu_inv emu" "lists_steps (emu_ctx emu)" "main_loop n emu = Inr emu'"
  shows "listing (event_trace (emu_ctx emu')) = listing (event_trace (emu_ctx emu)) @ app_lines n emu"
  using assms
proof (induction n arbitrary: emu)
  case (Suc n)
  from Suc.prems(3) obtain e where e: "main_turn emu = Inr e" "main_loop n e = Inr emu'"
    by (auto elim!: sum_case_InrE)
  then obtain ctx ctx' h where l: "load_at_shell emu = Inr ctx" and st: "psycho_step ctx = Some ctx'"
    and e': "e = emu\<lparr>emu_ctx := ctx', emu_host := h\<rparr>"
    unfolding main_turn_def by (auto elim!: sum_case_InrE option_case_InrE)
  note listed = load_at_shell_listed [OF Suc.prems(1,2) l]
  note step = step_listed [OF load_at_shell_inv [OF Suc.prems(1) l] listed(1) st]
  have "listing (event_trace (emu_ctx emu')) = listing (event_trace (emu_ctx e)) @ app_lines n e"
    by (rule Suc.IH) (use main_turn_inv [OF Suc.prems(1) e(1)] step(2) e(2) in \<open>simp_all add: e'\<close>)
  then show ?case using step(1) listed(2) l e(1) by (simp add: e')
qed simp

lemma setup_lists: "lists_steps (setup_ctx b)"
  unfolding setup_ctx_def
  by (rule all_traced)
    (simp add: psycho_tty_stdout_enable_def init_parts zero_ctx_parts PSYCHO_LOG_MODULE_ID_NUM_def)

text \<open>
  C11: the listing is complete, in order and without anything else: of all messages the application
  prints in n turns, the disassembler's are exactly one for each turn, with the program
  counter and the text of the instruction the turn is about to execute.
\<close>

theorem app_lists_instructions:
  assumes "main_setup env argv = Running emu" "main_loop n emu = Inr emu'"
  shows "listing (event_trace (emu_ctx emu')) = app_lines n emu"
proof -
  obtain b where b: "emu_ctx emu = setup_ctx b" using setup_RunningD(3) [OF assms(1)] by blast
  have inv: "emu_inv emu" by (rule setup_RunningD(2) [OF assms(1)])
  have "lists_steps (emu_ctx emu)" unfolding b by (rule setup_lists)
  from loop_listed [OF inv this assms(2)] show ?thesis by (simp add: b setup_ctx_parts)
qed

text \<open>A BIOS of zeroes begins with a nop.\<close>

lemma app_lists_instructions_witness:
  "\<exists>emu emu'. main_setup (sample_env 0) sample_args = Running emu \<and> main_loop 1 emu = Inr emu'
    \<and> listing (event_trace (emu_ctx emu')) = [''[info/disasm] 0xBFC00000: nop'']"
proof -
  obtain emu emu' where run: "main_setup (sample_env 0) sample_args = Running emu"
    "main_loop 1 emu = Inr emu'" by (rule nop_turn)
  note start = setup_RunningD [OF run(1)]
  from start(3) obtain b where b: "emu_ctx emu = setup_ctx b" "holds_file b (sample_env 0) (sample_args ! 1)"
    by blast
  have "map (buf_byte b) [0..<4] = replicate 4 0"
    using holds_file_front [OF b(2)] by (simp add: sample_env_def sample_args_def take_replicate)
  then have "bios_word (bus (setup_ctx b)) = 0"
    by (simp add: bios_word_def setup_ctx_parts four_times)
  moreover have "bus_sized (bus (setup_ctx b))"
    using start(2) by (simp add: emu_inv_def ctx_inv_def cpu_inv_def b(1))
  ultimately have w: "word_there (setup_ctx b) = 0"
    using load_reset_word [of "setup_ctx b"]
    by (simp add: word_there_def setup_ctx_parts vaddr_to_paddr_def)
  have op: "enum_of op_value all_ops (instr_op 0) = Some INSTR_GROUP_SPECIAL"
    by (simp add: group_op.enum_of_Some_iff instr_op_def)
  have fn: "enum_of special_value all_specials (instr_funct 0) = Some INSTR_SLL"
    by (simp add: group_special.enum_of_Some_iff instr_funct_def)
  have nop: "shown_text 0 a = ''nop''" for a
    by (simp add: shown_text_def disasm_text_def op fn)
  have hex: "fmt_0X 8 0xBFC00000 = ''BFC00000''"
    by (simp add: fmt_0X_def base_digits.simps [of 16] hex_digit_def)
  have "shown_line (setup_ctx b) = ''[info/disasm] 0xBFC00000: nop''"
    by (simp add: shown_line_def w nop setup_ctx_parts hex)
  moreover have "load_at_shell emu = Inr (setup_ctx b)"
    by (simp add: load_at_shell_def b(1) setup_ctx_parts)
  ultimately show ?thesis
    using app_lists_instructions [OF run] run by (auto split: sum.splits)
qed

end
