(* ===== verification/Console_Refines.thy ===== *)
theory Console_Refines
  imports Exe_Load Cpu_Settled Tty_Runs Trace_Listing
begin

text \<open>
  The application refines the console of \<open>Console_Spec\<close>: its loop with the loader, the hooks, the
  CPU, the bus, the event handlers and the TTY file against one small machine.
\<close>

section \<open>The hooks\<close>

lemma accepts_iff:
  "accepts c t \<longleftrightarrow> c \<noteq> NUL \<and> (c = newline \<or> length (open_line t) + 1 < 255)"
  by (simp add: accepts_def newline_def)

lemma put_char_deliver:
  "deliver (open_line t) (stored t) [c] = (open_line (put_char c t), stored (put_char c t))"
  by (simp add: put_char_def newline_def)

text \<open>What the trace hook sees is what the machine shows, once no load is about to land.\<close>

lemma prints_printed:
  assumes "pc (cpu ctx) = print_entry \<Longrightarrow> ld_dst (ld_next (cpu ctx)) = 0"
  shows "printed ctx = (case prints (isa_of ctx) of None \<Rightarrow> [] | Some c \<Rightarrow> [c])"
proof -
  have "reg_file (isa_of ctx) = gpr (cpu ctx)" if "pc (cpu ctx) = print_entry"
    using assms [OF that] by (simp add: isa_of_def reg_file_land)
  moreover have "now (isa_of ctx) = pc (cpu ctx)" by (simp add: isa_of_def)
  ultimately show ?thesis
    by (auto simp: printed_def prints_def traced_call_def print_entry_def a0_char_def to_char_def
        unsigned_ucast_eq take_bit_eq_mod)
qed

lemma unnamed_not_named:
  assumes "decode w = Some i" "named i"
  shows "\<not> unnamed_cop0 w"
proof
  assume u: "unnamed_cop0 w"
  then have op: "instr_op w = op_value INSTR_GROUP_COP0"
    and rd: "unat (instr_rd w) \<notin> {3, 5, 6, 7, 8, 9, 11, 12, 13, 14, 15}"
    by (simp_all add: unnamed_cop0_def group_op.enum_of_Some_iff)
  from u obtain g where "instr_rs w = cop_value g"
    by (auto simp: unnamed_cop0_def group_cop.enum_of_Some_iff)
  then have "unat (instr_rs w) = 0 \<or> unat (instr_rs w) = 4" by (cases g) simp_all
  with op have "i = From_Sys (unat (instr_rt w)) (unat (instr_rd w))
      \<or> i = To_Sys (unat (instr_rt w)) (unat (instr_rd w))"
    using assms(1) by (auto simp: decode_def decode_cop0_def fields)
  with assms(2) rd show False by (auto simp: named_def)
qed

text \<open>A step of the context that the console can make returns.\<close>

lemma hooks_return:
  assumes "ctx_inv ctx" "bounded_step (isa_of ctx) = Some m" "traceable (isa_of ctx)"
    and "captures ctx p out" "length p < 255"
  shows "\<exists>ctx'. psycho_step ctx = Some ctx' \<and> isa_of ctx' = m \<and> decodes (fetched_instr ctx)"
proof -
  have inv: "cpu_inv ctx" using assms(1) by (simp add: ctx_inv_def)
  have ok: "plain (isa_of ctx)" "in_bounds (isa_of ctx)" "isa_step (isa_of ctx) = Some m"
    using assms(2) by (auto simp: bounded_step_def plain_step_def split: if_splits)
  have al: "4 dvd unat (pc (cpu ctx))" using ok(1) by (simp add: plain_def isa_of_def)
  obtain d where d: "psycho_cpu_step ctx = Some d"
    using isa_cpu.step_returns [OF inv assms(2)] by blast
  then obtain c where c: "cpu_fetch ctx = Some c" by (auto simp: psycho_cpu_step_def elim!: bind_eq_SomeE)
  have w: "fetched_word (isa_of ctx) = fetched_instr ctx"
    using fetch_isa(3) [OF inv al c] c by (simp add: fetched_instr_def)
  obtain i where i: "decode (fetched_instr ctx) = Some i" "named i"
    using assms(3) by (auto simp: traceable_def w split: option.splits)
  have "\<not> trace_faults ctx"
    by (rule fetched_there [OF inv al c])
      (use unnamed_not_named [OF i] in \<open>simp add: trace_faults_def disasm_faults_def\<close>)
  moreover have "\<not> tty_faults ctx"
  proof -
    let ?d = "(p @ replicate (256 - length p) NUL)[length p := newline]"
    have "?d ! Suc (length p) = NUL" "Suc (length p) < length ?d"
      using assms(5) by (simp_all add: nth_append)
    then have "NUL \<in> set ?d" by (metis nth_mem)
    then show ?thesis
      using assms(4) by (simp add: tty_faults_def tty_unterminated_def captures_def tty_holds_def)
  qed
  ultimately obtain ctx' where st: "psycho_step ctx = Some ctx'"
    using d psycho_step_None_iff [OF assms(1)] by fastforce
  have "isa_step (isa_of ctx) = Some (isa_of ctx')" by (rule psycho_step_refines [OF assms(1) st ok(1)])
  with ok(3) st i(1) show ?thesis by (simp add: decodes_iff)
qed

lemma step_lands:
  assumes "ctx_inv ctx" "psycho_step ctx = Some ctx'" "arriving (isa_of ctx) = None"
  shows "ld_dst (ld_next (cpu ctx')) = 0"
proof -
  have "\<not> trace_faults ctx" "\<not> tty_faults ctx"
    using assms(2) psycho_step_None_iff [OF assms(1)] by auto
  then obtain d where "psycho_cpu_step ctx = Some d" "same_machine ctx' d"
    using psycho_step_simulates(1) [OF assms(1)] assms(2) by (auto simp: option_rel_Some1)
  moreover have "ld_dst (ld_pend (cpu ctx)) = 0"
    using assms(3) by (auto simp: isa_of_def pending_def split: if_splits)
  ultimately show ?thesis
    using step_settles [of ctx d] assms(1) by (simp add: same_machine_def ctx_inv_def)
qed

section \<open>The relation\<close>

definition at_hook :: "psycho_ctx \<Rightarrow> bool" where
  "at_hook ctx \<longleftrightarrow> pc (cpu ctx) \<in> {shell_entry, print_entry}"

definition tracks :: "psycho_ctx \<Rightarrow> isa \<Rightarrow> terminal \<Rightarrow> bool" where
  "tracks ctx m t \<longleftrightarrow> ctx_inv ctx \<and> isa_of ctx = m \<and> captures ctx (open_line t) (stored t)
     \<and> length (open_line t) < 255 \<and> NUL \<notin> set (open_line t)
     \<and> (at_hook ctx \<longrightarrow> ld_dst (ld_next (cpu ctx)) = 0)"

text \<open>
  The application shows the console: the context tracks processor and terminal, the host has
  the TTY file open with everything delivered on the disk, and the image is the one that waits.
\<close>

definition presents :: "image option \<Rightarrow> emulator \<Rightarrow> console \<Rightarrow> bool" where
  "presents img emu s \<longleftrightarrow> tracks (emu_ctx emu) (core s) (terminal s)
     \<and> run_inv_from (emu_host emu) emu \<and> tty_file (emu_host emu) \<noteq> None
     \<and> image_of (exe_data emu) = img"

lemma presents_file:
  assumes "presents img emu s"
  shows "tty_file (emu_host emu) = Some \<lparr>on_disk = stored (terminal s), unwritten = []\<rparr>"
  using assms by (auto simp: presents_def run_inv_from_def shows_events_def tracks_def captures_def)

text \<open>The switches the loop sets behind the loader do not matter.\<close>

lemma tracks_settings:
  "tracks (psycho_disasm_trace_instruction_enable (psycho_log_level_set_global ctx l) b) m t
     \<longleftrightarrow> tracks ctx m t" if "ctx_inv ctx"
proof -
  let ?c = "psycho_disasm_trace_instruction_enable (psycho_log_level_set_global ctx l) b"
  have "ctx_inv ?c" by (intro setting_inv that)
  moreover have "cpu ?c = cpu ctx" "bus ?c = bus ctx" "bios_trace ?c = bios_trace ctx"
    "event_trace ?c = event_trace ctx"
    by (simp_all add: psycho_disasm_trace_instruction_enable_def psycho_log_level_set_global_def)
  moreover from this have "isa_of ?c = isa_of ctx" by (intro isa_of_cong) simp_all
  ultimately show ?thesis
    using that by (simp add: tracks_def captures_def tty_holds_def at_hook_def)
qed

lemma tracks_parts:
  assumes "tracks ctx m t"
  shows "now m = pc (cpu ctx)" "after m = next_pc (cpu ctx)"
    "ld_dst (ld_next (cpu ctx)) = 0 \<Longrightarrow> reg_file m = gpr (cpu ctx)"
proof -
  have m: "m = isa_of ctx" using assms by (simp add: tracks_def)
  show "now m = pc (cpu ctx)" "after m = next_pc (cpu ctx)" by (simp_all add: m isa_of_def)
  show "ld_dst (ld_next (cpu ctx)) = 0 \<Longrightarrow> reg_file m = gpr (cpu ctx)"
    by (simp add: m isa_of_def reg_file_land)
qed

lemma bad_image_unchanged:
  assumes "image_of exe = None"
  shows "\<exists>code. psycho_exe_load ctx exe (buf_size exe) = Some (code, ctx)"
proof (cases "buf_size exe < 0x800")
  case True
  then show ?thesis by (simp add: psycho_exe_load_def EXE_MIN_SIZE_def)
next
  case False
  then have "\<not> exe_has_id exe" using assms by (auto simp: image_of_def split: if_splits)
  then show ?thesis using False exe_load_bad(2) [of exe "buf_size exe" ctx] by simp
qed

text \<open>The loader at the entry of the shell answers the arrival of the specification.\<close>

lemma exe_load_answers:
  assumes tr: "tracks ctx m t" and here: "pc (cpu ctx) = shell_entry"
    and arr: "arrive (image_of exe) m = Some m'"
  obtains code c where "psycho_exe_load ctx exe (buf_size exe) = Some (code, c)" "tracks c m' t"
    "ld_next (cpu c) = ld_next (cpu ctx)"
proof -
  have inv: "ctx_inv ctx" and m: "m = isa_of ctx" using tr by (simp_all add: tracks_def)
  have settled: "ld_dst (ld_next (cpu ctx)) = 0" using tr here by (simp add: tracks_def at_hook_def)
  have now: "now m = shell_entry" using tracks_parts(1) [OF tr] here by simp
  show thesis
  proof (cases "image_of exe")
    case None
    then have "m' = m" using arr now by (simp add: arrive_def)
    then show thesis using bad_image_unchanged [OF None, of ctx] tr that by auto
  next
    case (Some i)
    then have i: "loadable i" "m' = load_image i m"
      using arr now by (auto simp: arrive_def split: if_splits)
    obtain c where c: "psycho_exe_load ctx exe (buf_size exe) = Some (PSYCHO_OK, c)"
      "isa_of c = m'" "ld_next (cpu c) = ld_next (cpu ctx)"
      using exe_load_isa [OF inv Some i(1) settled] i(2) m by auto
    have "tty_same ctx c" using c(1) by (intro exe_load_tty)
    then have "captures c (open_line t) (stored t)" using tr captures_same by (auto simp: tracks_def)
    moreover have "ctx_inv c" using exe_load_inv [OF inv _ c(1)] by simp
    ultimately have "tracks c m' t" using tr c(2,3) settled by (simp add: tracks_def)
    with c(1,3) show thesis by (intro that)
  qed
qed

lemma arrive_answers:
  assumes "presents img emu s" "arrive img (core s) = Some m"
  shows "\<exists>ctx. load_at_shell emu = Inr ctx \<and> tracks ctx m (terminal s)
    \<and> ld_next (cpu ctx) = ld_next (cpu (emu_ctx emu))"
proof -
  have tr: "tracks (emu_ctx emu) (core s) (terminal s)" and size: "exe_size emu = buf_size (exe_data emu)"
    and img: "img = image_of (exe_data emu)"
    using assms(1) by (auto simp: presents_def run_inv_from_def emu_inv_def)
  show ?thesis
  proof (cases "pc (cpu (emu_ctx emu)) = shell_entry")
    case False
    with tracks_parts(1) [OF tr] show ?thesis using assms(2) tr by (simp add: arrive_def load_at_shell_def shell_entry_def)
  next
    case True
    obtain code c where c: "psycho_exe_load (emu_ctx emu) (exe_data emu) (buf_size (exe_data emu)) = Some (code, c)"
      "tracks c m (terminal s)" "ld_next (cpu c) = ld_next (cpu (emu_ctx emu))"
      by (rule exe_load_answers [OF tr True assms(2) [unfolded img]])
    let ?c = "psycho_disasm_trace_instruction_enable
      (psycho_log_level_set_global c PSYCHO_LOG_LEVEL_TRACE) True"
    from c have "load_at_shell emu = Inr ?c"
      using True size by (simp add: load_at_shell_def shell_entry_def return_code_nonzero)
    moreover have "ctx_inv c" using c(2) by (simp add: tracks_def)
    moreover have "cpu ?c = cpu c"
      by (simp add: psycho_disasm_trace_instruction_enable_def psycho_log_level_set_global_def)
    ultimately show ?thesis using c(2,3) tracks_settings by metis
  qed
qed

lemma context_answers:
  assumes "tracks ctx m t" "display m t = Some t'" "bounded_step m = Some m'"
    and "traceable m" "settled m m'"
  shows "\<exists>ctx'. psycho_step ctx = Some ctx' \<and> tracks ctx' m' t' \<and> decodes (fetched_instr ctx)"
proof -
  have inv: "ctx_inv ctx" and m: "isa_of ctx = m" and cap: "captures ctx (open_line t) (stored t)"
    and short: "length (open_line t) < 255" "NUL \<notin> set (open_line t)"
    and hook: "at_hook ctx \<longrightarrow> ld_dst (ld_next (cpu ctx)) = 0"
    using assms(1) by (simp_all add: tracks_def)
  obtain ctx' where st: "psycho_step ctx = Some ctx'" "isa_of ctx' = m'" "decodes (fetched_instr ctx)"
    using hooks_return [OF inv _ _ cap short(1)] assms(3,4) m by blast
  have pr: "printed ctx = (case prints m of None \<Rightarrow> [] | Some c \<Rightarrow> [c])"
    unfolding m [symmetric] by (rule prints_printed) (use hook in \<open>simp add: at_hook_def\<close>)
  have del: "deliver (open_line t) (stored t) (printed ctx) = (open_line t', stored t')"
    and short': "length (open_line t') < 255" "NUL \<notin> set (open_line t')"
    using assms(2) short put_char_deliver [of t]
    by (auto simp: display_def pr accepts_iff put_char_def newline_def split: option.splits if_splits)
  have "captures ctx' (open_line t') (stored t')"
    by (rule step_captures [OF inv cap short st(1) del])
  moreover have "ld_dst (ld_next (cpu ctx')) = 0" if "at_hook ctx'"
  proof -
    have "now m' = pc (cpu ctx')" by (simp add: st(2) [symmetric] isa_of_def)
    then have "arriving (isa_of ctx) = None"
      using that assms(5) by (auto simp: at_hook_def settled_def m)
    then show ?thesis by (rule step_lands [OF inv st(1)])
  qed
  ultimately have "tracks ctx' m' t'"
    using st(2) short' step_inv [OF inv st(1)] by (simp add: tracks_def)
  with st show ?thesis by blast
qed

interpretation app_console: forward_simulation turn "console_step img" "presents img" for img
proof
  fix emu s s'
  assume rel: "presents img emu s" and sp: "console_step img s = Some s'"
  then obtain m t m' where ar: "arrive img (core s) = Some m" and di: "display m (terminal s) = Some t"
    and bo: "bounded_step m = Some m'" and ok: "traceable m" "settled m m'"
    and s': "s' = \<lparr>core = m', terminal = t\<rparr>"
    by (auto simp: console_step_def split: option.splits if_splits)
  obtain ctx where l: "load_at_shell emu = Inr ctx" "tracks ctx m (terminal s)"
    using arrive_answers [OF rel ar] by blast
  obtain ctx' where st: "psycho_step ctx = Some ctx'" "tracks ctx' m' t" "decodes (fetched_instr ctx)"
    using context_answers [OF l(2) di bo ok] by blast
  have run: "run_inv_from (emu_host emu) emu" and opened: "tty_file (emu_host emu) \<noteq> None"
    using rel by (simp_all add: presents_def)
  then have inv: "emu_inv emu" by (simp add: run_inv_from_def)
  have "main_turn emu \<noteq> Inl Undefined" "\<nexists>h. main_turn emu = Inl (Trap h)"
    using main_turn_stops [OF inv opened l(1)] st(1,3) by auto
  then obtain emu' where turn: "main_turn emu = Inr emu'" using stop_cases [of "main_turn emu"] by blast
  have kept: "run_inv_from (emu_host emu) emu'" by (rule turn_keeps_run [OF run turn, THEN conjunct1])
  have parts: "emu_ctx emu' = ctx'" "exe_data emu' = exe_data emu"
    using turn l(1) st(1) by (auto simp: main_turn_def split: sum.splits)
  have "tty_file (emu_host emu') \<noteq> None" "run_inv_from (emu_host emu') emu'"
    using kept opened by (auto simp: run_inv_from_def same_holdings_def)
  then have "presents img emu' s'"
    using rel st(2) by (simp add: presents_def parts s')
  with turn show "\<exists>emu'. turn emu = Some emu' \<and> presents img emu' s'"
    by (auto simp: turn_Some_iff)
qed

section \<open>Starting\<close>

lemma setup_isa:
  "isa_of (setup_ctx b) = core (power_up (mem_view (bus (setup_ctx b))))"
  by (simp add: isa_of_def view_def setup_ctx_parts power_up_def)

lemma setup_presents:
  assumes "main_setup env argv = Running emu" "tty_opens env"
  shows "presents (image_of (exe_data emu)) emu (power_up (mem_view (bus (emu_ctx emu))))"
proof -
  obtain b where b: "emu_ctx emu = setup_ctx b" using setup_RunningD(3) [OF assms(1)] by blast
  have cap: "captures (setup_ctx b) [] []"
    using zero_ctx_tty by (simp add: captures_def tty_holds_nil tty_empty_def setup_ctx_parts
        setup_ctx_trace)
  have inv: "ctx_inv (setup_ctx b)" using setup_RunningD(2) [OF assms(1)] by (simp add: emu_inv_def b)
  have t: "terminal (power_up mem) = \<lparr>open_line = [], stored = []\<rparr>" for mem by (simp add: power_up_def)
  have "tracks (setup_ctx b) (core (power_up (mem_view (bus (setup_ctx b)))))
      (terminal (power_up (mem_view (bus (setup_ctx b)))))"
    using cap inv setup_isa [of b] by (simp add: tracks_def t setup_ctx_parts)
  moreover have "run_inv_from (emu_host emu) emu" "tty_file (emu_host emu) \<noteq> None"
    using run_from_start [OF assms(1), of 0 emu] assms(2)
    by (auto simp: run_inv_from_def same_holdings_def started_host_def)
  ultimately show ?thesis by (simp add: presents_def b)
qed

end
