(* ===== verification/Guest_Files.thy ===== *)
theory Guest_Files
  imports Console_Refines
begin

text \<open>
  Guest programs in files: a BIOS file made of instruction words and a text, the host that has
  it, the memory of the application behind its start, and the rule for a step of the console on
  such a program.
\<close>

section \<open>Programs in memory\<close>

text \<open>Words from an address on, and a text in the ROM that a NUL ends.\<close>

definition holds_words :: "byte_store \<Rightarrow> u32 \<Rightarrow> u32 list \<Rightarrow> bool" where
  "holds_words mem a ws \<longleftrightarrow> (\<forall>k < length ws. read_le mem 4 (a + of_nat (4 * k)) = unat (ws ! k))"

definition holds_text :: "byte_store \<Rightarrow> string \<Rightarrow> bool" where
  "holds_text mem s \<longleftrightarrow> (\<forall>k < length s. peek mem (0x1FC00100 + of_nat k) = of_char (s ! k))
     \<and> peek mem (0x1FC00100 + of_nat (length s)) = 0 \<and> length s \<le> 0x7F000"

definition clean_ram :: "byte_store \<Rightarrow> bool" where
  "clean_ram mem \<longleftrightarrow> (\<forall>q. unat q < 0x200000 \<longrightarrow> mem q = Some 0)"

lemma read_le_4:
  "read_le m 4 p = peek m p + 256 * (peek m (p + 1) + 256 * (peek m (p + 2) + 256 * peek m (p + 3)))"
proof -
  have "4 = Suc (Suc (Suc (Suc 0)))" by simp
  moreover have "p + 1 + 1 = p + 2" "p + 2 + 1 = p + 3" by simp_all
  ultimately show ?thesis by (simp only: read_le.simps) simp
qed

lemma char_below: "of_char c < (256 :: nat)"
  by (metis of_char_mod_256 mod_less_divisor zero_less_numeral)

lemma char_nonzero:
  assumes "c \<noteq> CHR 0x00"
  shows "of_char c \<noteq> (0 :: nat)"
proof
  assume "of_char c = (0 :: nat)"
  also have "\<dots> = of_char (CHR 0x00)" by simp
  finally show False using assms by (simp only: of_char_eq_iff)
qed

lemma char_word: "unat (of_nat (of_char c) :: u32) = of_char c"
proof -
  have "of_char c < (2 :: nat) ^ 32" using char_below [of c] by (rule less_trans) simp
  then show ?thesis by (simp add: unat_of_nat mod_less del: of_char_mod_256)
qed

section \<open>The files\<close>

text \<open>At most 64 words, and the text at offset \<^verbatim>\<open>0x100\<close>.\<close>

definition bios_byte :: "u32 list \<Rightarrow> string \<Rightarrow> nat \<Rightarrow> u8" where
  "bios_byte ws s i = (if i < 4 * length ws then ucast (drop_bit (8 * (i mod 4)) (ws ! (i div 4)))
     else if 0x100 \<le> i \<and> i < 0x100 + length s then of_nat (of_char (s ! (i - 0x100))) else 0)"

definition bios_bytes :: "u32 list \<Rightarrow> string \<Rightarrow> u8 list" where
  "bios_bytes ws s = map (bios_byte ws s) [0..<0x80000]"

lemma length_bios_bytes: "length (bios_bytes ws s) = 0x80000"
  unfolding bios_bytes_def length_map length_upt by simp

lemma bios_bytes_nth: "i < 0x80000 \<Longrightarrow> bios_bytes ws s ! i = bios_byte ws s i"
  unfolding bios_bytes_def by (subst nth_map_upt) simp_all

text \<open>A host with this file and an executable.\<close>

definition guest_env :: "u32 list \<Rightarrow> string \<Rightarrow> host_file \<Rightarrow> environment" where
  "guest_env ws s exe = \<lparr>files = (\<lambda>p.
       if p = ''bios'' then Some \<lparr>st_size = 0x80000, openable = True, content = bios_bytes ws s,
                                  read_error = False\<rparr>
       else if p = ''exe'' then Some exe else None),
     malloc_serves = (\<lambda>_. True), tty_opens = True, errno_text = []\<rparr>"

definition intact :: "host_file \<Rightarrow> bool" where
  "intact f \<longleftrightarrow> openable f \<and> \<not> read_error f \<and> st_size f = length (content f)"

lemma guest_startable: "intact exe \<Longrightarrow> startable (guest_env ws s exe) sample_args"
  by (simp add: startable_def readable_def starved_def guest_env_def sample_args_def length_bios_bytes
      intact_def)

section \<open>The memory after the start\<close>

lemma setup_ram: "buf_byte (ram (bus (setup_ctx b))) i = 0"
  by (simp add: setup_ctx_def psycho_tty_stdout_enable_def psycho_log_level_set_global_def
      psycho_disasm_trace_instruction_enable_def init_parts zero_buffer_def)

lemma rom_peek:
  assumes "bus_sized bs" "\<And>i. i < 0x7FFFF \<Longrightarrow> buf_byte (bios bs) i = bios_byte ws s i" "i < 0x7FFFF"
  shows "peek (mem_view bs) (0x1FC00000 + of_nat i) = unat (bios_byte ws s i)"
proof -
  have "unat (0x1FC00000 + of_nat i :: u32) = 0x1FC00000 + i"
    using assms(3) by (simp add: unat_word_ariths(1) unat_of_nat)
  then show ?thesis using assms by (simp add: peek_def mem_view_eq)
qed

lemma rom_holds_words:
  assumes "bus_sized bs" "\<And>i. i < 0x7FFFF \<Longrightarrow> buf_byte (bios bs) i = bios_byte ws s i"
    and "length ws \<le> 64"
  shows "holds_words (mem_view bs) 0x1FC00000 ws"
  unfolding holds_words_def
proof (intro allI impI)
  fix k
  assume k: "k < length ws"
  have "peek (mem_view bs) (0x1FC00000 + of_nat (4 * k) + of_nat i) = unat (ws ! k) div 256 ^ i mod 256"
    if "i < 4" for i
  proof -
    have "bios_byte ws s (4 * k + i) = ucast (drop_bit (8 * i) (ws ! k))"
      using that k by (simp add: bios_byte_def)
    then show ?thesis
      using rom_peek [OF assms(1,2), of "4 * k + i"] that k assms(3) by (simp add: unat_byte add.assoc)
  qed
  then have "read_le (mem_view bs) 4 (0x1FC00000 + of_nat (4 * k)) = unat (ws ! k) mod 256 ^ 4"
    by (rule read_le_eqI)
  then show "read_le (mem_view bs) 4 (0x1FC00000 + of_nat (4 * k)) = unat (ws ! k)"
    using unsigned_less [of "ws ! k", where ?'a = nat] by simp
qed

lemma rom_holds_text:
  assumes "bus_sized bs" "\<And>i. i < 0x7FFFF \<Longrightarrow> buf_byte (bios bs) i = bios_byte ws s i"
    and "length ws \<le> 64" "length s \<le> 0x7F000"
  shows "holds_text (mem_view bs) s"
  unfolding holds_text_def
proof (intro conjI allI impI)
  fix k
  assume k: "k < length s"
  then have "bios_byte ws s (0x100 + k) = of_nat (of_char (s ! k))"
    using assms(3) by (simp add: bios_byte_def)
  then have "unat (bios_byte ws s (0x100 + k)) = of_char (s ! k)"
    using char_below [of "s ! k"] by (simp add: unat_of_nat)
  then show "peek (mem_view bs) (0x1FC00100 + of_nat k) = of_char (s ! k)"
    using rom_peek [OF assms(1,2), of "0x100 + k"] k assms(4) by simp
next
  have "bios_byte ws s (0x100 + length s) = 0" using assms(3) by (simp add: bios_byte_def)
  then show "peek (mem_view bs) (0x1FC00100 + of_nat (length s)) = 0"
    using rom_peek [OF assms(1,2), of "0x100 + length s"] assms(4) by simp
qed (rule assms(4))

text \<open>The application at the start of its loop.\<close>

lemma guest_start:
  assumes "length ws \<le> 64" "length s \<le> 0x7F000" "intact exe"
  obtains emu where "main_setup (guest_env ws s exe) sample_args = Running emu"
    "buf_size (exe_data emu) = length (content exe)"
    "\<And>i. i < length (content exe) \<Longrightarrow> buf_byte (exe_data emu) i = content exe ! i"
    "holds_words (mem_view (bus (emu_ctx emu))) 0x1FC00000 ws"
    "holds_text (mem_view (bus (emu_ctx emu))) s"
    "clean_ram (mem_view (bus (emu_ctx emu)))"
proof -
  obtain emu where emu: "main_setup (guest_env ws s exe) sample_args = Running emu"
    using setup_startable [OF guest_startable [OF assms(3)]] by blast
  note start = setup_RunningD [OF emu]
  from start(3) obtain b where b: "emu_ctx emu = setup_ctx b"
    "holds_file b (guest_env ws s exe) (sample_args ! 1)" by blast
  let ?b = "bus (setup_ctx b)"
  have sized: "bus_sized ?b" using start(2) by (simp add: emu_inv_def ctx_inv_def cpu_inv_def b(1))
  have bytes: "buf_byte (bios ?b) i = bios_byte ws s i" if "i < 0x7FFFF" for i
    using b(2) that
    by (simp add: holds_file_def guest_env_def sample_args_def setup_ctx_parts bios_bytes_nth)
  have "clean_ram (mem_view ?b)" by (simp add: clean_ram_def mem_view_eq [OF sized] setup_ram)
  moreover have f: "files (guest_env ws s exe) (sample_args ! 2) = Some exe"
    by (simp add: guest_env_def sample_args_def)
  moreover have "st_size exe = length (content exe)" using assms(3) by (simp add: intact_def)
  ultimately show thesis
    using that [OF emu] setup_exe_data [OF emu f] rom_holds_words [OF sized bytes assms(1)]
      rom_holds_text [OF sized bytes assms(1,2)] by (simp add: b(1))
qed

section \<open>The console on a program\<close>

text \<open>The machine while it runs a program, its coprocessor untouched.\<close>

definition guest_at :: "byte_store \<Rightarrow> u32 \<Rightarrow> u32 \<Rightarrow> bool \<Rightarrow> (nat \<times> u32) option \<Rightarrow> u32 list \<Rightarrow> isa" where
  "guest_at mem a a' slot arr regs = \<lparr>reg_file = regs, sys_file = replicate 32 0, high = 0, low = 0,
     now = a, after = a', in_slot = slot, arriving = arr, byte_at = mem\<rparr>"

lemma console_stepI:
  assumes "decode (fetched_word m) = Some i" "named i" "4 dvd unat (now m)"
    and "clear_of_gaps (translate (now m)) 4" "plain_insn i m"
    and "\<And>p n. data_span i m = Some (p, n) \<Longrightarrow> clear_of_gaps p n"
    and "now m \<noteq> shell_entry" "m' = retire (arriving m) (exec i m)" "settled m m'"
    and "display m t = Some t'"
  shows "console_step img \<lparr>core = m, terminal = t\<rparr> = Some \<lparr>core = m', terminal = t'\<rparr>"
proof -
  have "bounded_step m = Some m'"
    using assms(1,3-6,8) by (auto simp: bounded_step_def plain_step_def plain_def in_bounds_def
        isa_step_def split: option.split)
  then show ?thesis using assms(1,2,7,9,10) by (simp add: console_step_def arrive_def traceable_def)
qed

lemma quiet_display: "now m \<noteq> print_entry \<Longrightarrow> display m t = Some t"
  by (simp add: display_def prints_def)

lemma guest_at_fields [simp]:
  "reg_file (guest_at mem a a' sl arr r) = r" "sys_file (guest_at mem a a' sl arr r) = replicate 32 0"
  "now (guest_at mem a a' sl arr r) = a" "after (guest_at mem a a' sl arr r) = a'"
  "in_slot (guest_at mem a a' sl arr r) = sl" "arriving (guest_at mem a a' sl arr r) = arr"
  "byte_at (guest_at mem a a' sl arr r) = mem"
  by (simp_all add: guest_at_def)

lemma guest_at_updates [simp]:
  "advance (guest_at mem a a' sl arr r) = guest_at mem a' (a' + 4) False None r"
  "goto t (guest_at mem a a' sl arr r) = guest_at mem a t True arr r"
  "put k v (guest_at mem a a' sl arr r) = guest_at mem a a' sl arr (if k = 0 then r else r[k := v])"
  "(guest_at mem a a' sl arr r)\<lparr>arriving := x\<rparr> = guest_at mem a a' sl x r"
  "(guest_at mem a a' sl arr r)\<lparr>byte_at := mm\<rparr> = guest_at mm a a' sl arr r"
  by (simp_all add: guest_at_def advance_def goto_def put_def)

end
