(* ===== verification/Isa_Programs.thy ===== *)
theory Isa_Programs
  imports Isa_Simulation
begin

text \<open>
  What the refinement is good for: statements about machine code proved on the reference
  machine hold of the interpreter. The example is a loop that adds up the numbers below its
  argument, with the decrement in the branch delay slot.
\<close>

section \<open>A loop\<close>

lemma bounded_stepI:
  assumes "decode (fetched_word m) = Some i" "4 dvd unat (now m)"
    and "clear_of_gaps (translate (now m)) 4" "plain_insn i m" "data_span i m = None"
  shows "bounded_step m = Some (retire (arriving m) (exec i m))"
  using assms by (simp add: bounded_step_def plain_step_def plain_def in_bounds_def isa_step_def)

text \<open>
  \<^verbatim>\<open>loop: addu $v0, $v0, $a0\<close>; \<^verbatim>\<open>bne $a0, $at, loop\<close>; \<^verbatim>\<open>addiu $a0, $a0, -1\<close>, with 1 in \<^verbatim>\<open>$at\<close>.
\<close>

definition sum_loop :: "u32 list" where
  "sum_loop = [0x00441021, 0x1481FFFE, 0x2484FFFF]"

lemma sum_loop_words:
  "length sum_loop = 3" "sum_loop ! 0 = 0x00441021" "sum_loop ! 1 = 0x1481FFFE"
  "sum_loop ! 2 = 0x2484FFFF"
  by (simp_all add: sum_loop_def)

definition loop_at :: "isa \<Rightarrow> u32 \<Rightarrow> u32 \<Rightarrow> bool \<Rightarrow> u32 \<Rightarrow> u32 \<Rightarrow> isa" where
  "loop_at m a a' slot v n = m\<lparr>reg_file := (reg_file m)[1 := 1, 2 := v, 4 := n],
     now := a, after := a', in_slot := slot, arriving := None\<rparr>"

definition holds_loop :: "isa \<Rightarrow> bool" where
  "holds_loop m \<longleftrightarrow> length (reg_file m) = 32 \<and> read_le (byte_at m) 4 0 = 0x00441021
     \<and> read_le (byte_at m) 4 4 = 0x1481FFFE \<and> read_le (byte_at m) 4 8 = 0x2484FFFF"

lemma decode_loop:
  "decode 0x00441021 = Some (Compute A_ADD 2 (Reg 2) (Reg 4))"
  "decode 0x1481FFFE = Some (Branch C_NE 4 1 (- 2) False)"
  "decode 0x2484FFFF = Some (Compute A_ADD 4 (Reg 4) (Const (- 1)))"
  by (simp_all add: decode_def field_def decode_special_def decode_immediate_def disp_def Let_def)

lemma loop_step:
  assumes "holds_loop m"
  shows "bounded_step (loop_at m 0 4 False v n) = Some (loop_at m 4 8 False (v + n) n)"
    and "bounded_step (loop_at m 4 8 False v n) =
      Some (loop_at m 8 (if n = 1 then 12 else 0) True v n)"
    and "bounded_step (loop_at m 8 t True v n) = Some (loop_at m t (t + 4) False v (n - 1))"
proof -
  have tr: "translate 0 = 0" "translate 4 = 4" "translate 8 = 8" by (simp_all add: translate_def)
  have len: "length (reg_file m) = 32" using assms by (simp add: holds_loop_def)
  have w: "fetched_word (loop_at m 0 4 False v n) = 0x00441021"
    "fetched_word (loop_at m 4 8 False v n) = 0x1481FFFE"
    "fetched_word (loop_at m 8 t True v n) = 0x2484FFFF"
    using assms by (simp_all add: fetched_word_def loop_at_def holds_loop_def tr)
  note eval = loop_at_def tr advance_def put_def goto_def len clear_of_gaps_def list_update_swap [of 4 2, simplified]
    nth_list_update
  show "bounded_step (loop_at m 0 4 False v n) = Some (loop_at m 4 8 False (v + n) n)"
    by (subst bounded_stepI [OF decode_loop(1) [folded w(1)]]) (simp_all add: eval)
  show "bounded_step (loop_at m 4 8 False v n) =
      Some (loop_at m 8 (if n = 1 then 12 else 0) True v n)"
    by (subst bounded_stepI [OF decode_loop(2) [folded w(2)]]) (simp_all add: eval)
  show "bounded_step (loop_at m 8 t True v n) = Some (loop_at m t (t + 4) False v (n - 1))"
    by (subst bounded_stepI [OF decode_loop(3) [folded w(3)]]) (simp_all add: eval)
qed

lemma loop_runs:
  assumes "holds_loop m"
  shows "Suc k < 2 ^ 32 \<Longrightarrow>
    run_steps bounded_step (3 * Suc k) (loop_at m 0 4 False v (of_nat (Suc k)))
      = Some (loop_at m 12 16 False (v + of_nat (\<Sum>{..Suc k})) 0)"
proof (induction k arbitrary: v)
  case 0
  then show ?case by (simp add: numeral_3_eq_3 loop_step [OF assms])
next
  case (Suc k)
  let ?n = "of_nat (Suc (Suc k)) :: u32"
  have ne: "?n \<noteq> 1"
    using Suc.prems by (simp add: word_unat_eq_iff unat_of_nat del: of_nat_Suc)
  have "run_steps bounded_step 3 (loop_at m 0 4 False v ?n)
      = Some (loop_at m 0 4 False (v + ?n) (of_nat (Suc k)))"
    using ne by (simp add: numeral_3_eq_3 loop_step [OF assms])
  moreover have "3 * Suc (Suc k) = 3 + 3 * Suc k" by simp
  moreover have "v + ?n + of_nat (\<Sum>{..Suc k}) = v + of_nat (\<Sum>{..Suc (Suc k)})"
    by (simp add: algebra_simps)
  ultimately show ?case
    using Suc.IH [of "v + ?n"] Suc.prems by (simp only: run_steps_add) simp
qed

lemma program_view_word:
  assumes "k < length ws" "4 * k + 4 \<le> 0x200000"
  shows "read_le (mem_view (bus (program_ctx ws regs))) 4 (of_nat (4 * k)) = unat (ws ! k)"
proof (rule read_word)
  have u: "unat (of_nat (4 * k) :: u32) = 4 * k"
    using assms(2) by (simp add: unat_of_nat del: of_nat_mult)
  show "psycho_bus_load_word (program_ctx ws regs) (of_nat (4 * k)) = Some (ws ! k, program_ctx ws regs)"
    by (rule load_word_program [OF _ assms u]) simp
  show "unat (of_nat (4 * k) :: u32) + 4 \<le> 2 ^ 32" "(of_nat (4 * k) :: u32) AND 3 = 0"
    using assms(2) by (simp_all add: u mod_and del: of_nat_mult)
qed simp

lemma program_isa:
  assumes "length regs = 32" "regs ! 0 = 0"
  shows "isa_of (program_ctx ws regs) = \<lparr>reg_file = regs, sys_file = replicate 32 0, high = 0,
    low = 0, now = 0, after = 4, in_slot = False, arriving = None,
    byte_at = mem_view (bus (program_ctx ws regs))\<rparr>"
  by (simp add: isa_of_def view_def)

lemma program_loop_at:
  assumes "length regs = 32" "regs ! 0 = 0" "regs ! 1 = 1"
  shows "holds_loop (isa_of (program_ctx sum_loop regs))"
    and "isa_of (program_ctx sum_loop regs)
      = loop_at (isa_of (program_ctx sum_loop regs)) 0 4 False (regs ! 2) (regs ! 4)"
proof -
  note m = program_isa [OF assms(1,2), of sum_loop]
  show "holds_loop (isa_of (program_ctx sum_loop regs))"
    using program_view_word [of 0 sum_loop regs] program_view_word [of 1 sum_loop regs]
      program_view_word [of 2 sum_loop regs] assms(1)
    by (simp add: holds_loop_def m sum_loop_words sum_loop_words [simplified])
  show "isa_of (program_ctx sum_loop regs)
      = loop_at (isa_of (program_ctx sum_loop regs)) 0 4 False (regs ! 2) (regs ! 4)"
    by (simp add: loop_at_def m) (metis One_nat_def assms(3) list_update_id)
qed

text \<open>The loop's first instruction, with 10 in \<^verbatim>\<open>$a0\<close>.\<close>

definition loop_ctx :: psycho_ctx where
  "loop_ctx = program_ctx sum_loop ((replicate 32 0)[1 := 1, 4 := 10])"

lemma loop_ctx_facts:
  "ctx_inv loop_ctx" "cpu_inv loop_ctx" "ctx_safe loop_ctx" "plain (isa_of loop_ctx)"
  "in_bounds (isa_of loop_ctx)"
  "isa_step (isa_of loop_ctx) = Some (loop_at (isa_of loop_ctx) 4 8 False 10 10)"
proof -
  show inv: "ctx_inv loop_ctx" "cpu_inv loop_ctx"
    using program_ctx_inv [of "(replicate 32 0)[1 := 1, 4 := 10]" sum_loop]
    by (simp_all add: loop_ctx_def ctx_inv_def)
  have b: "bounded_step (isa_of loop_ctx) = Some (loop_at (isa_of loop_ctx) 4 8 False 10 10)"
    using program_loop_at [of "(replicate 32 0)[1 := 1, 4 := 10]"]
      loop_step(1) [of "isa_of loop_ctx" 0 10] by (simp add: loop_ctx_def)
  then show ok: "plain (isa_of loop_ctx)" "in_bounds (isa_of loop_ctx)"
    "isa_step (isa_of loop_ctx) = Some (loop_at (isa_of loop_ctx) 4 8 False 10 10)"
    by (auto simp: bounded_step_def plain_step_def split: if_splits)
  show "ctx_safe loop_ctx"
    using plain_step_safe [OF inv(2) ok(1,2)] program_quiet [of sum_loop]
    by (simp add: ctx_safe_def loop_ctx_def)
qed

section \<open>Refinement\<close>

text \<open>
  C1: on a plain instruction the step of the interpreter, when it returns, leaves the context
  whose abstraction is the successor of the reference machine, and it returns whenever the
  fetch and the access of the instruction stay inside the buffers.
\<close>

theorem interpreter_refines_isa:
  assumes "cpu_inv ctx" "plain (isa_of ctx)"
  shows "(\<forall>ctx'. psycho_cpu_step ctx = Some ctx' \<longrightarrow> isa_step (isa_of ctx) = Some (isa_of ctx'))
    \<and> (in_bounds (isa_of ctx) \<longrightarrow> psycho_cpu_step ctx \<noteq> None)"
  using step_refines [OF assms(1) _ assms(2)] plain_step_safe [OF assms]
    cpu_machine.step_progress [OF assms(1)] by auto

lemma interpreter_refines_isa_witness:
  "\<exists>c. psycho_cpu_step loop_ctx = Some c \<and> isa_step (isa_of loop_ctx) = Some (isa_of c)"
  using interpreter_refines_isa [OF loop_ctx_facts(2,4)] loop_ctx_facts(5) by auto

text \<open>
  C7: as long as the reference machine goes through plain instructions, a run of the whole
  context, with its traces and whatever it logs, ends in the state the reference machine ends
  in.
\<close>

theorem runs_refine_isa:
  assumes "ctx_inv ctx" "run_steps plain_step n (isa_of ctx) = Some m"
    and "run_steps psycho_step n ctx = Some ctx'"
  shows "m = isa_of ctx'"
  using assms by (rule isa_machine.run_sim)

lemma runs_refine_isa_witness:
  "\<exists>c. run_steps psycho_step 1 loop_ctx = Some c \<and> reg_file (isa_of c) ! 2 = 10"
proof -
  obtain c where c: "psycho_step loop_ctx = Some c"
    using machine.step_progress [OF loop_ctx_facts(1,3)] by blast
  have "loop_at (isa_of loop_ctx) 4 8 False 10 10 = isa_of c"
    by (rule runs_refine_isa [OF loop_ctx_facts(1), of 1])
      (simp_all add: c plain_step_def loop_ctx_facts(4,6))
  moreover have "reg_file (loop_at (isa_of loop_ctx) 4 8 False 10 10) ! 2 = 10"
    by (simp add: loop_at_def loop_ctx_def program_isa)
  ultimately show ?thesis using c by auto
qed

text \<open>
  C23: started with 1 in \<^verbatim>\<open>$at\<close> and \<open>n\<close> in \<^verbatim>\<open>$a0\<close>, the interpreter leaves the loop after \<open>3 n\<close>
  steps, with the sum of the numbers up to \<open>n\<close> added to \<^verbatim>\<open>$v0\<close>, modulo 32 bits.
\<close>

theorem sum_loop_correct:
  assumes "length regs = 32" "regs ! 0 = 0" "regs ! 1 = 1"
    and "0 < n" "n < 2 ^ 32" "regs ! 4 = of_nat n"
  shows "\<exists>c. run_steps psycho_cpu_step (3 * n) (program_ctx sum_loop regs) = Some c
    \<and> reg_file (isa_of c) = regs[2 := regs ! 2 + of_nat (n * (n + 1) div 2), 4 := 0]
    \<and> pc (cpu c) = 12"
proof -
  let ?p = "program_ctx sum_loop regs" and ?m = "isa_of (program_ctx sum_loop regs)"
  note m = program_isa [OF assms(1,2), of sum_loop]
  obtain k where k: "n = Suc k" using assms(4) by (cases n) auto
  note l = program_loop_at [OF assms(1-3)]
  have "run_steps bounded_step (3 * n) ?m
      = Some (loop_at ?m 12 16 False (regs ! 2 + of_nat (\<Sum>{..n})) 0)"
    using loop_runs [OF l(1), of k "regs ! 2"] l(2) assms(5,6) k by simp
  then obtain c where c: "run_steps psycho_cpu_step (3 * n) ?p = Some c"
    "isa_of c = loop_at ?m 12 16 False (regs ! 2 + of_nat (\<Sum>{..n})) 0"
    using isa_cpu.run_total [of ?p] program_inv [OF assms(1,2)] by blast
  have "now (isa_of c) = pc (cpu c)" by (simp add: isa_of_def)
  moreover have "\<Sum>{..n} = n * (n + 1) div 2"
    using gauss_sum_nat [of n] by (simp add: atMost_atLeast0)
  moreover have "regs[1 := 1] = regs" by (metis assms(3) list_update_id)
  ultimately show ?thesis
    using c by (intro exI [of _ c]) (simp add: loop_at_def m del: of_nat_sum)
qed

text \<open>The numbers up to 10, in 30 steps.\<close>

lemma sum_loop_correct_witness:
  "\<exists>c. run_steps psycho_cpu_step 30 (program_ctx sum_loop ((replicate 32 0)[1 := 1, 4 := 10])) = Some c
    \<and> reg_file (isa_of c) ! 2 = 55 \<and> pc (cpu c) = 12"
  using sum_loop_correct [of "(replicate 32 0)[1 := 1, 4 := 10]" 10] by auto

end
