(* ===== verification/Printer.thy ===== *)
theory Printer
  imports Guest_Files Isa_Programs
begin

text \<open>
  A guest program verified on the console and run by the application: a BIOS that installs a
  return at the character function's entry and prints a text from its own ROM.
\<close>

section \<open>The program\<close>

text \<open>
  It stores \<^verbatim>\<open>jr $ra\<close> at \<^verbatim>\<open>0xB0\<close>, and then calls the function for every character:
  \<^verbatim>\<open>lui $t0\<close>, \<^verbatim>\<open>ori $t0\<close>, \<^verbatim>\<open>sw $t0, 0xB0($zero)\<close>, \<^verbatim>\<open>ori $t1\<close>, \<^verbatim>\<open>ori $t2\<close>, \<^verbatim>\<open>lui $s0\<close>; then the loop
  \<^verbatim>\<open>lbu $a0, 0x100($s0)\<close>, \<^verbatim>\<open>addiu $s0, $s0, 1\<close>, \<^verbatim>\<open>beq $a0, $zero, done\<close>, \<^verbatim>\<open>nop\<close>,
  \<^verbatim>\<open>jalr $ra, $t2\<close>, \<^verbatim>\<open>nop\<close>, \<^verbatim>\<open>beq $zero, $zero, loop\<close>, \<^verbatim>\<open>nop\<close>; and \<^verbatim>\<open>done: beq $zero, $zero, done\<close>,
  \<^verbatim>\<open>nop\<close>.
\<close>

definition printer :: "u32 list" where
  "printer = [0x3C0803E0, 0x35080008, 0xAC0800B0, 0x3409003D, 0x340A00B0, 0x3C10BFC0,
     0x92040100, 0x26100001, 0x10800005, 0x00000000, 0x0140F809, 0x00000000, 0x1000FFF9, 0x00000000,
     0x1000FFFF, 0x00000000]"

lemma decode_printer:
  "decode 0x3C0803E0 = Some (Compute A_SLL 8 (Const 0x03E0) (Const 16))"
  "decode 0x35080008 = Some (Compute A_OR 8 (Reg 8) (Const 8))"
  "decode 0xAC0800B0 = Some (Store 4 8 0 0xB0)"
  "decode 0x3409003D = Some (Compute A_OR 9 (Reg 0) (Const 0x3D))"
  "decode 0x340A00B0 = Some (Compute A_OR 10 (Reg 0) (Const 0xB0))"
  "decode 0x3C10BFC0 = Some (Compute A_SLL 16 (Const 0xBFC0) (Const 16))"
  "decode 0x92040100 = Some (Load 1 False 4 16 0x100)"
  "decode 0x26100001 = Some (Compute A_ADD 16 (Reg 16) (Const 1))"
  "decode 0x10800005 = Some (Branch C_EQ 4 0 5 False)"
  "decode 0x00000000 = Some (Compute A_SLL 0 (Reg 0) (Const 0))"
  "decode 0x0140F809 = Some (Jump_Reg 10 (Some 31))"
  "decode 0x1000FFF9 = Some (Branch C_EQ 0 0 (- 7) False)"
  "decode 0x03E00008 = Some (Jump_Reg 31 None)"
  "decode 0x1000FFFF = Some (Branch C_EQ 0 0 (- 1) False)"
  by (simp_all add: decode_def field_def decode_special_def decode_immediate_def disp_def Let_def)

text \<open>The memory of the program, with a text behind it.\<close>

definition printer_mem :: "byte_store \<Rightarrow> string \<Rightarrow> bool" where
  "printer_mem mem s \<longleftrightarrow> holds_words mem 0x1FC00000 printer \<and> holds_text mem s"

text \<open>Its registers.\<close>

definition printer_regs :: "u32 \<Rightarrow> u32 \<Rightarrow> u32 \<Rightarrow> u32 list" where
  "printer_regs a0 s0 ra = (replicate 32 0)[4 := a0, 8 := 0x03E00008, 9 := 0x3D, 10 := 0xB0, 16 := s0, 31 := ra]"

section \<open>Steps\<close>

definition ready :: "byte_store \<Rightarrow> string \<Rightarrow> bool" where
  "ready mem s \<longleftrightarrow> printer_mem mem s \<and> holds_words mem 0xB0 [0x03E00008, 0]"

lemma printer_words:
  assumes "ready mem s"
  shows "fetched_word (guest_at mem 0xBFC00018 a' sl arr r) = 0x92040100"
    "fetched_word (guest_at mem 0xBFC0001C a' sl arr r) = 0x26100001"
    "fetched_word (guest_at mem 0xBFC00020 a' sl arr r) = 0x10800005"
    "fetched_word (guest_at mem 0xBFC00024 a' sl arr r) = 0"
    "fetched_word (guest_at mem 0xBFC00028 a' sl arr r) = 0x0140F809"
    "fetched_word (guest_at mem 0xBFC0002C a' sl arr r) = 0"
    "fetched_word (guest_at mem 0xBFC00030 a' sl arr r) = 0x1000FFF9"
    "fetched_word (guest_at mem 0xBFC00034 a' sl arr r) = 0"
    "fetched_word (guest_at mem 0xBFC00038 a' sl arr r) = 0x1000FFFF"
    "fetched_word (guest_at mem 0xBFC0003C a' sl arr r) = 0"
    "fetched_word (guest_at mem 0xB0 a' sl arr r) = 0x03E00008"
    "fetched_word (guest_at mem 0xB4 a' sl arr r) = 0"
proof -
  have rom: "read_le mem 4 (0x1FC00000 + of_nat (4 * k)) = unat (printer ! k)" if "k < 16" for k
    using assms that by (simp add: ready_def printer_mem_def holds_words_def printer_def)
  have ram: "read_le mem 4 (0xB0 + of_nat (4 * k)) = unat ([0x03E00008 :: u32, 0] ! k)" if "k < 2" for k
    using assms that by (simp add: ready_def holds_words_def)
  show "fetched_word (guest_at mem 0xBFC00018 a' sl arr r) = 0x92040100"
    "fetched_word (guest_at mem 0xBFC0001C a' sl arr r) = 0x26100001"
    "fetched_word (guest_at mem 0xBFC00020 a' sl arr r) = 0x10800005"
    "fetched_word (guest_at mem 0xBFC00024 a' sl arr r) = 0"
    "fetched_word (guest_at mem 0xBFC00028 a' sl arr r) = 0x0140F809"
    "fetched_word (guest_at mem 0xBFC0002C a' sl arr r) = 0"
    "fetched_word (guest_at mem 0xBFC00030 a' sl arr r) = 0x1000FFF9"
    "fetched_word (guest_at mem 0xBFC00034 a' sl arr r) = 0"
    "fetched_word (guest_at mem 0xBFC00038 a' sl arr r) = 0x1000FFFF"
    "fetched_word (guest_at mem 0xBFC0003C a' sl arr r) = 0"
    using rom [of 6] rom [of 7] rom [of 8] rom [of 9] rom [of 10] rom [of 11] rom [of 12] rom [of 13]
      rom [of 14] rom [of 15]
    by (simp_all add: fetched_word_def guest_at_def translate_def printer_def)
  show "fetched_word (guest_at mem 0xB0 a' sl arr r) = 0x03E00008"
    "fetched_word (guest_at mem 0xB4 a' sl arr r) = 0"
    using ram [of 0] ram [of 1] by (simp_all add: fetched_word_def guest_at_def translate_def)
qed

lemma printer_regs_nth [simp]:
  "printer_regs a0 s0 ra ! 0 = 0" "printer_regs a0 s0 ra ! 4 = a0" "printer_regs a0 s0 ra ! 8 = 0x03E00008"
  "printer_regs a0 s0 ra ! 9 = 0x3D" "printer_regs a0 s0 ra ! 10 = 0xB0"
  "printer_regs a0 s0 ra ! 16 = s0" "printer_regs a0 s0 ra ! 31 = ra"
  by (simp_all add: printer_regs_def)

lemma printer_regs_update [simp]:
  "(printer_regs a0 s0 ra)[4 := x] = printer_regs x s0 ra"
  "(printer_regs a0 s0 ra)[16 := x] = printer_regs a0 x ra"
  "(printer_regs a0 s0 ra)[31 := x] = printer_regs a0 s0 x"
  by (simp_all add: printer_regs_def list_update_swap [of 4 _ "replicate 32 0"]) (simp_all add: numeral_eq_Suc)

lemmas step_eval = named_def clear_of_gaps_def translate_def settled_def shell_entry_def print_entry_def
  quiet_display

abbreviation at_pc :: "byte_store \<Rightarrow> u32 \<Rightarrow> u32 \<Rightarrow> bool \<Rightarrow> (nat \<times> u32) option \<Rightarrow> u32 \<Rightarrow> u32 \<Rightarrow> u32 \<Rightarrow>
    terminal \<Rightarrow> console" where
  "at_pc mem a a' sl arr a0 s0 ra t \<equiv>
     \<lparr>core = guest_at mem a a' sl arr (printer_regs a0 s0 ra), terminal = t\<rparr>"

lemma text_address:
  assumes "k \<le> 0x7F000"
  shows "unat (0xBFC00100 + of_nat k :: u32) = 0xBFC00100 + k" "unat (0x1FC00100 + of_nat k :: u32) = 0x1FC00100 + k"
    "translate (0xBFC00000 + of_nat k + 0x100) = 0x1FC00100 + of_nat k"
proof -
  have k: "unat (of_nat k :: u32) = k" using assms by (simp add: unat_of_nat)
  show a: "unat (0xBFC00100 + of_nat k :: u32) = 0xBFC00100 + k"
    and b: "unat (0x1FC00100 + of_nat k :: u32) = 0x1FC00100 + k"
    using assms by (simp_all add: unat_word_ariths(1) k)
  have "0xBFC00000 + of_nat k + 0x100 = (0xBFC00100 + of_nat k :: u32)" by (simp add: algebra_simps)
  moreover have "(0xBFC00100 + k) mod 2 ^ 29 = 0x1FC00100 + k"
  proof -
    have "0xBFC00100 + k = (0x1FC00100 + k) + 5 * 2 ^ 29" by simp
    then have "(0xBFC00100 + k) mod 2 ^ 29 = (0x1FC00100 + k) mod 2 ^ 29" by (simp only: mod_mult_self1)
    then show ?thesis using assms by simp
  qed
  moreover have "(0xBFC00100 + of_nat k :: u32) \<noteq> 0xFFFE0130"
    using a assms by (simp add: word_unat_eq_iff)
  ultimately show "translate (0xBFC00000 + of_nat k + 0x100) = 0x1FC00100 + of_nat k"
    using a b by (simp add: translate_def word_unat_eq_iff unat_of_nat)
qed

lemma load_step:
  assumes "ready mem s" and k: "k \<le> 0x7F000" "peek mem (0x1FC00100 + of_nat k) = v"
  shows "console_step img (at_pc mem 0xBFC00018 0xBFC0001C False None a0 (0xBFC00000 + of_nat k) ra t)
    = Some (at_pc mem 0xBFC0001C 0xBFC00020 False (Some (4, of_nat v)) a0 (0xBFC00000 + of_nat k) ra t)"
proof -
  note addr = text_address [OF k(1)]
  let ?m = "guest_at mem 0xBFC00018 0xBFC0001C False None (printer_regs a0 (0xBFC00000 + of_nat k) ra)"
  have ea: "ea ?m 16 0x100 = 0xBFC00100 + of_nat k" by (simp add: ea_def algebra_simps)
  have tr: "translate (0xBFC00100 + of_nat k) = 0x1FC00100 + of_nat k"
    using addr(3) by (simp add: algebra_simps)
  show ?thesis
    by (rule console_stepI [where i = "Load 1 False 4 16 0x100"])
      (use k addr(1,2) in \<open>simp_all add: printer_words [OF assms(1)] decode_printer ea tr plain_access_def
        watched_def named_def quiet_display shell_entry_def print_entry_def settled_def,
       simp_all add: clear_of_gaps_def translate_def\<close>)
qed

lemma text_peek:
  assumes "ready mem s"
  shows "length s \<le> 0x7F000" "k < length s \<Longrightarrow> peek mem (0x1FC00100 + of_nat k) = of_char (s ! k)"
    "peek mem (0x1FC00100 + of_nat (length s)) = 0"
  using assms by (simp_all add: ready_def printer_mem_def holds_text_def)

lemma loop_steps:
  assumes "ready mem s"
  shows "console_step img (at_pc mem 0xBFC0001C 0xBFC00020 False (Some (4, c)) a0 s0 ra t)
      = Some (at_pc mem 0xBFC00020 0xBFC00024 False None c (s0 + 1) ra t)"
    and "c \<noteq> 0 \<Longrightarrow> console_step img (at_pc mem 0xBFC00020 0xBFC00024 False None c s0 ra t)
      = Some (at_pc mem 0xBFC00024 0xBFC00028 True None c s0 ra t)"
    and "console_step img (at_pc mem 0xBFC00024 0xBFC00028 True None c s0 ra t)
      = Some (at_pc mem 0xBFC00028 0xBFC0002C False None c s0 ra t)"
    and "console_step img (at_pc mem 0xBFC00028 0xBFC0002C False None c s0 ra t)
      = Some (at_pc mem 0xBFC0002C 0xB0 True None c s0 0xBFC00030 t)"
    and "console_step img (at_pc mem 0xBFC0002C 0xB0 True None c s0 ra t)
      = Some (at_pc mem 0xB0 0xB4 False None c s0 ra t)"
    and "console_step img (at_pc mem 0xB4 0xBFC00030 True None c s0 ra t)
      = Some (at_pc mem 0xBFC00030 0xBFC00034 False None c s0 ra t)"
    and "console_step img (at_pc mem 0xBFC00030 0xBFC00034 False None c s0 ra t)
      = Some (at_pc mem 0xBFC00034 0xBFC00018 True None c s0 ra t)"
    and "console_step img (at_pc mem 0xBFC00034 0xBFC00018 True None c s0 ra t)
      = Some (at_pc mem 0xBFC00018 0xBFC0001C False None c s0 ra t)"
proof -
  note eval = printer_words [OF assms] decode_printer step_eval
  show "console_step img (at_pc mem 0xBFC0001C 0xBFC00020 False (Some (4, c)) a0 s0 ra t)
      = Some (at_pc mem 0xBFC00020 0xBFC00024 False None c (s0 + 1) ra t)"
    by (rule console_stepI [where i = "Compute A_ADD 16 (Reg 16) (Const 1)"]) (simp_all add: eval)
  show "console_step img (at_pc mem 0xBFC00020 0xBFC00024 False None c s0 ra t)
      = Some (at_pc mem 0xBFC00024 0xBFC00028 True None c s0 ra t)" if "c \<noteq> 0"
    by (rule console_stepI [where i = "Branch C_EQ 4 0 5 False"]) (simp_all add: eval that)
  show "console_step img (at_pc mem 0xBFC00024 0xBFC00028 True None c s0 ra t)
      = Some (at_pc mem 0xBFC00028 0xBFC0002C False None c s0 ra t)"
    by (rule console_stepI [where i = "Compute A_SLL 0 (Reg 0) (Const 0)"]) (simp_all add: eval)
  show "console_step img (at_pc mem 0xBFC00028 0xBFC0002C False None c s0 ra t)
      = Some (at_pc mem 0xBFC0002C 0xB0 True None c s0 0xBFC00030 t)"
    by (rule console_stepI [where i = "Jump_Reg 10 (Some 31)"]) (simp_all add: eval)
  show "console_step img (at_pc mem 0xBFC0002C 0xB0 True None c s0 ra t)
      = Some (at_pc mem 0xB0 0xB4 False None c s0 ra t)"
    by (rule console_stepI [where i = "Compute A_SLL 0 (Reg 0) (Const 0)"]) (simp_all add: eval)
  show "console_step img (at_pc mem 0xB4 0xBFC00030 True None c s0 ra t)
      = Some (at_pc mem 0xBFC00030 0xBFC00034 False None c s0 ra t)"
    by (rule console_stepI [where i = "Compute A_SLL 0 (Reg 0) (Const 0)"]) (simp_all add: eval)
  show "console_step img (at_pc mem 0xBFC00030 0xBFC00034 False None c s0 ra t)
      = Some (at_pc mem 0xBFC00034 0xBFC00018 True None c s0 ra t)"
    by (rule console_stepI [where i = "Branch C_EQ 0 0 (- 7) False"]) (simp_all add: eval)
  show "console_step img (at_pc mem 0xBFC00034 0xBFC00018 True None c s0 ra t)
      = Some (at_pc mem 0xBFC00018 0xBFC0001C False None c s0 ra t)"
    by (rule console_stepI [where i = "Compute A_SLL 0 (Reg 0) (Const 0)"]) (simp_all add: eval)
qed

text \<open>The return from the function, at whose entry the character is shown.\<close>

lemma print_step:
  assumes "ready mem s" "accepts c t"
  shows "console_step img (at_pc mem 0xB0 0xB4 False None (of_nat (of_char c)) s0 0xBFC00030 t)
    = Some (at_pc mem 0xB4 0xBFC00030 True None (of_nat (of_char c)) s0 0xBFC00030 (put_char c t))"
proof -
  let ?m = "guest_at mem 0xB0 0xB4 False None (printer_regs (of_nat (of_char c)) s0 0xBFC00030)"
  have "prints ?m = Some c" by (simp add: prints_def print_entry_def char_word)
  then have "display ?m t = Some (put_char c t)" using assms(2) by (simp add: display_def)
  then show ?thesis
    by (intro console_stepI [where i = "Jump_Reg 31 None"])
      (simp_all add: printer_words [OF assms(1)] decode_printer named_def clear_of_gaps_def translate_def
        settled_def shell_entry_def print_entry_def)
qed

section \<open>Runs\<close>

text \<open>One character takes ten steps.\<close>

lemma char_steps:
  assumes "ready mem s" "k < length s" "accepts (s ! k) t"
  shows "run_steps (console_step img) 10
      (at_pc mem 0xBFC00018 0xBFC0001C False None a0 (0xBFC00000 + of_nat k) ra t)
    = Some (at_pc mem 0xBFC00018 0xBFC0001C False None (of_nat (of_char (s ! k)))
        (0xBFC00000 + of_nat (Suc k)) 0xBFC00030 (put_char (s ! k) t))"
proof -
  let ?c = "of_nat (of_char (s ! k)) :: u32"
  have "k \<le> 0x7F000" using text_peek(1) [OF assms(1)] assms(2) by simp
  note load = load_step [OF assms(1) this text_peek(2) [OF assms(1,2)]]
  have "s ! k \<noteq> CHR 0x00" using assms(3) by (auto simp: accepts_def NUL_def)
  then have "of_char (s ! k) \<noteq> (0 :: nat)" by (rule char_nonzero)
  then have ne: "?c \<noteq> 0" using char_word [of "s ! k"] by (metis unat_0)
  have ten: "10 = Suc (Suc (Suc (Suc (Suc (Suc (Suc (Suc (Suc (Suc 0)))))))))" by simp
  have next_k: "0xBFC00000 + of_nat k + 1 = (0xBFC00000 + of_nat (Suc k) :: u32)" by simp
  show ?thesis
    unfolding ten run_steps.simps load loop_steps [OF assms(1)]
      loop_steps(2) [OF assms(1) ne] print_step [OF assms(1,3)] bind.simps next_k by (rule refl)
qed

text \<open>A text is printed as the terminal takes it.\<close>

fun put_all :: "string \<Rightarrow> terminal \<Rightarrow> terminal" where
  "put_all [] t = t"
| "put_all (c # cs) t = put_all cs (put_char c t)"

fun accepts_all :: "string \<Rightarrow> terminal \<Rightarrow> bool" where
  "accepts_all [] t = True"
| "accepts_all (c # cs) t \<longleftrightarrow> accepts c t \<and> accepts_all cs (put_char c t)"

lemma text_steps:
  assumes "ready mem s" "k + n = length s" "accepts_all (drop k s) t"
  shows "\<exists>a0 ra. run_steps (console_step img) (10 * n)
      (at_pc mem 0xBFC00018 0xBFC0001C False None b0 (0xBFC00000 + of_nat k) rb t)
    = Some (at_pc mem 0xBFC00018 0xBFC0001C False None a0 (0xBFC00000 + of_nat (length s)) ra
        (put_all (drop k s) t))"
  using assms(2,3)
proof (induction n arbitrary: k t b0 rb)
  case 0
  then show ?case by (intro exI [of _ b0] exI [of _ rb]) simp
next
  case (Suc n)
  then have k: "k < length s" by simp
  have d: "drop k s = s ! k # drop (Suc k) s" using k by (simp add: Cons_nth_drop_Suc)
  then have acc: "accepts (s ! k) t" "accepts_all (drop (Suc k) s) (put_char (s ! k) t)"
    using Suc.prems(2) by simp_all
  have "10 * Suc n = 10 + 10 * n" by simp
  then show ?case
    using Suc.IH [of "Suc k" "put_char (s ! k) t" "of_nat (of_char (s ! k))" "0xBFC00030"]
      Suc.prems(1) acc(2) char_steps [OF assms(1) k acc(1), of img b0 rb]
    by (simp only: run_steps_add d put_all.simps bind.simps)
qed

section \<open>The end\<close>

text \<open>Behind the text the program leaves the loop and stays where it is.\<close>

inductive spinning :: "byte_store \<Rightarrow> string \<Rightarrow> terminal \<Rightarrow> console \<Rightarrow> bool" for mem s t where
  at_end: "spinning mem s t (at_pc mem 0xBFC00018 0xBFC0001C False None a0 (0xBFC00000 + of_nat (length s)) ra t)"
| with_nul: "spinning mem s t (at_pc mem 0xBFC0001C 0xBFC00020 False (Some (4, 0)) a0 s0 ra t)"
| at_test: "spinning mem s t (at_pc mem 0xBFC00020 0xBFC00024 False None 0 s0 ra t)"
| leaving: "spinning mem s t (at_pc mem 0xBFC00024 0xBFC00038 True None 0 s0 ra t)"
| at_done: "spinning mem s t (at_pc mem 0xBFC00038 0xBFC0003C False None 0 s0 ra t)"
| turning: "spinning mem s t (at_pc mem 0xBFC0003C 0xBFC00038 True None 0 s0 ra t)"

inductive_cases spinningE: "spinning mem s t c"

lemma spinning_step:
  assumes "ready mem s" "spinning mem s t c"
  shows "\<exists>c'. console_step img c = Some c' \<and> spinning mem s t c'"
proof -
  note eval = printer_words [OF assms(1)] decode_printer step_eval
  note load = load_step [OF assms(1) text_peek(1,3) [OF assms(1)]]
  show ?thesis
    using assms(2)
  proof cases
    case (at_end a0 ra)
    have "console_step img (at_pc mem 0xBFC00018 0xBFC0001C False None a0 (0xBFC00000 + of_nat (length s)) ra t)
        = Some (at_pc mem 0xBFC0001C 0xBFC00020 False (Some (4, 0)) a0 (0xBFC00000 + of_nat (length s)) ra t)"
      using load [of img a0 ra t] by simp
    then show ?thesis unfolding at_end using spinning.with_nul by blast
  next
    case (with_nul a0 s0 ra)
    show ?thesis unfolding with_nul using loop_steps(1) [OF assms(1)] spinning.at_test by blast
  next
    case (at_test s0 ra)
    have "console_step img (at_pc mem 0xBFC00020 0xBFC00024 False None 0 s0 ra t)
        = Some (at_pc mem 0xBFC00024 0xBFC00038 True None 0 s0 ra t)"
      by (rule console_stepI [where i = "Branch C_EQ 4 0 5 False"]) (simp_all add: eval)
    then show ?thesis unfolding at_test using spinning.leaving by blast
  next
    case (leaving s0 ra)
    have "console_step img (at_pc mem 0xBFC00024 0xBFC00038 True None 0 s0 ra t)
        = Some (at_pc mem 0xBFC00038 0xBFC0003C False None 0 s0 ra t)"
      by (rule console_stepI [where i = "Compute A_SLL 0 (Reg 0) (Const 0)"]) (simp_all add: eval)
    then show ?thesis unfolding leaving using spinning.at_done by blast
  next
    case (at_done s0 ra)
    have "console_step img (at_pc mem 0xBFC00038 0xBFC0003C False None 0 s0 ra t)
        = Some (at_pc mem 0xBFC0003C 0xBFC00038 True None 0 s0 ra t)"
      by (rule console_stepI [where i = "Branch C_EQ 0 0 (- 1) False"]) (simp_all add: eval)
    then show ?thesis unfolding at_done using spinning.turning by blast
  next
    case (turning s0 ra)
    have "console_step img (at_pc mem 0xBFC0003C 0xBFC00038 True None 0 s0 ra t)
        = Some (at_pc mem 0xBFC00038 0xBFC0003C False None 0 s0 ra t)"
      by (rule console_stepI [where i = "Compute A_SLL 0 (Reg 0) (Const 0)"]) (simp_all add: eval)
    then show ?thesis unfolding turning using spinning.at_done by blast
  qed
qed

lemma spinning_run:
  assumes "ready mem s"
  shows "spinning mem s t c \<Longrightarrow> \<exists>m. run_steps (console_step img) n c = Some \<lparr>core = m, terminal = t\<rparr>"
proof (induction n arbitrary: c)
  case 0
  then show ?case by (auto elim: spinningE)
next
  case (Suc n)
  then show ?case using spinning_step [OF assms Suc.prems, of img] by auto
qed

section \<open>The start\<close>

definition store_return :: "byte_store \<Rightarrow> byte_store" where
  "store_return mem = write_le mem 4 0xB0 0x03E00008"

lemma peek_rom: "rom q \<Longrightarrow> peek (store_return mem) q = peek mem q"
  by (simp add: peek_def store_return_def write_le_def)

lemma store_return_ready:
  assumes "printer_mem mem s" "clean_ram mem"
  shows "ready (store_return mem) s"
proof -
  have rom: "rom (0x1FC00000 + of_nat j)" if "j < 0x80000" for j
  proof -
    have "unat (0x1FC00000 + of_nat j :: u32) = 0x1FC00000 + j"
      using that by (simp add: unat_word_ariths(1) unat_of_nat)
    then show ?thesis using that by (simp add: rom_def)
  qed
  have "read_le (store_return mem) 4 (0x1FC00000 + of_nat (4 * k)) = read_le mem 4 (0x1FC00000 + of_nat (4 * k))"
    if "k < 16" for k
  proof -
    have "rom (0x1FC00000 + of_nat (4 * k) + of_nat i)" if "i < 4" for i
      using rom [of "4 * k + i"] that \<open>k < 16\<close> by (simp add: add.assoc)
    from this [of 0] this [of 1] this [of 2] this [of 3] show ?thesis
      by (simp only: read_le_4 peek_rom of_nat_0 of_nat_1 of_nat_numeral add_0_right) (simp add: peek_rom)
  qed
  then have words: "holds_words (store_return mem) 0x1FC00000 printer"
    using assms(1) by (simp add: printer_mem_def holds_words_def printer_def)
  have "peek (store_return mem) (0x1FC00100 + of_nat k) = peek mem (0x1FC00100 + of_nat k)"
    if "k \<le> length s" for k
    using that assms(1) rom [of "0x100 + k"]
    by (intro peek_rom) (simp add: printer_mem_def holds_text_def algebra_simps)
  then have ptext: "holds_text (store_return mem) s"
    using assms(1) by (simp add: printer_mem_def holds_text_def)
  have ram: "mem 0xB0 = Some 0" "mem 0xB1 = Some 0" "mem 0xB2 = Some 0" "mem 0xB3 = Some 0"
    "mem 0xB4 = Some 0" "mem 0xB5 = Some 0" "mem 0xB6 = Some 0" "mem 0xB7 = Some 0"
    using assms(2) by (simp_all add: clean_ram_def)
  have "read_le (store_return mem) 4 0xB0 = 0x03E00008" "read_le (store_return mem) 4 0xB4 = 0"
    by (simp_all add: read_le_4 peek_def store_return_def write_le_def ram rom_def)
  then have "holds_words (store_return mem) 0xB0 [0x03E00008, 0]"
    by (auto simp: holds_words_def less_Suc_eq)
  with words ptext show ?thesis by (simp add: ready_def printer_mem_def)
qed

lemma start_words:
  assumes "holds_words mem 0x1FC00000 printer"
  shows "fetched_word (guest_at mem 0xBFC00000 a' sl arr r) = 0x3C0803E0"
    "fetched_word (guest_at mem 0xBFC00004 a' sl arr r) = 0x35080008"
    "fetched_word (guest_at mem 0xBFC00008 a' sl arr r) = 0xAC0800B0"
    "fetched_word (guest_at mem 0xBFC0000C a' sl arr r) = 0x3409003D"
    "fetched_word (guest_at mem 0xBFC00010 a' sl arr r) = 0x340A00B0"
    "fetched_word (guest_at mem 0xBFC00014 a' sl arr r) = 0x3C10BFC0"
proof -
  have rom: "read_le mem 4 (0x1FC00000 + of_nat (4 * k)) = unat (printer ! k)" if "k < 16" for k
    using assms that by (simp add: holds_words_def printer_def)
  show "fetched_word (guest_at mem 0xBFC00000 a' sl arr r) = 0x3C0803E0"
    "fetched_word (guest_at mem 0xBFC00004 a' sl arr r) = 0x35080008"
    "fetched_word (guest_at mem 0xBFC00008 a' sl arr r) = 0xAC0800B0"
    "fetched_word (guest_at mem 0xBFC0000C a' sl arr r) = 0x3409003D"
    "fetched_word (guest_at mem 0xBFC00010 a' sl arr r) = 0x340A00B0"
    "fetched_word (guest_at mem 0xBFC00014 a' sl arr r) = 0x3C10BFC0"
    using rom [of 0] rom [of 1] rom [of 2] rom [of 3] rom [of 4] rom [of 5]
    by (simp_all add: fetched_word_def guest_at_def translate_def printer_def)
qed

lemma start_steps:
  assumes "printer_mem mem s" "clean_ram mem"
  shows "run_steps (console_step img) 6 (power_up mem)
    = Some (at_pc (store_return mem) 0xBFC00018 0xBFC0001C False None 0 0xBFC00000 0 \<lparr>open_line = [], stored = []\<rparr>)"
proof -
  let ?t = "\<lparr>open_line = [], stored = []\<rparr>"
  let ?r = "replicate 32 0 :: u32 list"
  let ?st = "\<lambda>mem a r. \<lparr>core = guest_at mem a (a + 4) False None r, terminal = ?t\<rparr>"
  have w: "holds_words mem 0x1FC00000 printer" using assms(1) by (simp add: printer_mem_def)
  have w': "holds_words (store_return mem) 0x1FC00000 printer"
    using store_return_ready [OF assms] by (simp add: ready_def printer_mem_def)
  note eval = decode_printer named_def clear_of_gaps_def translate_def settled_def shell_entry_def
    print_entry_def quiet_display
  have p: "power_up mem = ?st mem 0xBFC00000 ?r" by (simp add: power_up_def guest_at_def)
  have s1: "console_step img (?st mem 0xBFC00000 ?r) = Some (?st mem 0xBFC00004 (?r[8 := 0x03E00000]))"
    by (rule console_stepI [where i = "Compute A_SLL 8 (Const 0x03E0) (Const 16)"])
      (simp_all add: start_words [OF w] eval)
  have s2: "console_step img (?st mem 0xBFC00004 (?r[8 := 0x03E00000]))
      = Some (?st mem 0xBFC00008 (?r[8 := 0x03E00008]))"
    by (rule console_stepI [where i = "Compute A_OR 8 (Reg 8) (Const 8)"])
      (simp_all add: start_words [OF w] eval)
  have s3: "console_step img (?st mem 0xBFC00008 (?r[8 := 0x03E00008]))
      = Some (?st (store_return mem) 0xBFC0000C (?r[8 := 0x03E00008]))"
    by (rule console_stepI [where i = "Store 4 8 0 0xB0"])
      (simp_all add: start_words [OF w] eval ea_def plain_access_def watched_def isolated_def
        store_return_def)
  have s4: "console_step img (?st (store_return mem) 0xBFC0000C (?r[8 := 0x03E00008]))
      = Some (?st (store_return mem) 0xBFC00010 (?r[8 := 0x03E00008, 9 := 0x3D]))"
    by (rule console_stepI [where i = "Compute A_OR 9 (Reg 0) (Const 0x3D)"])
      (simp_all add: start_words [OF w'] eval)
  have s5: "console_step img (?st (store_return mem) 0xBFC00010 (?r[8 := 0x03E00008, 9 := 0x3D]))
      = Some (?st (store_return mem) 0xBFC00014 (?r[8 := 0x03E00008, 9 := 0x3D, 10 := 0xB0]))"
    by (rule console_stepI [where i = "Compute A_OR 10 (Reg 0) (Const 0xB0)"])
      (simp_all add: start_words [OF w'] eval)
  have s6: "console_step img (?st (store_return mem) 0xBFC00014 (?r[8 := 0x03E00008, 9 := 0x3D, 10 := 0xB0]))
      = Some (?st (store_return mem) 0xBFC00018 (?r[8 := 0x03E00008, 9 := 0x3D, 10 := 0xB0, 16 := 0xBFC00000]))"
    by (rule console_stepI [where i = "Compute A_SLL 16 (Const 0xBFC0) (Const 16)"])
      (simp_all add: start_words [OF w'] eval)
  have regs: "?r[8 := 0x03E00008, 9 := 0x3D, 10 := 0xB0, 16 := 0xBFC00000] = printer_regs 0 0xBFC00000 0"
    by (simp add: printer_regs_def numeral_eq_Suc)
  have six: "6 = Suc (Suc (Suc (Suc (Suc (Suc 0)))))" by simp
  show ?thesis
    unfolding p six run_steps.simps s1 s2 s3 s4 s5 s6 bind.simps regs by simp
qed

text \<open>The whole text is printed, and nothing else however long the program goes on.\<close>

lemma printer_prints:
  assumes "printer_mem mem s" "clean_ram mem" "accepts_all s \<lparr>open_line = [], stored = []\<rparr>"
  shows "\<exists>m. run_steps (console_step img) (6 + 10 * length s + n) (power_up mem)
    = Some \<lparr>core = m, terminal = put_all s \<lparr>open_line = [], stored = []\<rparr>\<rparr>"
proof -
  note ready = store_return_ready [OF assms(1,2)] and start = start_steps [OF assms(1,2), of img]
  have acc: "accepts_all (drop 0 s) \<lparr>open_line = [], stored = []\<rparr>" using assms(3) by simp
  have zero: "0xBFC00000 = (0xBFC00000 + of_nat 0 :: u32)" by simp
  have run: "0 + length s = length s" by simp
  obtain a0 ra where printed: "run_steps (console_step img) (10 * length s)
      (at_pc (store_return mem) 0xBFC00018 0xBFC0001C False None 0 0xBFC00000 0 \<lparr>open_line = [], stored = []\<rparr>)
    = Some (at_pc (store_return mem) 0xBFC00018 0xBFC0001C False None a0 (0xBFC00000 + of_nat (length s)) ra
        (put_all s \<lparr>open_line = [], stored = []\<rparr>))"
    using text_steps [OF ready run acc, of img 0 0, folded zero] unfolding drop_0 by blast
  show ?thesis
    unfolding run_steps_add start bind.simps printed
    by (rule spinning_run [OF ready spinning.at_end])
qed

end
