(* ===== verification/Printer_Runs.thy ===== *)
theory Printer_Runs
  imports Printer
begin

text \<open>
  The printer program in a BIOS file: the application, started on that file, leaves the lines of
  the text in the TTY file.
\<close>

section \<open>What the console prints\<close>

lemma short_accepts: "short_lines (length (open_line t)) s \<Longrightarrow> accepts_all s t"
proof (induction s arbitrary: t)
  case (Cons c s)
  then show ?case
    using Cons.IH [of "put_char c t"] by (auto simp: accepts_iff put_char_def newline_def split: if_splits)
qed simp

lemma put_all_deliver:
  "deliver (open_line t) (stored t) s = (open_line (put_all s t), stored (put_all s t))"
proof (induction s arbitrary: t)
  case (Cons c s)
  show ?case using Cons.IH [of "put_char c t"] by (simp add: put_char_def newline_def split: if_splits)
qed simp

lemma put_all_append: "put_all (xs @ ys) t = put_all ys (put_all xs t)"
  by (induction xs arbitrary: t) simp_all

lemma put_all_inject:
  assumes "put_all xs \<lparr>open_line = [], stored = []\<rparr> = put_all ys \<lparr>open_line = [], stored = []\<rparr>"
  shows "xs = ys"
proof -
  have "deliver [] [] xs = deliver [] [] ys"
    using assms put_all_deliver [of "\<lparr>open_line = [], stored = []\<rparr>" xs]
      put_all_deliver [of "\<lparr>open_line = [], stored = []\<rparr>" ys] by simp
  obtain q out where d: "deliver [] [] xs = (q, out)" by (cases "deliver [] [] xs")
  then have "deliver [] [] ys = (q, out)" using \<open>deliver [] [] xs = deliver [] [] ys\<close> by simp
  from deliver_split(2) [OF d] deliver_split(2) [OF this] show ?thesis by simp
qed

text \<open>A host with the printer program, a text, and an empty executable.\<close>

definition printer_env :: "string \<Rightarrow> environment" where
  "printer_env s = guest_env printer s \<lparr>st_size = 0, openable = True, content = [], read_error = False\<rparr>"

lemma printer_console:
  assumes "length s \<le> 0x7F000" "short_lines 0 s"
  obtains emu where "main_setup (printer_env s) sample_args = Running emu"
    "image_of (exe_data emu) = None"
    "\<And>n. \<exists>m. run_steps (console_step None) (6 + 10 * length s + n) (power_up (mem_view (bus (emu_ctx emu))))
      = Some \<lparr>core = m, terminal = put_all s \<lparr>open_line = [], stored = []\<rparr>\<rparr>"
proof -
  let ?exe = "\<lparr>st_size = 0, openable = True, content = [], read_error = False\<rparr>"
  have "length printer \<le> 64" "intact ?exe" by (simp_all add: printer_def intact_def)
  then obtain emu where emu: "main_setup (printer_env s) sample_args = Running emu"
    "buf_size (exe_data emu) = length (content ?exe)"
    "holds_words (mem_view (bus (emu_ctx emu))) 0x1FC00000 printer"
    "holds_text (mem_view (bus (emu_ctx emu))) s" "clean_ram (mem_view (bus (emu_ctx emu)))"
    unfolding printer_env_def by (metis guest_start [OF _ assms(1)])
  have mem: "printer_mem (mem_view (bus (emu_ctx emu))) s" using emu(3,4) by (simp add: printer_mem_def)
  have none: "image_of (exe_data emu) = None" using emu(2) by (simp add: image_of_def)
  have "accepts_all s \<lparr>open_line = [], stored = []\<rparr>" by (rule short_accepts) (simp add: assms(2))
  from printer_prints [OF mem emu(5) this, of None] that [OF emu(1) none] show thesis by blast
qed

text \<open>
  C3: the program, its loader, the CPU, the hooks and the TTY file together: a BIOS file with the
  printer program and any text of short lines makes the application run on for ever, and from
  the turn 6 + 10 n on, for a text of n characters, the file on the disk is exactly the completed
  lines of the text.
\<close>

theorem printer_on_disk:
  assumes "length s \<le> 0x7F000" "short_lines 0 s"
  shows "\<exists>emu out rest. main_setup (printer_env s) sample_args = Running emu
    \<and> s = out @ rest \<and> newline \<notin> set rest \<and> (out = [] \<or> last out = newline)
    \<and> (\<forall>k. \<exists>emu'. main_loop (6 + 10 * length s + k) emu = Inr emu'
        \<and> tty_file (emu_host emu') = Some \<lparr>on_disk = out, unwritten = []\<rparr>)"
proof -
  obtain emu where emu: "main_setup (printer_env s) sample_args = Running emu"
    "image_of (exe_data emu) = None"
    and run: "\<And>n. \<exists>m. run_steps (console_step None) (6 + 10 * length s + n)
      (power_up (mem_view (bus (emu_ctx emu))))
      = Some \<lparr>core = m, terminal = put_all s \<lparr>open_line = [], stored = []\<rparr>\<rparr>"
    by (rule printer_console [OF assms]) blast
  let ?t = "put_all s \<lparr>open_line = [], stored = []\<rparr>"
  have "tty_opens (printer_env s)" by (simp add: printer_env_def guest_env_def)
  from setup_presents [OF emu(1) this] have start: "presents None emu (power_up (mem_view (bus (emu_ctx emu))))"
    by (simp add: emu(2))
  have "\<exists>emu'. main_loop (6 + 10 * length s + k) emu = Inr emu'
      \<and> tty_file (emu_host emu') = Some \<lparr>on_disk = stored ?t, unwritten = []\<rparr>" for k
  proof -
    obtain m where "run_steps (console_step None) (6 + 10 * length s + k)
        (power_up (mem_view (bus (emu_ctx emu)))) = Some \<lparr>core = m, terminal = ?t\<rparr>" using run by blast
    from app_console.run_answers [OF start this] obtain emu' where
      emu': "run_steps turn (6 + 10 * length s + k) emu = Some emu'" "presents None emu' \<lparr>core = m, terminal = ?t\<rparr>"
      by blast
    have "main_loop (6 + 10 * length s + k) emu = Inr emu'" using emu'(1) unfolding main_loop_run .
    with presents_file [OF emu'(2)] show ?thesis by simp
  qed
  moreover have "deliver [] [] s = (open_line ?t, stored ?t)"
    using put_all_deliver [of "\<lparr>open_line = [], stored = []\<rparr>" s] by simp
  from deliver_split [OF this] have "newline \<notin> set (open_line ?t)" "s = stored ?t @ open_line ?t"
    "stored ?t = [] \<or> last (stored ?t) = newline" by (simp_all, blast)
  ultimately show ?thesis using emu(1) by blast
qed

lemma printer_on_disk_witness:
  "\<exists>emu out rest. main_setup (printer_env (''Hi'' @ [newline] @ ''!'')) sample_args = Running emu
    \<and> ''Hi'' @ [newline] @ ''!'' = out @ rest \<and> newline \<notin> set rest
    \<and> (\<exists>emu'. main_loop 1000 emu = Inr emu'
        \<and> tty_file (emu_host emu') = Some \<lparr>on_disk = out, unwritten = []\<rparr>)"
proof -
  let ?s = "''Hi'' @ [newline] @ ''!''"
  have s: "length ?s \<le> 0x7F000" "short_lines 0 ?s" by (simp_all add: newline_def NUL_def)
  have "6 + 10 * length ?s + 954 = 1000" by simp
  with printer_on_disk [OF s] show ?thesis by metis
qed

text \<open>
  C2: the application with its loader, tracing hooks, CPU, bus, event handlers and files refines
  the console machine. Where the TTY file could be opened and as long as the console has a
  successor, the loop goes on, the machine's registers and memory are the console's, and the TTY
  file on the disk is what it has stored. The console has no successor where it meets an image
  whose code is not all there or does not fit, an instruction or an access outside the reference
  machine, a line of 255 characters or a NUL.
\<close>

theorem application_refines_console:
  assumes "main_setup env argv = Running emu" "tty_opens env"
    and "run_steps (console_step (image_of (exe_data emu))) n
      (power_up (mem_view (bus (emu_ctx emu)))) = Some s"
  shows "\<exists>emu'. main_loop n emu = Inr emu' \<and> isa_of (emu_ctx emu') = core s
    \<and> tty_file (emu_host emu') = Some \<lparr>on_disk = stored (terminal s), unwritten = []\<rparr>"
proof -
  obtain emu' where "run_steps turn n emu = Some emu'" "presents (image_of (exe_data emu)) emu' s"
    using app_console.run_answers [OF setup_presents [OF assms(1,2)] assms(3)] by blast
  then show ?thesis
    using presents_file [of "image_of (exe_data emu)" emu' s]
    by (auto simp: main_loop_run presents_def tracks_def)
qed

lemma application_refines_console_witness:
  "\<exists>emu emu'. main_setup (printer_env (''Hi'' @ [newline])) sample_args = Running emu
    \<and> main_loop 36 emu = Inr emu'
    \<and> tty_file (emu_host emu') = Some \<lparr>on_disk = ''Hi'' @ [newline], unwritten = []\<rparr>"
proof -
  let ?s = "''Hi'' @ [newline]"
  have s: "length ?s \<le> 0x7F000" "short_lines 0 ?s" by (simp_all add: newline_def NUL_def)
  obtain emu where emu: "main_setup (printer_env ?s) sample_args = Running emu"
    "image_of (exe_data emu) = None"
    and run: "\<And>n. \<exists>m. run_steps (console_step None) (6 + 10 * length ?s + n)
      (power_up (mem_view (bus (emu_ctx emu))))
      = Some \<lparr>core = m, terminal = put_all ?s \<lparr>open_line = [], stored = []\<rparr>\<rparr>"
    by (rule printer_console [OF s]) blast
  obtain m where m: "run_steps (console_step None) (6 + 10 * length ?s + 0)
      (power_up (mem_view (bus (emu_ctx emu))))
      = Some \<lparr>core = m, terminal = put_all ?s \<lparr>open_line = [], stored = []\<rparr>\<rparr>" using run by blast
  have "tty_opens (printer_env ?s)" by (simp add: printer_env_def guest_env_def)
  from application_refines_console [OF emu(1) this, unfolded emu(2), OF m] emu(1) show ?thesis
    by (auto simp: put_char_def newline_def)
qed

section \<open>What the guest prints\<close>

text \<open>The terminal of the console takes what the hooks of the application see.\<close>

lemma turn_displays:
  assumes "presents img emu s" "console_step img s = Some s'"
  obtains ctx emu' where "load_at_shell emu = Inr ctx" "main_turn emu = Inr emu'" "presents img emu' s'"
    "terminal s' = put_all (printed ctx) (terminal s)"
proof -
  obtain m where ar: "arrive img (core s) = Some m" and di: "display m (terminal s) = Some (terminal s')"
    using assms(2) by (auto simp: console_step_def split: option.splits if_splits)
  obtain ctx where l: "load_at_shell emu = Inr ctx" "tracks ctx m (terminal s)"
    using arrive_answers [OF assms(1) ar] by blast
  have pr: "printed ctx = (case prints m of None \<Rightarrow> [] | Some c \<Rightarrow> [c])"
    using l(2) prints_printed [of ctx] by (auto simp: tracks_def at_hook_def)
  obtain emu' where "turn emu = Some emu'" "presents img emu' s'"
    using app_console.step_answers [OF assms] by blast
  moreover have "terminal s' = put_all (printed ctx) (terminal s)"
    using di by (auto simp: display_def pr split: option.splits if_splits)
  ultimately show thesis using that l(1) by (simp add: turn_Some_iff)
qed

lemma run_displays:
  assumes "presents img emu s" "run_steps (console_step img) n s = Some s'"
  shows "terminal s' = put_all (app_printed n emu) (terminal s)"
  using assms
proof (induction n arbitrary: emu s)
  case (Suc n)
  then obtain s1 where s1: "console_step img s = Some s1" "run_steps (console_step img) n s1 = Some s'"
    by (auto elim!: bind_eq_SomeE)
  obtain ctx emu1 where t: "load_at_shell emu = Inr ctx" "main_turn emu = Inr emu1" "presents img emu1 s1"
    "terminal s1 = put_all (printed ctx) (terminal s)"
    by (rule turn_displays [OF Suc.prems(1) s1(1)])
  from Suc.IH [OF t(3) s1(2)] t show ?case by (simp add: put_all_append)
qed simp

text \<open>
  C31: where the TTY file could be opened and the guest prints no NUL and only lines of fewer than
  255 characters, the file on the disk holds, after any number of turns, exactly the lines the
  guest has completed: its text up to the last newline.
\<close>

theorem guest_text_on_disk:
  assumes "main_setup env argv = Running emu" "tty_opens env" "main_loop n emu = Inr emu'"
    and "short_lines 0 (app_printed n emu)"
  shows "\<exists>f rest. tty_file (emu_host emu') = Some f \<and> unwritten f = []
    \<and> app_printed n emu = on_disk f @ rest \<and> newline \<notin> set rest
    \<and> (on_disk f = [] \<or> last (on_disk f) = newline)"
  by (rule text_on_disk [OF assms])

text \<open>The printer program with a line and a half.\<close>

lemma guest_text_on_disk_witness:
  "\<exists>emu emu' f. main_setup (printer_env (''Hi'' @ [newline] @ ''!'')) sample_args = Running emu
    \<and> main_loop 46 emu = Inr emu' \<and> app_printed 46 emu = ''Hi'' @ [newline] @ ''!''
    \<and> tty_file (emu_host emu') = Some f \<and> on_disk f = ''Hi'' @ [newline]"
proof -
  let ?s = "''Hi'' @ [newline] @ ''!''" and ?t = "\<lparr>open_line = [], stored = []\<rparr>"
  have s: "length ?s \<le> 0x7F000" "short_lines 0 ?s" by (simp_all add: newline_def NUL_def)
  obtain emu where emu: "main_setup (printer_env ?s) sample_args = Running emu"
    "image_of (exe_data emu) = None"
    and run: "\<And>n. \<exists>m. run_steps (console_step None) (6 + 10 * length ?s + n)
      (power_up (mem_view (bus (emu_ctx emu)))) = Some \<lparr>core = m, terminal = put_all ?s ?t\<rparr>"
    by (rule printer_console [OF s]) blast
  obtain m where m: "run_steps (console_step None) 46 (power_up (mem_view (bus (emu_ctx emu))))
      = Some \<lparr>core = m, terminal = put_all ?s ?t\<rparr>" using run [of 0] by auto
  have opened: "tty_opens (printer_env ?s)" by (simp add: printer_env_def guest_env_def)
  have start: "presents None emu (power_up (mem_view (bus (emu_ctx emu))))"
    using setup_presents [OF emu(1) opened] by (simp add: emu(2))
  obtain emu' where emu': "main_loop 46 emu = Inr emu'"
    using app_console.run_answers [OF start m] by (auto simp: main_loop_run)
  have "put_all (app_printed 46 emu) ?t = put_all ?s ?t"
    using run_displays [OF start m] unfolding power_up_def by (simp only: console.simps)
  then have said: "app_printed 46 emu = ?s" by (rule put_all_inject)
  from guest_text_on_disk [OF emu(1) opened emu', unfolded said, OF s(2)] obtain f rest where
    f: "tty_file (emu_host emu') = Some f" "?s = on_disk f @ rest" "newline \<notin> set rest"
    "on_disk f = [] \<or> last (on_disk f) = newline" by blast
  then have "on_disk f = ''Hi'' @ [newline]"
    by (cases "on_disk f" rule: rev_cases) (auto simp: newline_def append_eq_Cons_conv Cons_eq_append_conv)
  with emu emu' said f(1) show ?thesis by blast
qed

end
