(* ===== verification/Exe_Boot.thy ===== *)
theory Exe_Boot
  imports Guest_Files
begin

text \<open>
  The way of an executable from its file to the processor: a BIOS that jumps to the shell, and
  what the application has in memory and registers when it goes on there.
\<close>

text \<open>\<^verbatim>\<open>lui $t0, 0x8003\<close>, \<^verbatim>\<open>jr $t0\<close>, \<^verbatim>\<open>nop\<close>.\<close>

definition shell_jump :: "u32 list" where
  "shell_jump = [0x3C088003, 0x01000008, 0x00000000]"

lemma decode_jump:
  "decode 0x3C088003 = Some (Compute A_SLL 8 (Const 0x8003) (Const 16))"
  "decode 0x01000008 = Some (Jump_Reg 8 None)"
  "decode 0x00000000 = Some (Compute A_SLL 0 (Reg 0) (Const 0))"
  by (simp_all add: decode_def field_def decode_special_def decode_immediate_def disp_def Let_def)

lemma jump_words:
  assumes "holds_words mem 0x1FC00000 shell_jump"
  shows "fetched_word (guest_at mem 0xBFC00000 a' sl arr r) = 0x3C088003"
    "fetched_word (guest_at mem 0xBFC00004 a' sl arr r) = 0x01000008"
    "fetched_word (guest_at mem 0xBFC00008 a' sl arr r) = 0"
proof -
  have rom: "read_le mem 4 (0x1FC00000 + of_nat (4 * k)) = unat (shell_jump ! k)" if "k < 3" for k
    using assms that by (simp add: holds_words_def shell_jump_def)
  show "fetched_word (guest_at mem 0xBFC00000 a' sl arr r) = 0x3C088003"
    "fetched_word (guest_at mem 0xBFC00004 a' sl arr r) = 0x01000008"
    "fetched_word (guest_at mem 0xBFC00008 a' sl arr r) = 0"
    using rom [of 0] rom [of 1] rom [of 2]
    by (simp_all add: fetched_word_def guest_at_def translate_def shell_jump_def)
qed

lemma jump_steps:
  assumes "holds_words mem 0x1FC00000 shell_jump"
  shows "run_steps (console_step img) 3 (power_up mem) = Some
    \<lparr>core = guest_at mem shell_entry 0x80030004 False None ((replicate 32 0)[8 := 0x80030000]),
     terminal = \<lparr>open_line = [], stored = []\<rparr>\<rparr>"
proof -
  let ?t = "\<lparr>open_line = [], stored = []\<rparr>"
  let ?r = "replicate 32 0 :: u32 list"
  let ?st = "\<lambda>a a' sl r. \<lparr>core = guest_at mem a a' sl None r, terminal = ?t\<rparr>"
  note eval = jump_words [OF assms] decode_jump named_def clear_of_gaps_def translate_def settled_def
    shell_entry_def print_entry_def quiet_display
  have p: "power_up mem = ?st 0xBFC00000 0xBFC00004 False ?r" by (simp add: power_up_def guest_at_def)
  have s1: "console_step img (?st 0xBFC00000 0xBFC00004 False ?r)
      = Some (?st 0xBFC00004 0xBFC00008 False (?r[8 := 0x80030000]))"
    by (rule console_stepI [where i = "Compute A_SLL 8 (Const 0x8003) (Const 16)"]) (simp_all add: eval)
  have s2: "console_step img (?st 0xBFC00004 0xBFC00008 False (?r[8 := 0x80030000]))
      = Some (?st 0xBFC00008 0x80030000 True (?r[8 := 0x80030000]))"
    by (rule console_stepI [where i = "Jump_Reg 8 None"]) (simp_all add: eval)
  have s3: "console_step img (?st 0xBFC00008 0x80030000 True (?r[8 := 0x80030000]))
      = Some (?st shell_entry 0x80030004 False (?r[8 := 0x80030000]))"
    by (rule console_stepI [where i = "Compute A_SLL 0 (Reg 0) (Const 0)"]) (simp_all add: eval)
  have three: "3 = Suc (Suc (Suc 0))" by simp
  show ?thesis unfolding p three run_steps.simps s1 s2 s3 bind.simps by (rule refl)
qed

section \<open>The file\<close>

definition file_word :: "host_file \<Rightarrow> nat \<Rightarrow> u32" where
  "file_word f off = le_word (take 4 (drop off (content f)))"

text \<open>A file with an executable whose code is there and fits into the RAM.\<close>

definition executable :: "host_file \<Rightarrow> bool" where
  "executable f \<longleftrightarrow> intact f \<and> take 8 (content f) = exe_id
     \<and> 0x800 + unat (file_word f 0x1C) \<le> length (content f)
     \<and> unat (vaddr_to_paddr (file_word f 0x18)) + unat (file_word f 0x1C) \<le> 0x200000"

lemma file_exe_word:
  assumes "\<And>i. i < length (content f) \<Longrightarrow> buf_byte exe i = content f ! i" "off + 4 \<le> length (content f)"
  shows "exe_word exe off = file_word f off"
proof -
  have "map (\<lambda>i. buf_byte exe (off + i)) [0..<4] = take 4 (drop off (content f))"
    using assms by (intro nth_equalityI) simp_all
  then show ?thesis by (simp add: exe_word_def file_word_def)
qed

text \<open>The image in such a file.\<close>

definition file_exe :: "host_file \<Rightarrow> image" where
  "file_exe f = \<lparr>img_entry = file_word f 0x10, img_gp = file_word f 0x14,
     img_base = file_word f 0x30, img_off = file_word f 0x34, img_dest = file_word f 0x18,
     img_code = take (unat (file_word f 0x1C)) (drop 0x800 (content f)), img_whole = True\<rparr>"

lemma file_image:
  assumes "executable f" "buf_size exe = length (content f)"
    and "\<And>i. i < length (content f) \<Longrightarrow> buf_byte exe i = content f ! i"
  shows "image_of exe = Some (file_exe f)"
proof -
  have len: "0x800 + unat (file_word f 0x1C) \<le> length (content f)" using assms(1) by (simp add: executable_def)
  note words = file_exe_word [OF assms(3)]
  have "map (buf_byte exe) [0..<8] = take 8 (content f)"
    using assms(3) len by (intro nth_equalityI) simp_all
  then have id: "exe_has_id exe" using assms(1) by (simp add: exe_has_id_def executable_def)
  have size: "exe_size_field exe = unat (file_word f 0x1C)"
    using len by (simp add: exe_size_field_def exe_offsets words)
  have "exe_code exe = take (unat (file_word f 0x1C)) (drop 0x800 (content f))"
    using assms(3) len by (intro nth_equalityI) (simp_all add: exe_code_def size exe_offsets)
  with id len assms(2) show ?thesis
    by (simp add: file_exe_def image_of_def image_in_def exe_offsets words size)
qed

section \<open>The start of the executable\<close>

text \<open>The RAM of a context that has a byte memory.\<close>

lemma ram_byte:
  assumes "ctx_inv ctx" "byte_at (isa_of ctx) = mem" "n < 0x200000"
  shows "Some (buf_byte (ram (bus ctx)) n) = mem (of_nat n)"
proof -
  have "bus_sized (bus ctx)" using assms(1) by (simp add: ctx_inv_def cpu_inv_def)
  moreover have "unat (of_nat n :: u32) = n" using assms(3) by (simp add: unat_of_nat)
  moreover have "mem = mem_view (bus ctx)" using assms(2) by (simp add: isa_of_def)
  ultimately show ?thesis using assms(3) by (simp add: mem_view_eq)
qed

text \<open>The RAM behind the loader holds the code of the image.\<close>

lemma loaded_code:
  assumes "ctx_inv ctx" "isa_of ctx = load_image img m" "loadable img"
  shows "map (\<lambda>i. buf_byte (ram (bus ctx)) (unat (vaddr_to_paddr (img_dest img)) + i))
    [0..<length (img_code img)] = img_code img"
proof (intro nth_equalityI)
  fix i
  let ?d = "unat (vaddr_to_paddr (img_dest img))"
  assume "i < length (map (\<lambda>i. buf_byte (ram (bus ctx)) (?d + i)) [0..<length (img_code img)])"
  then have i: "i < length (img_code img)" by simp
  have fits: "?d + length (img_code img) \<le> 0x200000"
    using assms(3) by (simp add: loadable_def translate_eq [symmetric])
  have "unat (of_nat (?d + i) :: u32) = ?d + i"
    unfolding unat_of_nat by (rule mod_less) (use fits i in simp)
  then have "Some (buf_byte (ram (bus ctx)) (?d + i)) = Some (img_code img ! i)"
    using ram_byte [OF assms(1) arg_cong [OF assms(2), of byte_at], of "?d + i"] fits i
    by (simp add: load_image_def store_code_def translate_eq [symmetric])
  then show "map (\<lambda>i. buf_byte (ram (bus ctx)) (?d + i)) [0..<length (img_code img)] ! i = img_code img ! i"
    using i by simp
qed simp

text \<open>The console on the jumping BIOS, arrived at the entry of the shell.\<close>

definition at_shell :: "byte_store \<Rightarrow> console" where
  "at_shell mem = \<lparr>core = guest_at mem shell_entry 0x80030004 False None ((replicate 32 0)[8 := 0x80030000]),
     terminal = \<lparr>open_line = [], stored = []\<rparr>\<rparr>"

lemma shell_reached:
  assumes "executable f"
  obtains emu emu' mem where "main_setup (guest_env shell_jump [] f) sample_args = Running emu"
    "main_loop 3 emu = Inr emu'" "presents (Some (file_exe f)) emu' (at_shell mem)"
proof -
  have f: "intact f" using assms by (simp add: executable_def)
  have "length shell_jump \<le> 64" by (simp add: shell_jump_def)
  then obtain emu where emu: "main_setup (guest_env shell_jump [] f) sample_args = Running emu"
    "buf_size (exe_data emu) = length (content f)"
    "\<And>i. i < length (content f) \<Longrightarrow> buf_byte (exe_data emu) i = content f ! i"
    "holds_words (mem_view (bus (emu_ctx emu))) 0x1FC00000 shell_jump"
    by (rule guest_start [OF _ _ f, of shell_jump "[]"]) simp_all
  note image = file_image [OF assms emu(2,3)]
  have "tty_opens (guest_env shell_jump [] f)" by (simp add: guest_env_def)
  from setup_presents [OF emu(1) this]
  have start: "presents (Some (file_exe f)) emu (power_up (mem_view (bus (emu_ctx emu))))" by (simp only: image)
  obtain emu' where emu': "run_steps turn 3 emu = Some emu'"
    "presents (Some (file_exe f)) emu' (at_shell (mem_view (bus (emu_ctx emu))))"
    using app_console.run_answers [OF start jump_steps [OF emu(4)]] unfolding at_shell_def by blast
  show thesis by (rule that [OF emu(1) _ emu'(2)]) (use emu'(1) in \<open>unfold main_loop_run\<close>)
qed

text \<open>
  C4: an executable file gets control: on a BIOS that jumps to the shell the application has, after
  three turns, put the code of the file into the RAM and set the program counter, the global
  pointer, the stack pointer and the frame pointer from its header, for the next turn to go on
  there.
\<close>

theorem exe_takes_control:
  assumes "executable f"
  shows "\<exists>emu emu' ctx. main_setup (guest_env shell_jump [] f) sample_args = Running emu
    \<and> main_loop 3 emu = Inr emu' \<and> load_at_shell emu' = Inr ctx
    \<and> pc (cpu ctx) = file_word f 0x10 \<and> next_pc (cpu ctx) = file_word f 0x10 + 4
    \<and> gpr (cpu ctx) ! 28 = file_word f 0x14
    \<and> gpr (cpu ctx) ! 29 = file_word f 0x30 + file_word f 0x34
    \<and> gpr (cpu ctx) ! 30 = file_word f 0x30 + file_word f 0x34
    \<and> map (\<lambda>i. buf_byte (ram (bus ctx)) (unat (vaddr_to_paddr (file_word f 0x18)) + i))
        [0..<unat (file_word f 0x1C)] = take (unat (file_word f 0x1C)) (drop 0x800 (content f))"
proof -
  have f: "0x800 + unat (file_word f 0x1C) \<le> length (content f)"
    "unat (vaddr_to_paddr (file_word f 0x18)) + unat (file_word f 0x1C) \<le> 0x200000"
    using assms by (simp_all add: executable_def)
  obtain emu emu' mem where emu: "main_setup (guest_env shell_jump [] f) sample_args = Running emu"
    "main_loop 3 emu = Inr emu'" and pr: "presents (Some (file_exe f)) emu' (at_shell mem)"
    by (rule shell_reached [OF assms])
  let ?m = "core (at_shell mem)"
  have fits: "loadable (file_exe f)"
    using f by (simp add: loadable_def file_exe_def translate_eq [symmetric])
  have "arrive (Some (file_exe f)) ?m = Some (load_image (file_exe f) ?m)"
    using fits by (simp add: arrive_def at_shell_def)
  from arrive_answers [OF pr this] obtain ctx where ctx: "load_at_shell emu' = Inr ctx"
    "tracks ctx (load_image (file_exe f) ?m) (terminal (at_shell mem))"
    "ld_next (cpu ctx) = ld_next (cpu (emu_ctx emu'))" by blast
  have tr: "tracks (emu_ctx emu') ?m (terminal (at_shell mem))" using pr by (simp add: presents_def)
  have "pc (cpu (emu_ctx emu')) = shell_entry"
    using tracks_parts(1) [OF tr] by (simp add: at_shell_def)
  with tr ctx(3) have "ld_dst (ld_next (cpu ctx)) = 0" by (simp add: tracks_def at_hook_def)
  note cpu = tracks_parts(1,2) [OF ctx(2), symmetric] tracks_parts(3) [OF ctx(2) this, symmetric]
  have "ctx_inv ctx" "isa_of ctx = load_image (file_exe f) ?m" using ctx(2) by (simp_all add: tracks_def)
  from loaded_code [OF this fits] have code: "map (\<lambda>i. buf_byte (ram (bus ctx))
      (unat (vaddr_to_paddr (file_word f 0x18)) + i)) [0..<unat (file_word f 0x1C)]
    = take (unat (file_word f 0x1C)) (drop 0x800 (content f))"
    using f(1) by (simp add: file_exe_def)
  show ?thesis
    by (intro exI [of _ emu] exI [of _ emu'] exI [of _ ctx])
      (simp add: emu ctx(1) cpu code load_image_def file_exe_def at_shell_def)
qed

text \<open>An executable of one instruction, a jump to itself, at \<^verbatim>\<open>0x80010000\<close>.\<close>

definition tiny_exe :: host_file where
  "tiny_exe = \<lparr>st_size = 0x804, openable = True, content = exe_id @ replicate 8 0
     @ [0x00, 0x00, 0x01, 0x80, 0, 0, 0, 0, 0x00, 0x00, 0x01, 0x80, 4, 0, 0, 0]
     @ replicate 0x7E0 0 @ [0xFF, 0xFF, 0x00, 0x10], read_error = False\<rparr>"

lemma exe_takes_control_witness:
  "\<exists>emu emu' ctx. main_setup (guest_env shell_jump [] tiny_exe) sample_args = Running emu
    \<and> main_loop 3 emu = Inr emu' \<and> load_at_shell emu' = Inr ctx \<and> pc (cpu ctx) = 0x80010000
    \<and> map (\<lambda>i. buf_byte (ram (bus ctx)) (0x10000 + i)) [0..<4] = [0xFF, 0xFF, 0x00, 0x10]"
proof -
  have len: "length exe_id = 8" by (simp add: exe_id_def)
  have words: "file_word tiny_exe 0x10 = 0x80010000" "file_word tiny_exe 0x18 = 0x80010000"
    "file_word tiny_exe 0x1C = 4"
    by (simp_all add: file_word_def tiny_exe_def len)
  have code: "take (unat (4 :: u32)) (drop 0x800 (content tiny_exe)) = [0xFF, 0xFF, 0x00, 0x10]"
    by (simp add: tiny_exe_def len)
  have four: "unat (4 :: u32) = 4" by simp
  have dest: "unat (vaddr_to_paddr 0x80010000) = 0x10000" by (simp add: vaddr_to_paddr_def)
  have "executable tiny_exe"
    unfolding executable_def words dest by (simp add: intact_def tiny_exe_def len)
  from exe_takes_control [OF this] show ?thesis
    unfolding words dest code unfolding four by (elim exE conjE) (intro exI conjI, assumption+)
qed

end
