(* ===== verification/Disasm_Spec.thy ===== *)
theory Disasm_Spec
  imports Isa_Simulation
begin

text \<open>
  An assembler's view of the reference machine's instructions, and the disassembler of
  \<^verbatim>\<open>core/disasm.c\<close> against it: it prints the instruction its word decodes to, with four kinds of
  exceptions that are stated.
\<close>

section \<open>Assembly\<close>

abbreviation reg_name :: "nat \<Rightarrow> string" where
  "reg_name r \<equiv> gpr_names ! r"

definition imm_text :: "int \<Rightarrow> string" where
  "imm_text v = ''0x'' @ fmt_0X 4 (nat (v mod 0x10000))"

definition target_text :: "u32 \<Rightarrow> string" where
  "target_text a = ''0x'' @ fmt_0X 8 (unat a)"

definition is_shift :: "alu \<Rightarrow> bool" where
  "is_shift f \<longleftrightarrow> f = A_SLL \<or> f = A_SRL \<or> f = A_SRA"

primrec alu_name :: "alu \<Rightarrow> string" where
  "alu_name A_ADD = ''addu''"
| "alu_name A_SUB = ''subu''"
| "alu_name A_AND = ''and''"
| "alu_name A_OR = ''or''"
| "alu_name A_XOR = ''xor''"
| "alu_name A_NOR = ''nor''"
| "alu_name A_SLT = ''slt''"
| "alu_name A_SLTU = ''sltu''"
| "alu_name A_SLL = ''sll''"
| "alu_name A_SRL = ''srl''"
| "alu_name A_SRA = ''sra''"

text \<open>The immediate form has an \<^verbatim>\<open>i\<close>, in front of the \<^verbatim>\<open>u\<close> if there is one.\<close>

definition imm_name :: "alu \<Rightarrow> string" where
  "imm_name f = (case f of A_ADD \<Rightarrow> ''addiu'' | A_SLTU \<Rightarrow> ''sltiu'' | _ \<Rightarrow> alu_name f @ ''i'')"

fun show_compute :: "alu \<Rightarrow> nat \<Rightarrow> operand \<Rightarrow> operand \<Rightarrow> string" where
  "show_compute f rd (Const c) b = text2 ''lui'' (reg_name rd) (imm_text (uint c))"
| "show_compute f rd (Reg a) (Const c) =
     (if is_shift f
      then (if f = A_SLL \<and> rd = 0 \<and> a = 0 \<and> c = 0 then ''nop''
            else text3 (alu_name f) (reg_name rd) (reg_name a) (fmt_u (unat c)))
      else text3 (imm_name f) (reg_name rd) (reg_name a) (imm_text (uint c)))"
| "show_compute f rd (Reg a) (Reg b) =
     text3 (alu_name f @ (if is_shift f then ''v'' else '''')) (reg_name rd) (reg_name a) (reg_name b)"

primrec branch_name :: "cond \<Rightarrow> string" where
  "branch_name C_EQ = ''beq''"
| "branch_name C_NE = ''bne''"
| "branch_name C_LEZ = ''blez''"
| "branch_name C_GTZ = ''bgtz''"
| "branch_name C_LTZ = ''bltz''"
| "branch_name C_GEZ = ''bgez''"

definition width_name :: "nat \<Rightarrow> string" where
  "width_name n = (if n = 1 then ''b'' else if n = 2 then ''h'' else ''w'')"

primrec side_name :: "side \<Rightarrow> string" where
  "side_name Leftmost = ''l''"
| "side_name Rightmost = ''r''"

definition show_access :: "string \<Rightarrow> nat \<Rightarrow> nat \<Rightarrow> int \<Rightarrow> string" where
  "show_access m rt base d = m @ '' '' @ reg_name rt @ '', '' @ imm_text d @ ''('' @ reg_name base @ '')''"

text \<open>The text of an instruction at an address.\<close>

fun show_insn :: "u32 \<Rightarrow> insn \<Rightarrow> string" where
  "show_insn addr (Compute f rd a b) = show_compute f rd a b"
| "show_insn addr (Checked f rd a (Reg b)) =
     text3 (if f = A_SUB then ''sub'' else ''add'') (reg_name rd)
       (case a of Reg r \<Rightarrow> reg_name r | Const c \<Rightarrow> imm_text (uint c)) (reg_name b)"
| "show_insn addr (Checked f rd a (Const c)) =
     text3 ''addi'' (reg_name rd) (case a of Reg r \<Rightarrow> reg_name r | Const c \<Rightarrow> imm_text (uint c))
       (imm_text (uint c))"
| "show_insn addr (Multiply sg rs rt) =
     text2 (if sg then ''mult'' else ''multu'') (reg_name rs) (reg_name rt)"
| "show_insn addr (Divide sg rs rt) =
     text2 (if sg then ''div'' else ''divu'') (reg_name rs) (reg_name rt)"
| "show_insn addr (From_Hi rd) = text1 ''mfhi'' (reg_name rd)"
| "show_insn addr (From_Lo rd) = text1 ''mflo'' (reg_name rd)"
| "show_insn addr (To_Hi rs) = text1 ''mthi'' (reg_name rs)"
| "show_insn addr (To_Lo rs) = text1 ''mtlo'' (reg_name rs)"
| "show_insn addr (Branch c rs rt d link) =
     (let m = branch_name c @ (if link then ''al'' else ''''); t = target_text (addr + 4 + of_int (4 * d))
      in if c = C_LTZ \<or> c = C_GEZ then text2 m (reg_name rs) t
         else text3 m (reg_name rs) (reg_name rt) t)"
| "show_insn addr (Jump index link) = text1 (if link then ''jal'' else ''j'')
     (target_text (of_nat (2 ^ 28 * (unat addr div 2 ^ 28) + 4 * index)))"
| "show_insn addr (Jump_Reg rs link) =
     (case link of None \<Rightarrow> text1 ''jr'' (reg_name rs)
      | Some rd \<Rightarrow> text2 ''jalr'' (reg_name rd) (reg_name rs))"
| "show_insn addr (Load n sg rt base d) =
     show_access (''l'' @ width_name n @ (if sg \<or> n = 4 then '''' else ''u'')) rt base d"
| "show_insn addr (Load_Part s rt base d) = show_access (''lw'' @ side_name s) rt base d"
| "show_insn addr (Store n rt base d) = show_access (''s'' @ width_name n) rt base d"
| "show_insn addr (Store_Part s rt base d) = show_access (''sw'' @ side_name s) rt base d"
| "show_insn addr (From_Sys rt rd) = text2 ''mfc0'' (reg_name rt) (the (cop0_cpr rd))"
| "show_insn addr (To_Sys rt rd) = text2 ''mtc0'' (the (cop0_cpr rd)) (reg_name rt)"
| "show_insn addr Return_Exc = ''rfe''"
| "show_insn addr System_Call = ''syscall''"
| "show_insn addr Breakpoint = ''break''"

text \<open>
  The instructions the disassembler has a text for and gets it right: not the unsigned division,
  which it prints as the signed one, not a nop with a stray source register, not a branch whose
  offset is lost by the shift.
\<close>

fun shown_exactly :: "u32 \<Rightarrow> insn \<Rightarrow> bool" where
  "shown_exactly w (Compute f rd a b) \<longleftrightarrow> w = 0 \<or> Compute f rd a b \<noteq> Compute A_SLL 0 (Reg 0) (Const 0)"
| "shown_exactly w (Divide sg rs rt) \<longleftrightarrow> sg"
| "shown_exactly w (Branch c rs rt d link) \<longleftrightarrow> - 8192 \<le> d \<and> d < 8192"
| "shown_exactly w i \<longleftrightarrow> True"

section \<open>The disassembler prints it\<close>

lemma imm_text_values:
  "imm_text (uint (sign_ext_16_32 (instr_imm w))) = n_imm w"
  "imm_text (uint (of_nat (unat (instr_imm w)) :: u32)) = n_imm w"
  "imm_text (sint (instr_imm w)) = n_imm w"
proof -
  have v: "sint (instr_imm w) mod 0x10000 = uint (instr_imm w)"
    using uint_sint [of "instr_imm w"] by (simp add: take_bit_eq_mod)
  have "uint (sign_ext_16_32 (instr_imm w)) mod 0x10000 = sint (instr_imm w) mod 0x10000"
    using uint_sint [of "sign_ext_16_32 (instr_imm w)"]
    by (simp add: sint_imm_ext take_bit_eq_mod mod_mod_cancel)
  then show "imm_text (uint (sign_ext_16_32 (instr_imm w))) = n_imm w"
    by (simp add: imm_text_def v)
  have "uint (ucast (instr_imm w) :: u32) mod 0x10000 = uint (instr_imm w)"
    using uint_lt2p [of "instr_imm w"]
    by (simp add: unsigned_ucast_eq take_bit_eq_mod mod_mod_cancel)
  then show "imm_text (uint (of_nat (unat (instr_imm w)) :: u32)) = n_imm w"
    by (simp add: imm_text_def const_imm)
  show "imm_text (sint (instr_imm w)) = n_imm w" by (simp add: imm_text_def v)
qed

lemma branch_target_shown:
  "- 8192 \<le> sint (instr_imm w) \<Longrightarrow> sint (instr_imm w) < 8192 \<Longrightarrow>
    target_text (addr + 4 + of_int (4 * sint (instr_imm w))) = n_addr (calc_branch_addr w addr)"
  using sint_shifted_iff [of "sint (instr_imm w)"]
  by (simp add: calc_branch_addr_value target_text_def algebra_simps)

lemma jump_target_shown:
  "target_text (of_nat (2 ^ 28 * (unat addr div 2 ^ 28) + 4 * unat (instr_target w)))
    = n_addr (calc_jmp_addr w addr)"
  unfolding jump_value target_text_def by (rule refl)

lemma zero_fields: "instr_rd 0 = 0" "instr_rt 0 = 0" "instr_shamt 0 = 0"
  by (simp_all add: instr_rd_def instr_rt_def instr_shamt_def)

lemma special_shown:
  assumes "instr_funct w = special_value f" "decode_special w = Some i" "shown_exactly w i"
    and "instr_op w = 0" "special_text f w = Some (Return, s)"
  shows "s = show_insn addr i"
  using assms
  by (cases f) (auto simp: decode_special_def fields Let_def is_shift_def imm_name_def zero_fields
      split: if_splits)

lemma group_shown:
  assumes "instr_op w = op_value g" "decode w = Some i" "shown_exactly w i"
    and "group_text g w addr = Some s"
  shows "s = show_insn addr i"
  using assms
  by (cases g) (auto simp: decode_def decode_immediate_def fields field_imm disp_imm Let_def
      imm_text_values [unfolded sign_ext_16_32_def, simplified] branch_target_shown [simplified]
      jump_target_shown [simplified] text_mem_def show_access_def width_name_def is_shift_def imm_name_def)

lemma bcond_shown:
  assumes "enum_of bcond_value all_bconds (instr_rt w) = Some b"
    and "- 8192 \<le> sint (instr_imm w)" "sint (instr_imm w) < 8192"
  shows "text2 (bcond_mnemonic b) (n_rs w) (n_addr (calc_branch_addr w addr))
    = show_insn addr (decode_bcond w)"
proof -
  have "instr_rt w = bcond_value b" using assms(1) by (simp only: group_bcond.enum_of_Some_iff)
  then show ?thesis
    using assms(2,3)
    by (cases b) (simp_all add: decode_bcond_def fields disp_imm Let_def branch_target_shown [simplified])
qed

lemma cop_shown:
  assumes "enum_of cop_value all_cops (instr_rs w) = Some m"
  shows "decode_cop0 w = Some i \<Longrightarrow> cop_text m w = show_insn addr i"
proof -
  have "instr_rs w = cop_value m" using assms by (simp only: group_cop.enum_of_Some_iff)
  then show "decode_cop0 w = Some i \<Longrightarrow> cop_text m w = show_insn addr i"
    by (cases m) (auto simp: decode_cop0_def fields)
qed

lemma disasm_text_shown:
  assumes "decode w = Some i" "shown_exactly w i" "disasm_text w addr = Some s"
  shows "s = show_insn addr i"
proof (cases "enum_of op_value all_ops (instr_op w)")
  case None
  then show ?thesis using assms(3) by (simp add: disasm_text_def)
next
  case (Some g)
  then have v: "instr_op w = op_value g" by (simp only: group_op.enum_of_Some_iff)
  consider "g = INSTR_GROUP_SPECIAL" | "g = INSTR_GROUP_BCOND" | "g = INSTR_GROUP_COP0"
    | (other) "g \<notin> {INSTR_GROUP_SPECIAL, INSTR_GROUP_BCOND, INSTR_GROUP_COP0}" by blast
  then show ?thesis
  proof cases
    case 1
    then obtain f where "enum_of special_value all_specials (instr_funct w) = Some f"
      "special_text f w = Some (Return, s)"
      using assms(3) Some by (auto simp: disasm_text_def elim!: bind_eq_SomeE
          split: option.splits flow.splits)
    then show ?thesis
      using special_shown [of w f i s addr] assms(1,2) 1 v decode_group(1)
      by (simp add: group_special.enum_of_Some_iff)
  next
    case 2
    then have "i = decode_bcond w" using assms(1) v decode_group(2) by simp
    moreover from this have "- 8192 \<le> sint (instr_imm w)" "sint (instr_imm w) < 8192"
      using assms(2) by (simp_all add: decode_bcond_def disp_imm Let_def)
    ultimately show ?thesis
      using 2 Some assms(3) bcond_shown by (auto simp: disasm_text_def)
  next
    case 3
    then show ?thesis
      using Some assms(1,3) v decode_group(3) cop_shown by (auto simp: disasm_text_def)
  next
    case other
    then have "group_text g w addr = Some s"
      using assms(3) group_text_eq [OF Some other, of addr] by (metis option.inject)
    then show ?thesis by (rule group_shown [OF v assms(1,2)])
  qed
qed

text \<open>
  C34: the disassembler leaves the assembly text of the instruction its word decodes to, for
  every instruction it has a text for; the unsigned division, a nop with a stray source register
  and branches whose offset the shift loses are the ones it misprints.
\<close>

theorem disassembly_shows_insn:
  assumes "decode w = Some i" "\<not> undisassembled w" "\<not> unnamed_cop0 w" "shown_exactly w i"
  shows "psycho_disasm_instr ctx w addr = Some (show_text (show_insn addr i) ctx)"
proof -
  have "disasm_text w addr \<noteq> None"
    using assms(1,2) disasm_text_None_iff [of w addr] decodes_iff [of w] by simp
  then obtain s where s: "disasm_text w addr = Some s" by blast
  then have "shown_text w addr = show_insn addr i"
    using disasm_text_shown [OF assms(1,4) s] by (simp add: shown_text_def)
  then show ?thesis by (simp add: psycho_disasm_instr_eq assms(3))
qed

text \<open>\<^verbatim>\<open>lw $a0, -4($sp)\<close>.\<close>

lemma disassembly_shows_insn_witness:
  "\<exists>c. psycho_disasm_instr zero_ctx 0x8FA4FFFC 0 = Some c
    \<and> res_str (result (disasm c)) = ''lw $a0, 0xFFFC($sp)''"
proof -
  have d: "decode 0x8FA4FFFC = Some (Load 4 False 4 29 (- 4))"
    by (simp add: decode_def field_def decode_immediate_def disp_def Let_def)
  have g: "enum_of op_value all_ops (instr_op 0x8FA4FFFC) = Some INSTR_LW"
    by (simp add: group_op.enum_of_Some_iff instr_op_def)
  have "psycho_disasm_instr zero_ctx 0x8FA4FFFC 0
      = Some (show_text (show_insn 0 (Load 4 False 4 29 (- 4))) zero_ctx)"
    by (rule disassembly_shows_insn [OF d]) (simp_all add: undisassembled_def unnamed_cop0_def g)
  moreover have "base_digits 16 0xFFFC = [15, 15, 15, 12]"
    by (subst base_digits.simps, simp)+
  then have "fmt_0X 4 0xFFFC = ''FFFC''" by (simp add: fmt_0X_def hex_digit_def)
  then have "show_insn 0 (Load 4 False 4 29 (- 4)) = ''lw $a0, 0xFFFC($sp)''"
    by (simp add: show_access_def width_name_def gpr_names_def imm_text_def)
  ultimately show ?thesis by (simp add: show_text_def)
qed

end
