(* ===== verification/Syscall_Return.thy ===== *)
theory Syscall_Return
  imports Guest_Files Isa_Programs
begin

text \<open>
  Exceptions end to end: a system call, a handler behind the exception vector that goes on
  behind the call, and the state the interrupted program finds; and what a system call in a
  delay slot forgets.
\<close>

section \<open>The handler\<close>

text \<open>
  \<^verbatim>\<open>mfc0 $k0, EPC\<close>, \<^verbatim>\<open>nop\<close>, \<^verbatim>\<open>addiu $k0, $k0, 4\<close>, \<^verbatim>\<open>jr $k0\<close>, and \<^verbatim>\<open>rfe\<close> in its delay slot.
\<close>

definition handler :: "u32 list" where
  "handler = [0x401A7000, 0x00000000, 0x275A0004, 0x03400008, 0x42000010]"

lemma decode_handler:
  "decode 0x0000000C = Some System_Call"
  "decode 0x401A7000 = Some (From_Sys 26 14)"
  "decode 0x00000000 = Some (Compute A_SLL 0 (Reg 0) (Const 0))"
  "decode 0x275A0004 = Some (Compute A_ADD 26 (Reg 26) (Const 4))"
  "decode 0x03400008 = Some (Jump_Reg 26 None)"
  "decode 0x42000010 = Some Return_Exc"
  by (simp_all add: decode_def field_def decode_special_def decode_immediate_def decode_cop0_def
      disp_def Let_def)

definition state_at :: "isa \<Rightarrow> u32 \<Rightarrow> u32 \<Rightarrow> bool \<Rightarrow> u32 list \<Rightarrow> u32 list \<Rightarrow> isa" where
  "state_at m a a' slot regs sys = m\<lparr>reg_file := regs, sys_file := sys, now := a, after := a',
     in_slot := slot, arriving := None\<rparr>"

lemma state_at_fields [simp]:
  "reg_file (state_at m a a' sl r s) = r" "sys_file (state_at m a a' sl r s) = s"
  "now (state_at m a a' sl r s) = a" "after (state_at m a a' sl r s) = a'"
  "in_slot (state_at m a a' sl r s) = sl" "arriving (state_at m a a' sl r s) = None"
  "byte_at (state_at m a a' sl r s) = byte_at m" "high (state_at m a a' sl r s) = high m"
  "low (state_at m a a' sl r s) = low m"
  by (simp_all add: state_at_def)

text \<open>The coprocessor in the handler and behind it.\<close>

definition entered :: "u32 \<Rightarrow> u32 list \<Rightarrow> u32 list" where
  "entered a s = sys_file (trap 8 a (state_at undefined 0 0 False [] s))"

definition left :: "u32 list \<Rightarrow> u32 list" where
  "left s = sys_file (pop_modes (state_at undefined 0 0 False [] s))"

lemma state_at_updates [simp]:
  "advance (state_at m a a' sl r s) = state_at m a' (a' + 4) False r s"
  "goto t (state_at m a a' sl r s) = state_at m a t True r s"
  "put k v (state_at m a a' sl r s) = state_at m a a' sl (if k = 0 then r else r[k := v]) s"
  "trap 8 b (state_at m a a' sl r s) = state_at m 0x80 0x84 sl r (entered b s)"
  "pop_modes (state_at m a a' sl r s) = state_at m a a' sl r (left s)"
  by (simp_all add: state_at_def advance_def goto_def put_def trap_def pop_modes_def entered_def left_def)

lemma entered_EPC: "length s = 32 \<Longrightarrow> entered a s ! 14 = a"
  by (simp add: entered_def trap_def)

lemma handler_words:
  assumes "holds_words (byte_at m) 0x80 handler"
  shows "fetched_word (state_at m 0x80 a' sl r s) = 0x401A7000"
    "fetched_word (state_at m 0x84 a' sl r s) = 0x00000000"
    "fetched_word (state_at m 0x88 a' sl r s) = 0x275A0004"
    "fetched_word (state_at m 0x8C a' sl r s) = 0x03400008"
    "fetched_word (state_at m 0x90 a' sl r s) = 0x42000010"
proof -
  have w: "read_le (byte_at m) 4 (0x80 + of_nat (4 * k)) = unat (handler ! k)" if "k < 5" for k
    using assms that by (simp add: holds_words_def handler_def)
  show "fetched_word (state_at m 0x80 a' sl r s) = 0x401A7000"
    "fetched_word (state_at m 0x84 a' sl r s) = 0x00000000"
    "fetched_word (state_at m 0x88 a' sl r s) = 0x275A0004"
    "fetched_word (state_at m 0x8C a' sl r s) = 0x03400008"
    "fetched_word (state_at m 0x90 a' sl r s) = 0x42000010"
    using w [of 0] w [of 1] w [of 2] w [of 3] w [of 4]
    by (simp_all add: fetched_word_def translate_def handler_def)
qed

lemma call_enters:
  assumes "4 dvd unat a" "clear_of_gaps (translate a) 4" "read_le (byte_at m) 4 (translate a) = 0xC"
  shows "bounded_step (state_at m a a' sl r s) = Some (state_at m 0x80 0x84 False r (entered a s))"
  by (subst bounded_stepI [of _ System_Call])
    (use assms in \<open>simp_all add: fetched_word_def decode_handler\<close>)

lemma call_steps:
  assumes "holds_words (byte_at m) 0x80 handler" "length s = 32" "length r = 32"
    and "4 dvd unat a" "clear_of_gaps (translate a) 4" "read_le (byte_at m) 4 (translate a) = 0xC"
  shows "run_steps bounded_step 6 (state_at m a (a + 4) False r s)
    = Some (state_at m (a + 4) (a + 8) False (r[26 := a + 4]) (left (entered a s)))"
proof -
  let ?s = "entered a s"
  note eval = decode_handler handler_words [OF assms(1)] clear_of_gaps_def translate_def
    entered_EPC [OF assms(2)] assms(3)
  note s0 = call_enters [OF assms(4-6)]
  have s1: "bounded_step (state_at m 0x80 0x84 False r ?s)
      = Some (state_at m 0x84 0x88 False (r[26 := a]) ?s)"
    by (subst bounded_stepI [of _ "From_Sys 26 14"]) (simp_all add: eval)
  have s2: "bounded_step (state_at m 0x84 0x88 False (r[26 := a]) ?s)
      = Some (state_at m 0x88 0x8C False (r[26 := a]) ?s)"
    by (subst bounded_stepI [of _ "Compute A_SLL 0 (Reg 0) (Const 0)"]) (simp_all add: eval)
  have s3: "bounded_step (state_at m 0x88 0x8C False (r[26 := a]) ?s)
      = Some (state_at m 0x8C 0x90 False (r[26 := a + 4]) ?s)"
    by (subst bounded_stepI [of _ "Compute A_ADD 26 (Reg 26) (Const 4)"]) (simp_all add: eval)
  have s4: "bounded_step (state_at m 0x8C 0x90 False (r[26 := a + 4]) ?s)
      = Some (state_at m 0x90 (a + 4) True (r[26 := a + 4]) ?s)"
    by (subst bounded_stepI [of _ "Jump_Reg 26 None"]) (simp_all add: eval)
  have s5: "bounded_step (state_at m 0x90 (a + 4) True (r[26 := a + 4]) ?s)
      = Some (state_at m (a + 4) (a + 8) False (r[26 := a + 4]) (left ?s))"
    by (subst bounded_stepI [of _ Return_Exc]) (simp_all add: eval)
  have six: "6 = Suc (Suc (Suc (Suc (Suc (Suc 0)))))" by simp
  show ?thesis unfolding six run_steps.simps s0 s1 s2 s3 s4 s5 bind.simps by (rule refl)
qed

section \<open>The call and its return\<close>

definition calls_system :: "psycho_ctx \<Rightarrow> bool" where
  "calls_system ctx \<longleftrightarrow> 4 dvd unat (pc (cpu ctx)) \<and> next_pc (cpu ctx) = pc (cpu ctx) + 4
     \<and> \<not> next_in_branch_delay_slot (cpu ctx) \<and> ld_dst (ld_next (cpu ctx)) = 0
     \<and> ld_dst (ld_pend (cpu ctx)) = 0 \<and> clear_of_gaps (translate (pc (cpu ctx))) 4
     \<and> read_le (mem_view (bus ctx)) 4 (translate (pc (cpu ctx))) = 0x0000000C
     \<and> holds_words (mem_view (bus ctx)) 0x80 handler"

lemma calls_system_isa:
  assumes "calls_system ctx"
  shows "isa_of ctx = state_at (isa_of ctx) (pc (cpu ctx)) (pc (cpu ctx) + 4) False (gpr (cpu ctx)) (cop0 (cpu ctx))"
    and "byte_at (isa_of ctx) = mem_view (bus ctx)"
  using assms by (simp_all add: calls_system_def isa_of_def view_def pending_def state_at_def)

lemma sr_returned: "sr_pop (sr_push s) = (s AND NOT 0x30) OR push_bit 2 (s AND 0xC)"
proof (rule u32_bit_eqI)
  fix n :: nat
  assume "n < 32"
  then show "bit (sr_pop (sr_push s)) n = bit ((s AND NOT 0x30) OR push_bit 2 (s AND 0xC)) n"
    by (rule nat_less_32_cases) (simp_all add: bit_sr_pop bit_sr_push bit_simps)
qed

lemma returned_sys:
  assumes "length s = 32"
  shows "left (entered a s) = s[14 := a, 12 := (s ! 12 AND NOT 0x30) OR push_bit 2 (s ! 12 AND 0xC),
    13 := cause_with EXCEPTION_SYS (s ! 13)]"
proof -
  have "entered a s = s[14 := a, 12 := sr_push (s ! 12), 13 := cause_with EXCEPTION_SYS (s ! 13)]"
    unfolding entered_def trap_def sr_value cause_value [of _ EXCEPTION_SYS, symmetric] by simp
  then show ?thesis
    unfolding left_def pop_modes_def pop_value using assms by (simp add: sr_returned list_update_swap [of 13 12])
qed

text \<open>
  C19: a system call with a handler that goes on behind it is invisible to the program around it,
  apart from the register the handler uses: after six steps the interpreter is at the next
  instruction with all other registers, HI, LO and the memory as before, and the status
  register has its modes back, the oldest pair of which is the previous one.
\<close>

theorem syscall_returns:
  assumes "cpu_inv ctx" "calls_system ctx"
  shows "\<exists>c. run_steps psycho_cpu_step 6 ctx = Some c
    \<and> pc (cpu c) = pc (cpu ctx) + 4 \<and> next_pc (cpu c) = pc (cpu ctx) + 8
    \<and> \<not> next_in_branch_delay_slot (cpu c)
    \<and> reg_file (isa_of c) = (gpr (cpu ctx))[26 := pc (cpu ctx) + 4]
    \<and> hi (cpu c) = hi (cpu ctx) \<and> lo (cpu c) = lo (cpu ctx)
    \<and> cop0 (cpu c) = (cop0 (cpu ctx))[14 := pc (cpu ctx),
        12 := (cop0_reg ctx CPU_COP0_SR AND NOT 0x30) OR push_bit 2 (cop0_reg ctx CPU_COP0_SR AND 0xC),
        13 := cause_with EXCEPTION_SYS (cop0_reg ctx CPU_COP0_CAUSE)]
    \<and> mem_view (bus c) = mem_view (bus ctx)"
proof -
  have len: "length (cop0 (cpu ctx)) = 32" "length (gpr (cpu ctx)) = 32"
    using assms(1) by (simp_all add: cpu_inv_def cpu_shape_def CPU_GPR_NUM_def CPU_COP0_NUM_def)
  note isa = calls_system_isa [OF assms(2)]
  let ?last = "state_at (isa_of ctx) (pc (cpu ctx) + 4) (pc (cpu ctx) + 8) False
    ((gpr (cpu ctx))[26 := pc (cpu ctx) + 4]) (left (entered (pc (cpu ctx)) (cop0 (cpu ctx))))"
  have "run_steps bounded_step 6 (isa_of ctx) = Some ?last"
    by (subst isa(1), rule call_steps) (use assms(2) len in \<open>simp_all add: calls_system_def isa(2)\<close>)
  then obtain c where c: "run_steps psycho_cpu_step 6 ctx = Some c" "isa_of c = ?last"
    using isa_cpu.run_total [OF assms(1)] by blast
  have fields: "now (isa_of x) = pc (cpu x)" "after (isa_of x) = next_pc (cpu x)"
    "in_slot (isa_of x) = next_in_branch_delay_slot (cpu x)" "sys_file (isa_of x) = cop0 (cpu x)"
    "high (isa_of x) = hi (cpu x)" "low (isa_of x) = lo (cpu x)" "byte_at (isa_of x) = mem_view (bus x)" for x
    by (simp_all add: isa_of_def)
  have "now (isa_of c) = pc (cpu ctx) + 4" "after (isa_of c) = pc (cpu ctx) + 8" "\<not> in_slot (isa_of c)"
    "reg_file (isa_of c) = (gpr (cpu ctx))[26 := pc (cpu ctx) + 4]"
    "sys_file (isa_of c) = left (entered (pc (cpu ctx)) (cop0 (cpu ctx)))"
    "high (isa_of c) = high (isa_of ctx)" "low (isa_of c) = low (isa_of ctx)"
    "byte_at (isa_of c) = byte_at (isa_of ctx)"
    by (simp_all add: c(2))
  from c(1) this [unfolded fields returned_sys [OF len(1)]] show ?thesis
    by (intro exI [of _ c]) simp
qed

text \<open>A call at address 0 with interrupts enabled.\<close>

definition call_ctx :: psycho_ctx where
  "call_ctx = cpu_update (\<lambda>c. c\<lparr>cop0 := (replicate 32 0)[12 := 0xD]\<rparr>)
     (program_ctx (0x0000000C # replicate 31 0 @ handler) (replicate 32 0))"

lemma syscall_returns_witness:
  "\<exists>c. run_steps psycho_cpu_step 6 call_ctx = Some c \<and> pc (cpu c) = 4
    \<and> cop0_reg c CPU_COP0_SR = 0x3D"
proof -
  let ?ws = "0x0000000C # replicate 31 0 @ handler"
  have len: "length handler = 5" by (simp add: handler_def)
  have inv: "cpu_inv call_ctx"
    using program_inv [of "replicate 32 0" ?ws]
    by (simp add: call_ctx_def cpu_inv_def cpu_shape_def CPU_COP0_NUM_def)
  have bus: "bus call_ctx = bus (program_ctx ?ws (replicate 32 0))" by (simp add: call_ctx_def)
  have word: "read_le (mem_view (bus call_ctx)) 4 (of_nat (4 * k)) = unat (?ws ! k)" if "k < 37" for k
    unfolding bus using that len by (intro program_view_word) simp_all
  have "holds_words (mem_view (bus call_ctx)) 0x80 handler"
    unfolding holds_words_def
  proof (intro allI impI)
    fix k
    assume "k < length handler"
    then show "read_le (mem_view (bus call_ctx)) 4 (0x80 + of_nat (4 * k)) = unat (handler ! k)"
      using word [of "k + 32"] len by (simp add: nth_append add.commute)
  qed
  then have "calls_system call_ctx"
    using word [of 0] by (simp add: calls_system_def call_ctx_def clear_of_gaps_def translate_def)
  from syscall_returns [OF inv this] show ?thesis by (auto simp: call_ctx_def)
qed

section \<open>Delay slots\<close>

lemma call_step:
  assumes "cpu_inv ctx" "psycho_cpu_step ctx = Some c"
    and "instr_op (fetched_instr ctx) = op_value INSTR_GROUP_SPECIAL"
    and "instr_funct (fetched_instr ctx) = special_value INSTR_SYSCALL"
  shows "cpu c = (exception_entry EXCEPTION_SYS (after_fetch (fetched_instr ctx) (cpu (pre_fetch ctx))))"
    and "bus c = bus ctx"
proof -
  have sh: "cpu_shape (cpu ctx)" using assms(1) by (simp add: cpu_inv_def)
  obtain d where d: "cpu_fetch ctx = Some d"
    using assms(2) by (auto simp: psycho_cpu_step_def elim!: bind_eq_SomeE)
  obtain w e where w: "d = cpu_update (after_fetch w) e" "cpu e = cpu (pre_fetch ctx)" "bus e = bus ctx"
    by (rule cpu_fetch_Some [OF sh d])
  have i: "fetched_instr ctx = w" by (simp add: fetched_instr_def d w(1) after_fetch_def)
  have "cpu_execute d = break_after (raise_exception d EXCEPTION_SYS)"
    using assms(3,4) by (simp add: cpu_execute_def i w(1) after_fetch_def group_op.enum_of_value
        exec_special_def group_special.enum_of_value op_SYSCALL_def del: op_value.simps special_value.simps)
  then obtain f where f: "cpu_execute d = Some (Break, f)"
    "cpu f = exception_entry EXCEPTION_SYS (cpu d)" "bus f = bus d"
    by (auto simp: raise_exception_eq break_after_def)
  have "(gpr (cpu d))[0 := 0] = gpr (cpu d)"
    using fetch_zero [OF assms(1) d] by (metis list_update_id)
  then have "cpu c = cpu f" "bus c = bus f"
    using assms(2) d f by (auto simp: psycho_cpu_step_def exception_entry_def intro!: psycho_cpu.equality)
  then show "cpu c = exception_entry EXCEPTION_SYS (after_fetch (fetched_instr ctx) (cpu (pre_fetch ctx)))"
    "bus c = bus ctx"
    by (simp_all add: f i w)
qed

text \<open>
  C20: the state behind a system call does not depend on where the program was to go on. In a
  delay slot that is the target of the branch: the saved address is the call's own and the
  cause register does not mark the slot, so no handler can take the branch any more.
\<close>

theorem slot_call_forgets_branch:
  assumes "cpu_inv ctx" "4 dvd unat (pc (cpu ctx))"
    and "instr_op (fetched_instr ctx) = op_value INSTR_GROUP_SPECIAL"
    and "instr_funct (fetched_instr ctx) = special_value INSTR_SYSCALL"
    and "psycho_cpu_step ctx = Some c"
    and "psycho_cpu_step (cpu_update (\<lambda>c. c\<lparr>next_pc := target\<rparr>) ctx) = Some c'"
  shows "cpu c' = cpu c \<and> bus c' = bus c \<and> pc (cpu c) = 0x80
    \<and> cop0_reg c CPU_COP0_EPC = pc (cpu ctx) \<and> \<not> bit (cop0_reg c CPU_COP0_CAUSE) 31"
proof -
  let ?other = "cpu_update (\<lambda>c. c\<lparr>next_pc := target\<rparr>) ctx"
  have sh: "cpu_shape (cpu ctx)" and inv: "cpu_inv ?other"
    using assms(1) by (simp_all add: cpu_inv_def cpu_shape_def)
  have al: "pc (cpu ctx) AND 3 = 0" using assms(2) by (simp add: mod_and dvd_eq_mod_eq_0)
  obtain a b where fetched: "cpu_fetch ctx = Some a" "cpu_fetch ?other = Some b"
    using assms(5,6) by (auto simp: psycho_cpu_step_def elim!: bind_eq_SomeE)
  have "word_there ?other = word_there ctx" by (rule word_there_cong) simp_all
  then have same: "fetched_instr ?other = fetched_instr ctx"
    using word_there_fetched [OF assms(1,2) fetched(1)] word_there_fetched [OF inv _ fetched(2)] assms(2)
    by simp
  have pre: "exception_entry EXCEPTION_SYS (after_fetch w (cpu (pre_fetch ?other)))
      = exception_entry EXCEPTION_SYS (after_fetch w (cpu (pre_fetch ctx)))" for w
    using al by (simp add: pre_fetch_def Let_def exception_entry_def after_fetch_def enter_slot_def
        load_delay_shift_def)
  note step = call_step [OF assms(1,5,3,4)] and other = call_step [OF inv assms(6), unfolded same, OF assms(3,4)]
  have len: "length (cop0 (after_fetch w (cpu (pre_fetch ctx)))) = 32" for w
    using sh al by (simp add: pre_fetch_def Let_def after_fetch_def enter_slot_def load_delay_shift_def
        cpu_shape_def CPU_COP0_NUM_def)
  have "curr_pc (after_fetch w (cpu (pre_fetch ctx))) = pc (cpu ctx)" for w
    using al by (simp add: after_fetch_def fetch_pc_def)
  with step other show ?thesis
    by (simp add: pre exception_entry_regs [OF len] bit_cause_with del: bit_numeral_word_iff)
qed

text \<open>\<^verbatim>\<open>syscall\<close> at address 0, as an instruction on its own and with a branch to \<^verbatim>\<open>0x100\<close> under way.\<close>

lemma slot_call_forgets_branch_witness:
  "\<exists>c c'. psycho_cpu_step (program_ctx [0x0000000C] (replicate 32 0)) = Some c
    \<and> psycho_cpu_step (cpu_update (\<lambda>c. c\<lparr>next_pc := 0x100\<rparr>) (program_ctx [0x0000000C] (replicate 32 0)))
      = Some c'
    \<and> cpu c' = cpu c \<and> cop0_reg c CPU_COP0_EPC = 0"
proof -
  let ?ctx = "program_ctx [0x0000000C] (replicate 32 0)"
  let ?other = "cpu_update (\<lambda>c. c\<lparr>next_pc := 0x100\<rparr>) ?ctx"
  have word: "read_le (mem_view (bus ?ctx)) 4 0 = 0xC"
    using program_view_word [of 0 "[0x0000000C]" "replicate 32 0"] by simp
  have step: "psycho_cpu_step x \<noteq> None" if "cpu_inv x"
    "isa_of x = state_at (isa_of ?ctx) 0 t False (replicate 32 0) (replicate 32 0)" for x t
  proof -
    have "bounded_step (isa_of x) = Some
        (state_at (isa_of ?ctx) 0x80 0x84 False (replicate 32 0) (entered 0 (replicate 32 0)))"
      unfolding that(2)
      by (rule call_enters) (use word in \<open>simp_all add: translate_def clear_of_gaps_def isa_of_def\<close>)
    from isa_cpu.step_returns [OF that(1) this] show ?thesis by auto
  qed
  have inv: "cpu_inv ?ctx" "cpu_inv ?other"
    using program_inv [of "replicate 32 0" "[0x0000000C]"] by (simp_all add: cpu_inv_def cpu_shape_def)
  have "isa_of ?ctx = state_at (isa_of ?ctx) 0 4 False (replicate 32 0) (replicate 32 0)"
    "isa_of ?other = state_at (isa_of ?ctx) 0 0x100 False (replicate 32 0) (replicate 32 0)"
    by (simp_all add: isa_of_def view_def state_at_def)
  with step inv obtain c c' where c: "psycho_cpu_step ?ctx = Some c" "psycho_cpu_step ?other = Some c'"
    by blast
  have "cpu c' = cpu c \<and> bus c' = bus c \<and> pc (cpu c) = 0x80
    \<and> cop0_reg c CPU_COP0_EPC = pc (cpu ?ctx) \<and> \<not> bit (cop0_reg c CPU_COP0_CAUSE) 31"
    by (rule slot_call_forgets_branch [OF inv(1) _ _ _ c]) (simp_all add: instr_op_def instr_funct_def)
  with c show ?thesis by auto
qed

end
