(* ===== verification/Spec2Isabelle.thy ===== *)
theory Spec2Isabelle
  imports Cpu_Alu Printer_Runs Exe_Boot Disasm_Spec Syscall_Return
begin

text \<open>
  A verification of the PlayStation emulator \<^verbatim>\<open>psycho\<close>: the interpreter of the R3000 CPU, its
  bus, the disassembler, the BIOS trace, logging, the context operations of the library under
  \<^verbatim>\<open>core/\<close>, and the command-line application \<^verbatim>\<open>app/main.c\<close>.

  How the parts interact. The host fills a \<^verbatim>\<open>struct psycho_ctx\<close> with \<^verbatim>\<open>psycho_init\<close> and calls
  \<^verbatim>\<open>psycho_step\<close> in a loop. A step runs the hooks of the disassembler and of the BIOS trace, one
  step of the CPU, and the closing hooks. The CPU fetches and accesses data through the bus.
  Every part logs through \<^verbatim>\<open>psycho_log_message_dispatch\<close>, which calls the host back.

  The model. A C function that takes a context becomes a function from contexts to optional
  contexts under its own name; \<^term>\<open>None\<close> is undefined behaviour: an access that leaves its
  object, a null pointer printed with \<^verbatim>\<open>%s\<close>, a failed assertion, text that overruns its array.
  There is no other failure, so a lemma that some function returns something says that it
  neither loops nor leaves its objects. Integers have their C width. The host's callback is not
  part of the library: \<open>event_trace\<close> records the calls made to it, oldest first.

  The theories, with the sources they model:
  \<^item> \<open>Prelude\<close> (\<^verbatim>\<open>types.h\<close>): integer types, lemma collections, the locales of step functions that
    keep an invariant, make progress, and simulate a specification in either direction;
  \<^item> \<open>C_Format\<close>, \<open>C_Memory\<close>: what the sources use of the C library, and the locale of byte stores;
  \<^item> \<open>Cpu_Defs\<close> (both \<^verbatim>\<open>cpu-defs.h\<close>, \<^verbatim>\<open>util.h\<close>): enumerations, fields, address computation;
  \<^item> \<open>Ctx_Types\<close> (\<^verbatim>\<open>core/include/core/\<close>): the structures; \<open>Psycho_Log\<close> (\<^verbatim>\<open>log.c\<close>, \<^verbatim>\<open>log.h\<close>);
  \<^item> \<open>Psycho_Bus\<close> (\<^verbatim>\<open>bus.c\<close>) with \<open>Bus_Ports\<close>: the six accesses, the locales of a reading and a
    writing port with their three instances, and the byte memory the bus implements;
  \<^item> \<open>Cpu_State\<close>, \<open>Cpu_Exec\<close> (\<^verbatim>\<open>cpu.c\<close>): the helpers, one definition per case label, dispatch,
    fetch, step; \<open>Cpu_Frame\<close>, \<open>Cpu_Handlers\<close>, \<open>Cpu_Step\<close>, \<open>Cpu_Invariant\<close>: what every handler
    keeps, the exact condition under which it leaves a buffer, and the invariant;
  \<^item> \<open>Ctx_Boot\<close>, \<open>Psycho_Ctx\<close> (\<^verbatim>\<open>ctx.c\<close>): initialisation, the whole step, executables, the calls a
    host can make of the public headers and the contexts it can reach;
  \<^item> \<open>Psycho_Disasm\<close>, \<open>Disasm_Facts\<close> (\<^verbatim>\<open>disasm.c\<close>); \<open>Psycho_Bios_Trace\<close> (\<^verbatim>\<open>bios-trace.c\<close>);
  \<^item> \<open>Cpu_Events\<close>, \<open>Ctx_Events\<close>: which calls of the callback a step makes; \<open>Trace_Listing\<close>: the
    disassembler's lines among them, one for every turn of the application;
  \<^item> \<open>App\<close> (\<^verbatim>\<open>app/main.c\<close>): the front end, its start, event handlers and loop; \<open>App_Facts\<close>,
    \<open>App_Runs\<close>: when it starts, what it writes and holds, and how a turn stops; \<open>Tty_Runs\<close>: the
    way of a character from the guest through hook, line buffer, event and file to the disk.

  The specifications. \<open>Isa_Spec\<close> is a reference machine of the R3000, written from the
  instruction set and not from the sources: integers instead of word tricks, a decoder from
  words to a datatype of instructions, one function that executes an instruction and one that
  retires it with the delayed load and the delayed branch. It says nothing (\<open>plain\<close> is false)
  where the sources leave the architecture: accesses from 1 MB to 16 MB, the last words of the
  buffers, data breakpoints, misaligned fetches, narrow stores with an isolated cache. The
  abstraction \<open>isa_of\<close> (\<open>Isa_Refines\<close>) forgets the tracing, the log and the buffers' bounds.
  \<open>Isa_Memory\<close> relates the bus to the byte memory of the machine, \<open>Isa_Handlers\<close> and
  \<open>Isa_Accesses\<close> show for every handler that it does what the machine does, \<open>Isa_Simulation\<close>
  puts fetch, decoding and execution together and interprets the simulation locales on the CPU
  and on the whole context, and \<open>Isa_Programs\<close> holds the refinement and a program verified
  on the reference machine and run by the interpreter. \<open>Disasm_Spec\<close> prints the instructions of
  that decoder and compares the disassembler with it.

  \<open>Console_Spec\<close> specifies the application: the reference machine with a terminal behind the
  BIOS's character function, a file of completed lines, and an executable that is put into
  memory when the processor arrives at the shell. \<open>Exe_Load\<close> relates the loader to it,
  \<open>Cpu_Settled\<close> says when no load is about to land (the hooks look at the registers then), and
  \<open>Console_Refines\<close> interprets the locale of forward simulations on the loop of \<^verbatim>\<open>main\<close>.
  \<open>Guest_Files\<close> makes BIOS files from instruction words and a text; \<open>Printer\<close> is a guest program
  verified on the console alone, and \<open>Printer_Runs\<close> has the refinement and what the
  application leaves on the disk when it runs the program; \<open>Exe_Boot\<close> follows an executable
  from its file to the program counter. \<open>Syscall_Return\<close> has a system call with its handler, from
  the call through the vector and back, and what a call in a delay slot loses.

  The properties stand in \<open>Isa_Programs\<close> (refinement), \<open>Cpu_Alu\<close> (division), \<open>Cpu_Control\<close>
  (branches, exceptions, delay slots), \<open>Syscall_Return\<close> (system calls), \<open>Cpu_Memory\<close> (unaligned accesses), \<open>Memory_Map\<close> (bus,
  addresses, breakpoints), \<open>Cpu_Isolation\<close> (cache isolation), \<open>Trace_Properties\<close> and
  \<open>Disasm_Spec\<close> (disassembler, log, TTY), \<open>App_Runs\<close>,
  \<open>Tty_Runs\<close>, \<open>Trace_Listing\<close>, \<open>Printer_Runs\<close> and
  \<open>Exe_Boot\<close> (application) and, where they span
  components of the library, below.

  Bounds. Loops of the sources are structural recursions: over a prototype, over the modules,
  over the number of turns the caller asks for. Nothing needs fuel except the endless loop of
  \<^verbatim>\<open>main\<close>, which is run for a given number of turns.

  Assumptions. The host is little-endian, signed right shift is arithmetic, and the callback does
  not write to the context. The file system, which sizes \<^verbatim>\<open>malloc\<close> serves, whether the TTY file
  can be created and the text of \<^verbatim>\<open>errno\<close> are parameters; writing to an open file succeeds. A
  null buffer is a buffer of no bytes. Text passed to the log is already formatted.

  A stream records what has surely reached its file; the C library may write more of the rest.

  Not modelled: prototypes, compiler attributes, build files, the clock constant, and fields of
  the BIOS trace that no function reads.
\<close>

section \<open>The invariant\<close>

text \<open>No step and no executable changes the BIOS.\<close>

lemma step_bios:
  assumes "ctx_inv ctx" "psycho_step ctx = Some ctx'"
  shows "bios (bus ctx') = bios (bus ctx)"
proof -
  have "\<not> trace_faults ctx" "\<not> tty_faults ctx"
    using assms psycho_step_None_iff [OF assms(1)] by auto
  then obtain d where d: "psycho_cpu_step ctx = Some d" "same_machine ctx' d"
    using psycho_step_simulates(1) [OF assms(1)] assms(2) by (auto simp: option_rel_Some1)
  have "keeps ctx d" by (rule step_keeps [OF _ d(1)]) (use assms(1) in \<open>simp add: ctx_inv_def\<close>)
  with d(2) show ?thesis by (simp add: keeps_def same_machine_def)
qed

lemma exe_load_bios:
  assumes "ctx_inv ctx" "n \<le> buf_size exe" "psycho_exe_load ctx exe n = Some (code, ctx')"
  shows "bios (bus ctx') = bios (bus ctx)"
proof (cases "0x800 \<le> n \<and> exe_has_id exe")
  case True
  then have "length (gpr (cpu ctx)) = CPU_GPR_NUM" "0x800 \<le> buf_size exe"
    using assms(1,2) by (simp_all add: ctx_inv_def cpu_inv_def cpu_shape_def)
  with True assms(3) show ?thesis using exe_load_good [of exe n ctx] by (auto split: if_splits)
next
  case False
  then show ?thesis
    using assms(2,3) exe_load_bad(2) [of exe n ctx]
    by (cases "n < 0x800") (auto simp: psycho_exe_load_def EXE_MIN_SIZE_def)
qed

lemma reachable_bios:
  assumes "reachable cfg ctx"
  shows "bios (bus ctx) = bios_data cfg"
  using assms
proof (induction rule: reachable.induct)
  case (reach_call cfg ctx ctx')
  have inv: "ctx_inv ctx" by (rule reachable_ctx_inv [OF reach_call.hyps(1)])
  have "bios (bus ctx') = bios (bus ctx)"
    using reach_call.hyps(2)
  proof cases
    case call_step
    then show ?thesis by (rule step_bios [OF inv])
  next
    case (call_exe_load n exe code)
    then show ?thesis by (rule exe_load_bios [OF inv])
  next
    case (call_disasm i addr)
    then show ?thesis by (auto simp: psycho_disasm_instr_eq show_text_def split: if_splits)
  next
    case (call_peek paddr w)
    then show ?thesis using word_port.load_frame(2) by (simp add: psycho_bus_peek_word_def)
  qed (simp_all add: psycho_reset_def psycho_cpu_reset_def psycho_tty_stdout_enable_def
      psycho_disasm_trace_instruction_enable_def psycho_log_level_set_global_def
      psycho_log_module_level_set_def)
  with reach_call.IH show ?case by simp
qed (simp_all add: init_parts)

text \<open>
  C6: whatever the host calls after it has initialised a context with buffers of the declared
  sizes, a further initialisation included, the register files keep their lengths, register 0
  reads zero, pending loads name a register, the buffers keep their sizes, the BIOS is still the
  one of the latest configuration, and every index into a trace buffer is inside it.
\<close>

theorem reachable_invariant:
  assumes "reachable cfg ctx"
  shows "length (gpr (cpu ctx)) = 32 \<and> length (cop0 (cpu ctx)) = 32 \<and> gpr (cpu ctx) ! 0 = 0
    \<and> ld_dst (ld_next (cpu ctx)) < 32 \<and> ld_dst (ld_pend (cpu ctx)) < 32
    \<and> buf_size (ram (bus ctx)) = 0x200000 \<and> buf_size (bios (bus ctx)) = 0x7FFFF
    \<and> bios (bus ctx) = bios_data cfg
    \<and> buf_size (scratchpad (bus ctx)) = 0x3FF \<and> length (modules (log ctx)) = 6
    \<and> length (tty_data (tty_stdout (bios_trace ctx))) = 256
    \<and> tty_len (tty_stdout (bios_trace ctx)) < 256
    \<and> length (trace_result (bios_trace ctx)) = 128
    \<and> length (res_str (result (disasm ctx))) < 256"
  using reachable_ctx_inv [OF assms] reachable_bios [OF assms]
  by (simp add: ctx_inv_def cpu_inv_def cpu_shape_def load_ok_def CPU_GPR_NUM_def CPU_COP0_NUM_def
      bus_sized_def region_consts trace_inv_def PSYCHO_LOG_MODULE_ID_NUM_def PSYCHO_DISASM_LEN_MAX_def)

definition app_cfg :: psycho_ctx_cfg where
  "app_cfg = \<lparr>ram_data = zero_buffer (unat RAM_SIZE), bios_data = zero_buffer (unat BIOS_SIZE)\<rparr>"

lemma app_cfg_sized: "cfg_sized app_cfg"
  by (simp add: cfg_sized_def app_cfg_def zero_buffer_def)

lemma reachable_invariant_witness:
  "\<exists>ctx. psycho_disasm_instr (psycho_init (psycho_init zero_ctx app_cfg) app_cfg) 0 0 = Some ctx
    \<and> gpr (cpu ctx) ! 0 = 0 \<and> length (res_str (result (disasm ctx))) < 256"
proof -
  let ?init = "psycho_init (psycho_init zero_ctx app_cfg) app_cfg"
  have init: "reachable app_cfg ?init"
    by (rule reach_again [OF reach_init]) (rule app_cfg_sized)+
  have "enum_of op_value all_ops (0 :: u32) = Some INSTR_GROUP_SPECIAL" by (simp add: group_op.enum_of_Some_iff)
  then have "\<not> unnamed_cop0 0" by (simp add: unnamed_cop0_def instr_op_def)
  then obtain ctx where ctx: "psycho_disasm_instr ?init 0 0 = Some ctx"
    by (simp add: psycho_disasm_instr_eq)
  from reachable_invariant [OF reach_call [OF init call_disasm [OF ctx]]] ctx show ?thesis by blast
qed

text \<open>
  C26: execution is type-sound: from register files of 32 words, pending loads that name a
  register and buffers of the declared sizes, every word whose data access is in bounds is
  executed, and leaves a state of the same kind.
\<close>

theorem execute_sound:
  assumes "cpu_shape (cpu ctx)" "bus_sized (bus ctx)" "\<not> exec_faults (cpu ctx)"
  shows "\<exists>fl ctx'. cpu_execute ctx = Some (fl, ctx')
    \<and> length (gpr (cpu ctx')) = 32 \<and> length (cop0 (cpu ctx')) = 32
    \<and> ld_dst (ld_next (cpu ctx')) < 32 \<and> ld_dst (ld_pend (cpu ctx')) < 32
    \<and> buf_size (ram (bus ctx')) = 0x200000 \<and> buf_size (bios (bus ctx')) = 0x7FFFF
    \<and> buf_size (scratchpad (bus ctx')) = 0x3FF"
proof -
  obtain fl ctx' where e: "cpu_execute ctx = Some (fl, ctx')"
    using cpu_execute_None_iff [OF assms(2)] assms(3) by fastforce
  then have "cpu_shape (cpu ctx')" "bus_sized (bus ctx')"
    using cpu_execute_keeps [OF e] assms(1,2) by (simp_all add: keeps_def)
  with e show ?thesis
    by (simp add: cpu_shape_def load_ok_def CPU_GPR_NUM_def CPU_COP0_NUM_def bus_sized_def region_consts)
qed

lemma execute_sound_witness:
  "\<exists>fl ctx'. cpu_execute (instr_ctx 0x24020001 (replicate 32 0)) = Some (fl, ctx') \<and> length (gpr (cpu ctx')) = 32"
proof -
  let ?ctx = "instr_ctx 0x24020001 (replicate 32 0)"
  have "enum_of op_value all_ops (instr_op 0x24020001) = Some INSTR_ADDIU"
    by (simp add: group_op.enum_of_Some_iff instr_op_def)
  then have "\<not> exec_faults (cpu ?ctx)"
    by (intro no_data_faults [of _ INSTR_ADDIU]) (simp_all add: instr_ctx_def)
  moreover have "cpu_inv ?ctx" using program_inv [of "replicate 32 0" "[]"]
    by (simp add: instr_ctx_def cpu_inv_def cpu_shape_def)
  ultimately show ?thesis using execute_sound [of ?ctx] by (auto simp: cpu_inv_def)
qed

section \<open>Steps of the whole machine\<close>

text \<open>
  C5: a step of the machine does not return in exactly four cases: the disassembly trace
  cannot show the next word, the TTY line buffer has overflowed, the fetch reads the word
  behind the end of a buffer, or the data access of the fetched instruction does.
\<close>

theorem step_faults:
  assumes "ctx_inv ctx"
  shows "psycho_step ctx = None \<longleftrightarrow>
    (trace_instruction (disasm ctx) \<and> disasm_faults ctx) \<or> tty_faults ctx
    \<or> word_hole (vaddr_to_paddr (fetch_pc (cpu ctx)))
    \<or> (\<exists>c. cpu_fetch ctx = Some c \<and> exec_faults (cpu c))"
proof -
  have "cpu_inv ctx" using assms by (simp add: ctx_inv_def)
  then show ?thesis
    using psycho_step_None_iff [OF assms] step_None_iff [of ctx] cpu_fetch_None_iff [of ctx]
    by (cases "cpu_fetch ctx") (auto simp: trace_faults_def cpu_inv_def)
qed

text \<open>The word at the end address of the RAM.\<close>

lemma step_faults_witness:
  "psycho_step (cpu_update (\<lambda>c. c\<lparr>pc := 0x00200000\<rparr>) (program_ctx [] (replicate 32 0))) = None"
proof -
  let ?ctx = "cpu_update (\<lambda>c. c\<lparr>pc := 0x00200000\<rparr>) (program_ctx [] (replicate 32 0))"
  have "ctx_inv ?ctx"
    using program_ctx_inv [of "replicate 32 0" "[]"]
    by (simp add: ctx_inv_def cpu_inv_def cpu_shape_def)
  moreover have "word_hole (vaddr_to_paddr (fetch_pc (cpu ?ctx)))"
    by (simp add: word_hole_def vaddr_to_paddr_def fetch_pc_def)
  ultimately show ?thesis using step_faults by blast
qed

lemma nop_safe: "ctx_safe (program_ctx [0] (replicate 32 0))"
proof -
  have "enum_of op_value all_ops (instr_op 0) = Some INSTR_GROUP_SPECIAL"
    by (simp add: group_op.enum_of_Some_iff instr_op_def)
  then have "\<not> exec_faults (cpu (cpu_update (after_fetch 0) (pre_fetch (program_ctx [0] (replicate 32 0)))))"
    by (intro no_data_faults [of _ INSTR_GROUP_SPECIAL]) (simp_all add: after_fetch_def)
  then show ?thesis
    using program_quiet [of "[0]" "replicate 32 0"]
    by (simp add: ctx_safe_def step_safe_def fetch_program_first word_hole_def vaddr_to_paddr_def
        fetch_pc_def)
qed

text \<open>
  C8: tracing, logging and the TTY capture never influence the machine: two runs from the same
  registers and memory, with any settings, that both return end in the same registers and
  memory.
\<close>

theorem tracing_transparent:
  assumes "ctx_inv a" "ctx_inv b" "same_machine a b"
    and "run_steps psycho_step n a = Some a'" "run_steps psycho_step n b = Some b'"
  shows "cpu a' = cpu b' \<and> bus a' = bus b'"
  using assms
proof (induction n arbitrary: a b)
  case 0
  then show ?case by (simp add: same_machine_def)
next
  case (Suc n)
  from Suc.prems(4,5) obtain c d where c: "psycho_step a = Some c" "run_steps psycho_step n c = Some a'"
    and d: "psycho_step b = Some d" "run_steps psycho_step n d = Some b'"
    by (auto elim!: bind_eq_SomeE)
  have cc: "rel_option same_machine (psycho_step a) (psycho_cpu_step a)"
    using psycho_step_None_iff [OF Suc.prems(1)] c(1)
    by (intro psycho_step_simulates(1) [OF Suc.prems(1)]) auto
  have dd: "rel_option same_machine (psycho_step b) (psycho_cpu_step b)"
    using psycho_step_None_iff [OF Suc.prems(2)] d(1)
    by (intro psycho_step_simulates(1) [OF Suc.prems(2)]) auto
  have "rel_option same_machine (psycho_cpu_step a) (psycho_cpu_step b)"
    using Suc.prems(2,3) by (intro cpu_step_same) (simp_all add: ctx_inv_def cpu_inv_def)
  with cc dd c(1) d(1) have "same_machine c d"
    by (auto simp: option_rel_Some1 same_machine_def)
  moreover have "ctx_inv c" "ctx_inv d"
    using machine.step_inv Suc.prems(1,2) c(1) d(1) by blast+
  ultimately show ?case using Suc.IH c(2) d(2) by blast
qed

text \<open>The same nop, silently and with everything traced.\<close>

lemma tracing_transparent_witness:
  "\<exists>a b. psycho_step (program_ctx [0] (replicate 32 0)) = Some a
    \<and> psycho_step (psycho_disasm_trace_instruction_enable (psycho_log_level_set_global
         (program_ctx [0] (replicate 32 0)) PSYCHO_LOG_LEVEL_TRACE) True) = Some b
    \<and> cpu a = cpu b \<and> bus a = bus b"
proof -
  let ?a = "program_ctx [0] (replicate 32 0)"
  let ?b = "psycho_disasm_trace_instruction_enable
    (psycho_log_level_set_global ?a PSYCHO_LOG_LEVEL_TRACE) True"
  have ia: "ctx_inv ?a" by (simp add: program_ctx_inv)
  then have ib: "ctx_inv ?b" by (intro setting_inv)
  have sm: "same_machine ?a ?b"
    by (simp add: same_machine_def psycho_disasm_trace_instruction_enable_def
        psycho_log_level_set_global_def)
  have sh: "cpu_shape (cpu ?b)" using ib by (simp add: ctx_inv_def cpu_inv_def)
  obtain a where a: "psycho_step ?a = Some a"
    using machine.step_progress [OF ia nop_safe] by blast
  have "psycho_cpu_step ?a \<noteq> None" using a psycho_step_None_iff [OF ia] by auto
  then have "psycho_cpu_step ?b \<noteq> None"
    using cpu_step_same [OF sm sh] by (auto simp: option_rel_Some1)
  moreover have "psycho_bus_load_word ?b (vaddr_to_paddr (pc (cpu ?b))) = Some (0, ?b)"
    using load_word_program [of ?b "[0]" 0]
    by (simp add: vaddr_to_paddr_def psycho_disasm_trace_instruction_enable_def
        psycho_log_level_set_global_def)
  then have "\<not> trace_faults ?b"
    by (simp add: trace_faults_def disasm_faults_def unnamed_cop0_def instr_op_def
        group_op.enum_of_Some_iff)
  moreover have "\<not> tty_faults ?b"
    by (simp add: tty_faults_def psycho_disasm_trace_instruction_enable_def
        psycho_log_level_set_global_def)
  ultimately obtain b where b: "psycho_step ?b = Some b"
    using psycho_step_None_iff [OF ib] by auto
  have "cpu a = cpu b \<and> bus a = bus b"
    by (rule tracing_transparent [OF ia ib sm, of "Suc 0"]) (simp_all add: a b)
  with a b show ?thesis by blast
qed

text \<open>
  C24: the host is told of an illegal instruction in a step exactly when the fetched word is one
  of no group, and every text it gets from the TTY has an end.
\<close>

theorem illegal_reported:
  assumes "ctx_inv ctx" "psycho_step ctx = Some ctx'"
  shows "\<exists>evs. event_trace ctx' = event_trace ctx @ evs
    \<and> (PSYCHO_EVENT_CPU_ILLEGAL \<in> set evs \<longleftrightarrow> \<not> decodes (fetched_instr ctx))
    \<and> (\<forall>d. PSYCHO_EVENT_TTY_MESSAGE d \<in> set evs \<longrightarrow> c_string_of d \<noteq> None)"
proof -
  obtain evs where "event_trace ctx' = event_trace ctx @ evs"
    "PSYCHO_EVENT_CPU_ILLEGAL \<in> set evs \<longleftrightarrow> \<not> decodes (fetched_instr ctx)"
    "\<And>d. PSYCHO_EVENT_TTY_MESSAGE d \<in> set evs \<Longrightarrow> NUL \<in> set d"
    by (rule step_events [OF assms]) blast
  then show ?thesis by (auto simp: c_string_of_def)
qed

lemma illegal_reported_witness:
  "\<exists>c. psycho_step (program_ctx [0xFC000000] (replicate 32 0)) = Some c
    \<and> PSYCHO_EVENT_CPU_ILLEGAL \<in> set (event_trace c)"
proof -
  have inv: "ctx_inv (program_ctx [0xFC000000] (replicate 32 0))" by (simp add: program_ctx_inv)
  obtain c where c: "psycho_step (program_ctx [0xFC000000] (replicate 32 0)) = Some c"
    using machine.step_progress [OF inv bad_word_safe] by blast
  have "\<not> decodes (fetched_instr (program_ctx [0xFC000000] (replicate 32 0)))"
    by (simp add: decodes_def bad_word)
  with illegal_reported [OF inv c] c show ?thesis by auto
qed

section \<open>Reset and executables\<close>

text \<open>
  After a reset the first step fetches the first word of the BIOS, with no load pending and
  outside a delay slot, and the registers and the memory keep their contents.
\<close>

lemma reset_boots:
  assumes "cpu_inv ctx"
  shows "\<exists>c. cpu_fetch (psycho_reset ctx) = Some c
    \<and> instr (cpu c) = le_word (map (buf_byte (bios (bus ctx))) [0..<4])
    \<and> curr_pc (cpu c) = 0xBFC00000 \<and> pc (cpu c) = 0xBFC00004 \<and> next_pc (cpu c) = 0xBFC00008
    \<and> \<not> in_branch_delay_slot (cpu c) \<and> ld_next (cpu c) = ld_zero
    \<and> gpr (cpu c) = gpr (cpu ctx) \<and> cop0 (cpu c) = cop0 (cpu ctx) \<and> bus c = bus ctx"
proof -
  let ?r = "psycho_reset ctx"
  have cpu: "cpu ?r = (cpu ctx)\<lparr>pc := 0xBFC00000, next_pc := 0xBFC00004, curr_pc := 0xBFC00000,
      in_branch_delay_slot := False, next_in_branch_delay_slot := False,
      ld_next := ld_zero, ld_pend := ld_zero\<rparr>" and bus: "bus ?r = bus ctx"
    by (simp_all add: psycho_reset_def psycho_cpu_reset_def RESET_PC_def)
  have sh: "cpu_shape (cpu ?r)" and zero: "gpr (cpu ctx) ! 0 = 0" and sized: "bus_sized (bus ctx)"
    using assms by (simp_all add: cpu cpu_inv_def cpu_shape_def)
  have f: "cpu_fetch ?r = Some (cpu_update (after_fetch (bios_word (bus ctx))) (pre_fetch ?r))"
    using fetch_reset_word [OF sh] sized by (simp add: cpu bus)
  have "(gpr (cpu ctx))[0 := 0] = gpr (cpu ctx)"
    using zero by (metis list_update_id)
  then show ?thesis unfolding f
    by (simp add: after_fetch_def cpu bus pre_fetch_def enter_slot_def load_delay_shift_def Let_def
        fetch_pc_def bios_word_def)
qed

lemma reset_boots_witness:
  "\<exists>c. cpu_fetch (psycho_reset (program_ctx [] (replicate 32 0))) = Some c \<and> pc (cpu c) = 0xBFC00004"
  using reset_boots [OF program_inv [of "replicate 32 0" "[]"]] by auto

text \<open>
  C25: a call of the loader with an image that holds a header rejects a short image and one
  without the identification, leaving the context alone; it copies the code to the
  destination in RAM and sets the registers when code and destination fit; and otherwise it
  leaves the image or the RAM, neither of which it checks.
\<close>

theorem exe_load_cases:
  assumes "0x800 \<le> buf_size exe" "length (gpr (cpu ctx)) = 32"
  shows "if n < 0x800 then psycho_exe_load ctx exe n = Some (PSYCHO_EXE_SIZE_BAD, ctx)
    else if \<not> exe_has_id exe then psycho_exe_load ctx exe n = Some (PSYCHO_EXE_ID_BAD, ctx)
    else if 0x800 + exe_size_field exe \<le> buf_size exe
        \<and> exe_dst exe + exe_size_field exe \<le> buf_size (ram (bus ctx))
      then \<exists>c. psycho_exe_load ctx exe n = Some (PSYCHO_OK, c) \<and> cpu c = exe_entry exe (cpu ctx)
        \<and> memcpy_to (ram (bus ctx)) (exe_dst exe) (exe_code exe) = Some (ram (bus c))
        \<and> bios (bus c) = bios (bus ctx) \<and> scratchpad (bus c) = scratchpad (bus ctx)
    else psycho_exe_load ctx exe n = None"
proof -
  have len: "length (gpr (cpu ctx)) = CPU_GPR_NUM" using assms(2) by (simp add: CPU_GPR_NUM_def)
  have "\<exists>r. memcpy_to (ram (bus ctx)) (exe_dst exe) (exe_code exe) = Some r"
    if "exe_dst exe + exe_size_field exe \<le> buf_size (ram (bus ctx))"
    using that by (simp add: memcpy_to_def exe_code_def)
  then show ?thesis
    using exe_load_bad [OF assms(1)] exe_load_good [OF assms(1) _ _ len, of n] by auto
qed

text \<open>A header of zeroes behind the identification: an empty program.\<close>

lemma exe_load_cases_witness:
  "\<exists>c. psycho_exe_load (program_ctx [] (replicate 32 0))
      \<lparr>buf_size = 0x800, buf_byte = (\<lambda>i. if i < 8 then exe_id ! i else 0)\<rparr> 0x800 = Some (PSYCHO_OK, c)
    \<and> pc (cpu c) = 0"
proof -
  let ?exe = "\<lparr>buf_size = 0x800, buf_byte = (\<lambda>i. if i < 8 then exe_id ! i else 0)\<rparr> :: buffer"
  have len: "length exe_id = 8" by (simp add: exe_id_def)
  have has: "exe_has_id ?exe"
    using len by (auto simp: exe_has_id_def intro!: nth_equalityI)
  have zero: "exe_word ?exe off = 0" if "8 \<le> off" for off
    using that by (simp add: exe_word_def upt_rec)
  have fields: "exe_size_field ?exe = 0" "exe_dst ?exe = 0" "pc (exe_entry ?exe x) = 0" for x
    by (simp_all add: exe_size_field_def exe_dst_def exe_entry_def zero exe_offsets Let_def
        vaddr_to_paddr_def)
  show ?thesis
    using exe_load_cases [of ?exe "program_ctx [] (replicate 32 0)" "0x800"]
    by (auto simp: has fields)
qed

end
